(* ===== verification/Go_Prelude.thy ===== *)
theory Go_Prelude
  imports Main "HOL-Library.AList" "HOL-Library.Word"
begin

text \<open>
  The vocabulary every other theory of the development shares.

  The program is written in Go and does almost all of its work through calls to code that
  is not part of the repository: the Kubernetes API server, \<^verbatim>\<open>casadm\<close>, a shell, the mount
  table. A piece of Go code that makes such calls is modelled as a function of a world that
  returns an outcome and the new world. An outcome is the value the code returns, or the
  run-time panic that ends the goroutine. Go functions that return several values
  return tuples here, and \<^verbatim>\<open>err\<close> is an \<^typ>\<open>'a option\<close> where \<^verbatim>\<open>nil\<close> is \<^term>\<open>None\<close>.

  The theory holds the outcome type and the sequencing combinator, the relation
  \<open>returns\<close> through which properties talk about a completed call, the preservation
  calculus for invariants of the world, Go maps, and Go errors.
\<close>

named_theorems returns_simps \<open>how a completed run of a combinator decomposes\<close>
named_theorems no_panic_intros \<open>code that always returns\<close>
named_theorems keeps_intros \<open>preservation of a relation between worlds\<close>

section \<open>Outcomes and sequencing\<close>

datatype go_panic = NilDereference | IndexOutOfRange | NilMapWrite

datatype 'a outcome = Ret 'a | Panic go_panic

type_synonym ('w, 'a) io = "'w \<Rightarrow> 'a outcome \<times> 'w"

definition ret :: "'a \<Rightarrow> ('w, 'a) io" where
  "ret a = (\<lambda>w. (Ret a, w))"

definition panic :: "go_panic \<Rightarrow> ('w, 'a) io" where
  "panic p = (\<lambda>w. (Panic p, w))"

definition bnd :: "('w, 'a) io \<Rightarrow> ('a \<Rightarrow> ('w, 'b) io) \<Rightarrow> ('w, 'b) io" where
  "bnd m f = (\<lambda>w. case m w of (Ret a, w') \<Rightarrow> f a w' | (Panic p, w') \<Rightarrow> (Panic p, w'))"

text \<open>A pure computation that may panic, run as part of a sequence.\<close>

definition of_outcome :: "'a outcome \<Rightarrow> ('w, 'a) io" where
  "of_outcome r = (\<lambda>w. (r, w))"

text \<open>Reading through a pointer.\<close>

definition deref :: "'a option \<Rightarrow> ('w, 'a) io" where
  "deref p = (case p of None \<Rightarrow> panic NilDereference | Some a \<Rightarrow> ret a)"

lemma deref_simps [simp]: "deref (Some a) = ret a" "deref None = panic NilDereference"
  by (simp_all add: deref_def)

lemma ret_apply [simp]: "ret a w = (Ret a, w)"
  by (simp add: ret_def)

lemma panic_apply [simp]: "panic p w = (Panic p, w)"
  by (simp add: panic_def)

lemma of_outcome_apply [simp]: "of_outcome r w = (r, w)"
  by (simp add: of_outcome_def)

lemma of_outcome_Ret: "of_outcome (Ret a) = ret a"
  by (simp add: of_outcome_def ret_def)

lemma bnd_ret [simp]: "bnd (ret a) f = f a"
  by (simp add: bnd_def ret_def)

lemma bnd_panic [simp]: "bnd (panic p) f = panic p"
  by (simp add: bnd_def panic_def)

lemma bnd_right_unit [simp]: "bnd m ret = m"
  by (rule ext) (simp add: bnd_def ret_def split: prod.split outcome.split)

lemma bnd_assoc: "bnd (bnd m f) g = bnd m (\<lambda>a. bnd (f a) g)"
  by (rule ext) (simp add: bnd_def split: prod.split outcome.split)

text \<open>Forward execution: a call whose outcome is known is stepped over.\<close>

lemma bnd_Ret: "m w = (Ret a, w1) \<Longrightarrow> bnd m f w = f a w1"
  by (simp add: bnd_def)

lemma bnd_Panic: "m w = (Panic p, w1) \<Longrightarrow> bnd m f w = (Panic p, w1)"
  by (simp add: bnd_def)

lemma if_apply: "(if c then m else n) w = (if c then m w else n w)"
  by simp

text \<open>Sequencing of pure computations that may panic, and reading a slice by index.\<close>

definition obnd :: "'a outcome \<Rightarrow> ('a \<Rightarrow> 'b outcome) \<Rightarrow> 'b outcome" where
  "obnd r f = (case r of Ret a \<Rightarrow> f a | Panic p \<Rightarrow> Panic p)"

definition idx :: "'a list \<Rightarrow> nat \<Rightarrow> 'a outcome" where
  "idx xs i = (if i < length xs then Ret (xs ! i) else Panic IndexOutOfRange)"

lemma obnd_simps [simp]: "obnd (Ret a) f = f a" "obnd (Panic p) f = Panic p"
  by (simp_all add: obnd_def)

lemma obnd_Ret_iff: "obnd r f = Ret b \<longleftrightarrow> (\<exists>a. r = Ret a \<and> f a = Ret b)"
  by (cases r) simp_all

lemma idx_Ret_iff: "idx xs i = Ret a \<longleftrightarrow> i < length xs \<and> a = xs ! i"
  by (auto simp: idx_def)

section \<open>Completed runs\<close>

text \<open>
  \<open>returns m w a w'\<close>: run in world \<open>w\<close> the code returns \<open>a\<close> and leaves world \<open>w'\<close>. The
  decomposition rules turn a completed run of a handler into the chain of the calls it made.
\<close>

definition returns :: "('w, 'a) io \<Rightarrow> 'w \<Rightarrow> 'a \<Rightarrow> 'w \<Rightarrow> bool" where
  "returns m w a w' \<longleftrightarrow> m w = (Ret a, w')"

lemma returns_ret [returns_simps, simp]: "returns (ret a) w b w' \<longleftrightarrow> b = a \<and> w' = w"
  by (auto simp: returns_def)

lemma returns_panic [returns_simps, simp]: "returns (panic p) w b w' \<longleftrightarrow> False"
  by (simp add: returns_def)

lemma returns_of_outcome [returns_simps, simp]:
  "returns (of_outcome r) w b w' \<longleftrightarrow> r = Ret b \<and> w' = w"
  by (auto simp: returns_def)

lemma returns_deref [returns_simps, simp]: "returns (deref p) w b w' \<longleftrightarrow> p = Some b \<and> w' = w"
  by (cases p) auto

lemma returns_bnd [returns_simps]:
  "returns (bnd m f) w b w' \<longleftrightarrow> (\<exists>a w1. returns m w a w1 \<and> returns (f a) w1 b w')"
  by (auto simp: returns_def bnd_def split: prod.splits outcome.splits)

lemma returns_if [returns_simps]:
  "returns (if c then m else n) w b w' \<longleftrightarrow>
     (c \<and> returns m w b w') \<or> (\<not> c \<and> returns n w b w')"
  by simp

lemma returns_case_prod [returns_simps]:
  "returns (case p of (x, y) \<Rightarrow> f x y) w b w' \<longleftrightarrow> returns (f (fst p) (snd p)) w b w'"
  by (simp add: case_prod_beta)

lemma returns_case_option [returns_simps]:
  "returns (case z of None \<Rightarrow> m | Some x \<Rightarrow> f x) w b w' \<longleftrightarrow>
     (z = None \<and> returns m w b w') \<or> (\<exists>x. z = Some x \<and> returns (f x) w b w')"
  by (cases z) simp_all

lemma returns_case_list [returns_simps]:
  "returns (case zs of [] \<Rightarrow> m | x # xs \<Rightarrow> f x xs) w b w' \<longleftrightarrow>
     (zs = [] \<and> returns m w b w') \<or> (\<exists>x xs. zs = x # xs \<and> returns (f x xs) w b w')"
  by (cases zs) simp_all

lemma returns_case_sum [returns_simps]:
  "returns (case z of Inl x \<Rightarrow> f x | Inr y \<Rightarrow> g y) w b w' \<longleftrightarrow>
     (\<exists>x. z = Inl x \<and> returns (f x) w b w') \<or> (\<exists>y. z = Inr y \<and> returns (g y) w b w')"
  by (cases z) simp_all

lemma returns_Let [returns_simps]: "returns (Let a f) w b w' \<longleftrightarrow> returns (f a) w b w'"
  by simp

lemma returnsI: "m w = (Ret a, w') \<Longrightarrow> returns m w a w'"
  by (simp add: returns_def)

lemma returns_snd: "fst (m w) = Ret a \<Longrightarrow> returns m w a (snd (m w))"
  by (simp add: returns_def prod_eq_iff)

lemma returnsD: "returns m w a w' \<Longrightarrow> m w = (Ret a, w')"
  by (simp add: returns_def)

lemma returns_unique: "returns m w a w1 \<Longrightarrow> returns m w b w2 \<Longrightarrow> a = b \<and> w1 = w2"
  by (simp add: returns_def)

section \<open>Code that never panics\<close>

definition no_panic :: "('w, 'a) io \<Rightarrow> bool" where
  "no_panic m \<longleftrightarrow> (\<forall>w. \<exists>a w'. returns m w a w')"

lemma no_panic_returns: "no_panic m \<Longrightarrow> \<exists>a w'. returns m w a w'"
  by (simp add: no_panic_def)

lemma no_panic_ret [no_panic_intros]: "no_panic (ret a)"
  by (simp add: no_panic_def)

lemma no_panic_bnd [no_panic_intros]: "no_panic m \<Longrightarrow> (\<And>a. no_panic (f a)) \<Longrightarrow> no_panic (bnd m f)"
  unfolding no_panic_def returns_bnd by blast

lemma no_panic_if [no_panic_intros]: "no_panic m \<Longrightarrow> no_panic n \<Longrightarrow> no_panic (if c then m else n)"
  by simp

lemma no_panic_case_prod [no_panic_intros]:
  "(\<And>x y. no_panic (f x y)) \<Longrightarrow> no_panic (case p of (x, y) \<Rightarrow> f x y)"
  by (cases p) simp

lemma no_panic_case_option [no_panic_intros]:
  "no_panic m \<Longrightarrow> (\<And>x. no_panic (f x)) \<Longrightarrow> no_panic (case z of None \<Rightarrow> m | Some x \<Rightarrow> f x)"
  by (cases z) simp_all

lemma no_panic_case_list [no_panic_intros]:
  "no_panic m \<Longrightarrow> (\<And>x xs. no_panic (f x xs)) \<Longrightarrow> no_panic (case zs of [] \<Rightarrow> m | x # xs \<Rightarrow> f x xs)"
  by (cases zs) simp_all

lemma no_panic_case_sum [no_panic_intros]:
  "(\<And>x. no_panic (f x)) \<Longrightarrow> (\<And>y. no_panic (g y)) \<Longrightarrow>
     no_panic (case z of Inl x \<Rightarrow> f x | Inr y \<Rightarrow> g y)"
  by (cases z) simp_all

lemma no_panic_Let [no_panic_intros]: "(\<And>x. no_panic (f x)) \<Longrightarrow> no_panic (Let a f)"
  by simp

section \<open>Relations every run keeps\<close>

text \<open>
  \<open>keeps R m\<close>: whatever the outcome, the world after \<open>m\<close> is related by \<open>R\<close> to the world
  before. For a reflexive and transitive \<open>R\<close> it is closed under sequencing, so it lifts from
  the calls to the handlers built from them.
\<close>

definition keeps :: "('w \<Rightarrow> 'w \<Rightarrow> bool) \<Rightarrow> ('w, 'a) io \<Rightarrow> bool" where
  "keeps R m \<longleftrightarrow> (\<forall>w. R w (snd (m w)))"

lemma keepsD: "keeps R m \<Longrightarrow> m w = (r, w') \<Longrightarrow> R w w'"
  by (metis keeps_def snd_conv)

lemma keeps_returns: "keeps R m \<Longrightarrow> returns m w a w' \<Longrightarrow> R w w'"
  by (simp add: returns_def keepsD)

lemma keeps_mono: "keeps R m \<Longrightarrow> (\<And>w w'. R w w' \<Longrightarrow> S w w') \<Longrightarrow> keeps S m"
  by (auto simp: keeps_def)

lemma keepsI: "no_panic m \<Longrightarrow> (\<And>w a w'. returns m w a w' \<Longrightarrow> R w w') \<Longrightarrow> keeps R m"
  unfolding keeps_def no_panic_def by (metis returns_def snd_conv)

lemma keeps_ret [keeps_intros]: "reflp R \<Longrightarrow> keeps R (ret a)"
  by (simp add: keeps_def reflpD)

lemma keeps_panic [keeps_intros]: "reflp R \<Longrightarrow> keeps R (panic p)"
  by (simp add: keeps_def reflpD)

lemma keeps_of_outcome [keeps_intros]: "reflp R \<Longrightarrow> keeps R (of_outcome r)"
  by (simp add: keeps_def reflpD)

lemma keeps_deref [keeps_intros]: "reflp R \<Longrightarrow> keeps R (deref p)"
  by (cases p) (simp_all add: keeps_ret keeps_panic)

lemma keeps_bnd [keeps_intros]:
  assumes "transp R" and m: "keeps R m" and f: "\<And>a. keeps R (f a)"
  shows "keeps R (bnd m f)"
  unfolding keeps_def
proof
  fix w
  obtain r w1 where run: "m w = (r, w1)" by fastforce
  then have first: "R w w1" using m by (blast intro: keepsD)
  show "R w (snd (bnd m f w))"
  proof (cases r)
    case (Ret a)
    have "R w1 (snd (f a w1))" using f by (simp add: keeps_def)
    with \<open>transp R\<close> first have "R w (snd (f a w1))" by (rule transpD)
    then show ?thesis using run Ret by (simp add: bnd_Ret)
  next
    case (Panic p)
    then show ?thesis using run first by (simp add: bnd_Panic)
  qed
qed

lemma keeps_if [keeps_intros]: "keeps R m \<Longrightarrow> keeps R n \<Longrightarrow> keeps R (if c then m else n)"
  by simp

lemma keeps_case_prod [keeps_intros]:
  "(\<And>x y. keeps R (f x y)) \<Longrightarrow> keeps R (case p of (x, y) \<Rightarrow> f x y)"
  by (cases p) simp

lemma keeps_case_option [keeps_intros]:
  "keeps R m \<Longrightarrow> (\<And>x. keeps R (f x)) \<Longrightarrow> keeps R (case z of None \<Rightarrow> m | Some x \<Rightarrow> f x)"
  by (cases z) simp_all

lemma keeps_case_list [keeps_intros]:
  "keeps R m \<Longrightarrow> (\<And>x xs. keeps R (f x xs)) \<Longrightarrow> keeps R (case zs of [] \<Rightarrow> m | x # xs \<Rightarrow> f x xs)"
  by (cases zs) simp_all

lemma keeps_case_sum [keeps_intros]:
  "(\<And>x. keeps R (f x)) \<Longrightarrow> (\<And>y. keeps R (g y)) \<Longrightarrow> keeps R (case z of Inl x \<Rightarrow> f x | Inr y \<Rightarrow> g y)"
  by (cases z) simp_all

lemma keeps_Let [keeps_intros]: "(\<And>x. keeps R (f x)) \<Longrightarrow> keeps R (Let a f)"
  by simp

section \<open>Errors\<close>

text \<open>
  The code looks at an \<^verbatim>\<open>error\<close> in two ways: at its text (\<^verbatim>\<open>strings.Contains(err.Error(), ...)\<close>)
  and through the predicates \<^verbatim>\<open>apierrors.IsNotFound\<close>, \<^verbatim>\<open>os.IsNotExist\<close>, \<^verbatim>\<open>os.IsExist\<close> and the
  type assertion on \<^verbatim>\<open>*exec.ExitError\<close>, all of which classify the error. An error is its text
  together with its class.
\<close>

datatype err_kind = KNotFound | KNotExist | KExist | KOther

datatype error = Error (ErrorText: string) (ErrorKind: err_kind)

definition errorf :: "string \<Rightarrow> error" where
  "errorf msg = Error msg KOther"

definition IsNotFound :: "error \<Rightarrow> bool" where
  "IsNotFound e \<longleftrightarrow> ErrorKind e = KNotFound"

definition IsNotExist :: "error \<Rightarrow> bool" where
  "IsNotExist e \<longleftrightarrow> ErrorKind e = KNotExist"

definition IsExist :: "error \<Rightarrow> bool" where
  "IsExist e \<longleftrightarrow> ErrorKind e = KExist"

text \<open>
  \<^verbatim>\<open>err != nil && P(err)\<close>, and \<^verbatim>\<open>err.Error()\<close> of an error known not to be \<^verbatim>\<open>nil\<close>.
\<close>

definition err_that :: "(error \<Rightarrow> bool) \<Rightarrow> error option \<Rightarrow> bool" where
  "err_that P err \<longleftrightarrow> (case err of None \<Rightarrow> False | Some e \<Rightarrow> P e)"

definition err_text :: "error option \<Rightarrow> string" where
  "err_text err = (case err of None \<Rightarrow> [] | Some e \<Rightarrow> ErrorText e)"

lemma err_that_simps [simp]: "\<not> err_that P None" "err_that P (Some e) \<longleftrightarrow> P e"
  by (simp_all add: err_that_def)

lemma err_text_simps [simp]: "err_text None = []" "err_text (Some e) = ErrorText e"
  by (simp_all add: err_text_def)

lemma errorf_kind [simp]: "ErrorKind (errorf m) = KOther" "ErrorText (errorf m) = m"
  by (simp_all add: errorf_def)

section \<open>Go maps\<close>

text \<open>
  A \<^verbatim>\<open>map[string]T\<close> is \<^verbatim>\<open>nil\<close> (\<^term>\<open>None\<close>) or an association list. Reading and deleting
  work on a \<^verbatim>\<open>nil\<close> map, writing to one panics. Go leaves the iteration order of a map open:
  code that ranges over a map takes the order from the list, and the theorems about such code
  hold for every list with the same entries.
\<close>

type_synonym 'v gomap = "(string \<times> 'v) list option"

definition mentries :: "'v gomap \<Rightarrow> (string \<times> 'v) list" where
  "mentries m = (case m of None \<Rightarrow> [] | Some xs \<Rightarrow> xs)"

definition mget :: "'v gomap \<Rightarrow> string \<Rightarrow> 'v option" where
  "mget m k = map_of (mentries m) k"

text \<open>\<^verbatim>\<open>m[k]\<close> on a map of strings gives the empty string for an absent key.\<close>

definition mgets :: "string gomap \<Rightarrow> string \<Rightarrow> string" where
  "mgets m k = (case mget m k of None \<Rightarrow> '''' | Some v \<Rightarrow> v)"

definition mput :: "'v gomap \<Rightarrow> string \<Rightarrow> 'v \<Rightarrow> 'v gomap outcome" where
  "mput m k v = (case m of None \<Rightarrow> Panic NilMapWrite | Some xs \<Rightarrow> Ret (Some (AList.update k v xs)))"

definition mdel :: "'v gomap \<Rightarrow> string \<Rightarrow> 'v gomap" where
  "mdel m k = map_option (AList.delete k) m"

lemma mentries_simps [simp]: "mentries None = []" "mentries (Some xs) = xs"
  by (simp_all add: mentries_def)

lemma mget_None [simp]: "mget None k = None"
  by (simp add: mget_def mentries_def)

lemma mget_Some [simp]: "mget (Some xs) k = map_of xs k"
  by (simp add: mget_def mentries_def)

lemma mget_mput: "mput m k v = Ret m' \<Longrightarrow> mget m' = (mget m)(k \<mapsto> v)"
  by (auto simp: mput_def fun_eq_iff update_conv' split: option.splits)

lemma mput_Ret_iff: "(\<exists>m'. mput m k v = Ret m') \<longleftrightarrow> m \<noteq> None"
  by (auto simp: mput_def split: option.splits)

lemma mget_mdel [simp]: "mget (mdel m k) = (mget m)(k := None)"
  by (cases m) (auto simp: mdel_def fun_eq_iff delete_conv')

end
