(* ===== verification/Go_Strings.thy ===== *)
theory Go_Strings
  imports Go_Prelude
begin

text \<open>
  The functions of Go's packages \<^verbatim>\<open>strings\<close>, \<^verbatim>\<open>strconv\<close> and \<^verbatim>\<open>fmt\<close> that the program
  calls. A Go string is a list of bytes (\<^typ>\<open>char\<close>). White space and quoting
  are modelled for ASCII text, which is what Kubernetes object names, labels, \<^verbatim>\<open>casadm\<close> output
  and device paths consist of; bytes above 127 pass through unchanged. Case mapping is exact as far as
  ASCII is concerned: it lowers the ASCII letters and the two letters beyond ASCII whose lower case is an
  ASCII letter, so a comparison of its result with ASCII text has the outcome it has in Go.

  Beside the definitions: what each function computes (\<open>Contains\<close> is the sublist test,
  \<open>Join\<close> inverts \<open>Split\<close>, \<open>ReplaceAll\<close> changes nothing where there is no match) and the
  round trip between printing and parsing of integers.
\<close>

section \<open>Searching and splitting\<close>

fun HasPrefix :: "string \<Rightarrow> string \<Rightarrow> bool" where
  "HasPrefix s [] = True"
| "HasPrefix [] (p # ps) = False"
| "HasPrefix (c # s) (p # ps) = (c = p \<and> HasPrefix s ps)"

primrec Index :: "string \<Rightarrow> string \<Rightarrow> nat option" where
  "Index [] sub = (if sub = [] then Some 0 else None)"
| "Index (c # s) sub =
     (if HasPrefix (c # s) sub then Some 0 else map_option Suc (Index s sub))"

definition Contains :: "string \<Rightarrow> string \<Rightarrow> bool" where
  "Contains s sub \<longleftrightarrow> Index s sub \<noteq> None"

definition CutPrefix :: "string \<Rightarrow> string \<Rightarrow> string \<times> bool" where
  "CutPrefix s p = (if HasPrefix s p then (drop (length p) s, True) else (s, False))"

text \<open>\<^verbatim>\<open>strings.SplitN(s, sep, 2)\<close> and \<^verbatim>\<open>strings.Split(s, sep)\<close>.\<close>

definition SplitN2 :: "string \<Rightarrow> string \<Rightarrow> string list" where
  "SplitN2 s sep = (case Index s sep of None \<Rightarrow> [s]
     | Some i \<Rightarrow> [take i s, drop (i + length sep) s])"

lemma HasPrefix_iff: "HasPrefix s p \<longleftrightarrow> (\<exists>t. s = p @ t)"
  by (induction s p rule: HasPrefix.induct) auto

lemma HasPrefix_append [simp]: "HasPrefix (p @ t) p"
  by (auto simp: HasPrefix_iff)

lemma HasPrefix_length: "HasPrefix s p \<Longrightarrow> length p \<le> length s"
  by (auto simp: HasPrefix_iff)

lemma Index_bound: "Index s sub = Some i \<Longrightarrow> i + length sub \<le> length s"
  by (induction s arbitrary: i) (auto split: if_splits dest: HasPrefix_length)

lemma Index_Some: "Index s sub = Some i \<Longrightarrow> s = take i s @ sub @ drop (i + length sub) s"
proof (induction s arbitrary: i)
  case (Cons c s)
  show ?case
  proof (cases "HasPrefix (c # s) sub")
    case True
    with Cons.prems show ?thesis by (auto simp: HasPrefix_iff)
  next
    case False
    with Cons.prems obtain j where "Index s sub = Some j" and "i = Suc j" by auto
    with Cons.IH show ?thesis by simp
  qed
qed (auto split: if_splits)

lemma Index_prefix: "Index (sub @ b) sub = Some 0"
  by (cases "sub @ b") (simp, metis HasPrefix_append Index.simps(2))

lemma Index_append: "Index (a @ sub @ b) sub \<noteq> None"
  by (induction a) (simp_all add: Index_prefix)

lemma Contains_iff: "Contains s sub \<longleftrightarrow> (\<exists>a b. s = a @ sub @ b)"
proof
  assume "Contains s sub"
  then obtain i where "Index s sub = Some i" by (auto simp: Contains_def)
  then show "\<exists>a b. s = a @ sub @ b" by (blast dest: Index_Some)
next
  assume "\<exists>a b. s = a @ sub @ b"
  then obtain a b where "s = a @ sub @ b" by blast
  then show "Contains s sub" using Index_append [of a sub b] by (simp add: Contains_def)
qed

lemma Contains_self [simp]: "Contains s s"
  by (auto simp: Contains_iff intro: exI [of _ "[]"])

function Split :: "string \<Rightarrow> string \<Rightarrow> string list" where
  "Split s sep =
     (if sep = [] then map (\<lambda>c. [c]) s
      else case Index s sep of None \<Rightarrow> [s]
        | Some i \<Rightarrow> take i s # Split (drop (i + length sep) s) sep)"
  by pat_completeness auto
termination
proof (relation "measure (\<lambda>(s, sep). length s)", goal_cases)
  case (2 s sep i)
  then have "i + length sep \<le> length s" and "0 < length sep" by (auto dest: Index_bound)
  then have "length s - (i + length sep) < length s" by linarith
  then show ?case by simp
qed simp

declare Split.simps [simp del]

fun Join :: "string list \<Rightarrow> string \<Rightarrow> string" where
  "Join [] sep = []"
| "Join [x] sep = x"
| "Join (x # y # zs) sep = x @ sep @ Join (y # zs) sep"

definition ReplaceAll :: "string \<Rightarrow> string \<Rightarrow> string \<Rightarrow> string" where
  "ReplaceAll s old new =
     (if old = [] then new @ concat (map (\<lambda>c. c # new) s) else Join (Split s old) new)"

lemma Split_nonempty [simp]: "sep \<noteq> [] \<Longrightarrow> Split s sep \<noteq> []"
  by (subst Split.simps) (simp split: option.split)

lemma Join_Cons: "xs \<noteq> [] \<Longrightarrow> Join (x # xs) sep = x @ sep @ Join xs sep"
  by (cases xs) simp_all

lemma Join_Split: "sep \<noteq> [] \<Longrightarrow> Join (Split s sep) sep = s"
proof (induction s sep rule: Split.induct)
  case (1 s sep)
  show ?case
  proof (cases "Index s sep")
    case None
    with "1.prems" show ?thesis by (simp add: Split.simps [of s])
  next
    case (Some i)
    with "1.IH" "1.prems" have "Join (Split (drop (i + length sep) s) sep) sep
        = drop (i + length sep) s" by blast
    with Some "1.prems" show ?thesis
      by (simp add: Split.simps [of s] Join_Cons Index_Some [symmetric])
  qed
qed

lemma Split_no_match: "sep \<noteq> [] \<Longrightarrow> \<not> Contains s sep \<Longrightarrow> Split s sep = [s]"
  by (subst Split.simps) (simp add: Contains_def)

lemma ReplaceAll_no_match: "old \<noteq> [] \<Longrightarrow> \<not> Contains s old \<Longrightarrow> ReplaceAll s old new = s"
  by (simp add: ReplaceAll_def Split_no_match)

text \<open>Splitting at a single byte, the only kind of separator the program splits at.\<close>

lemma Index_char: "Index s [c] = (if c \<in> set s then Some (length (takeWhile (\<lambda>x. x \<noteq> c) s)) else None)"
  by (induction s) auto

lemma Contains_char [simp]: "Contains s [c] \<longleftrightarrow> c \<in> set s"
  by (simp add: Contains_def Index_char)

lemma Split_char_append: "c \<notin> set x \<Longrightarrow> Split (x @ c # s) [c] = x # Split s [c]"
  by (subst Split.simps) (simp add: Index_char takeWhile_append)

lemma Split_Join_char:
  assumes "xs \<noteq> []" and "\<And>x. x \<in> set xs \<Longrightarrow> c \<notin> set x"
  shows "Split (Join xs [c]) [c] = xs"
  using assms
  by (induction xs "[c]" rule: Join.induct) (auto simp: Split_no_match Split_char_append)

lemma Split_char_pieces: "x \<in> set (Split s [c]) \<Longrightarrow> c \<notin> set x"
proof (induction s "[c]" rule: Split.induct)
  case (1 s)
  then show ?case
    by (cases "c \<in> set s")
      (auto simp: Split.simps [of s] Index_char takeWhile_eq_take [symmetric] dest: set_takeWhileD)
qed

section \<open>Trimming and case\<close>

definition TrimRight :: "string \<Rightarrow> string \<Rightarrow> string" where
  "TrimRight s cutset = rev (dropWhile (\<lambda>c. c \<in> set cutset) (rev s))"

definition is_space :: "char \<Rightarrow> bool" where
  "is_space c \<longleftrightarrow> c = CHR 0x20 \<or> (9 \<le> (of_char c :: nat) \<and> (of_char c :: nat) \<le> 13)"

definition TrimSpace :: "string \<Rightarrow> string" where
  "TrimSpace s = rev (dropWhile is_space (rev (dropWhile is_space s)))"

definition lower :: "char \<Rightarrow> char" where
  "lower c = (if 65 \<le> (of_char c :: nat) \<and> (of_char c :: nat) \<le> 90
              then char_of ((of_char c :: nat) + 32) else c)"

text \<open>
  \<^verbatim>\<open>strings.ToLower\<close>. The runes U+0130 and U+212A, the only ones beyond ASCII that it maps into
  ASCII, are matched by their bytes in UTF-8; their first byte never continues another rune. What becomes of
  other runes beyond ASCII, which stay beyond it, is not tracked.
\<close>

fun ToLower :: "string \<Rightarrow> string" where
  "ToLower [] = []"
| "ToLower (c # s) =
     (if HasPrefix (c # s) [CHR 0xC4, CHR 0xB0] then CHR ''i'' # ToLower (drop 1 s)
      else if HasPrefix (c # s) [CHR 0xE2, CHR 0x84, CHR 0xAA] then CHR ''k'' # ToLower (drop 2 s)
      else lower c # ToLower s)"

lemma TrimRight_set: "set (TrimRight s cs) \<subseteq> set s"
  by (auto simp: TrimRight_def dest: set_dropWhileD)

lemma TrimRight_length: "length (TrimRight s cs) \<le> length s"
  by (simp add: TrimRight_def) (metis length_dropWhile_le length_rev)

lemma TrimRight_last: "TrimRight s cs \<noteq> [] \<Longrightarrow> last (TrimRight s cs) \<notin> set cs"
  using hd_dropWhile [of "\<lambda>c. c \<in> set cs" "rev s"] by (simp add: TrimRight_def last_rev)

definition ascii :: "char \<Rightarrow> bool" where
  "ascii c \<longleftrightarrow> (of_char c :: nat) < 128"

lemma ToLower_ascii: "list_all ascii s \<Longrightarrow> ToLower s = map lower s"
  by (induction s rule: ToLower.induct) (auto simp: ascii_def)

lemma ToLower_length: "length (ToLower s) \<le> length s"
  by (induction s rule: ToLower.induct) (auto simp: le_diff_conv)

text \<open>An ASCII character separates what is before it from what is after it.\<close>

lemma HasPrefix_split: "ascii d \<Longrightarrow> list_all (\<lambda>c. \<not> ascii c) p \<Longrightarrow> HasPrefix (s @ d # t) p = HasPrefix s p"
  by (induction s p rule: HasPrefix.induct) auto

lemma ToLower_Cons: "ascii d \<Longrightarrow> ToLower (d # t) = lower d # ToLower t"
  by (auto simp: ascii_def)

lemma ToLower_split:
  assumes "ascii d"
  shows "ToLower (s @ d # t) = ToLower s @ lower d # ToLower t"
proof (induction s rule: ToLower.induct)
  case 1
  then show ?case using ToLower_Cons [OF assms] by simp
next
  case (2 c s)
  have high: "list_all (\<lambda>c. \<not> ascii c) [CHR 0xC4, CHR 0xB0]" "list_all (\<lambda>c. \<not> ascii c) [CHR 0xE2, CHR 0x84, CHR 0xAA]"
    by (simp_all add: ascii_def)
  note same = HasPrefix_split [OF assms high(1), of "c # s" t] HasPrefix_split [OF assms high(2), of "c # s" t]
  have len: "HasPrefix (c # s) [CHR 0xC4, CHR 0xB0] \<Longrightarrow> drop 1 (s @ d # t) = drop 1 s @ d # t"
    "HasPrefix (c # s) [CHR 0xE2, CHR 0x84, CHR 0xAA] \<Longrightarrow> drop 2 (s @ d # t) = drop 2 s @ d # t"
    by (auto simp: HasPrefix_iff)
  show ?case
    using 2 same len by (simp del: HasPrefix.simps drop_append)
qed

section \<open>Printing and parsing integers\<close>

definition digit :: "nat \<Rightarrow> char" where
  "digit d = char_of (48 + d)"

fun nat_str :: "nat \<Rightarrow> string" where
  "nat_str n = (if n < 10 then [digit n] else nat_str (n div 10) @ [digit (n mod 10)])"

declare nat_str.simps [simp del]

text \<open>\<^verbatim>\<open>fmt.Sprint\<close>, \<^verbatim>\<open>%d\<close> and \<^verbatim>\<open>%v\<close> of an integer.\<close>

definition fmt_int :: "int \<Rightarrow> string" where
  "fmt_int i = (if i < 0 then CHR ''-'' # nat_str (nat (- i)) else nat_str (nat i))"

definition is_digit :: "char \<Rightarrow> bool" where
  "is_digit c \<longleftrightarrow> 48 \<le> (of_char c :: nat) \<and> (of_char c :: nat) \<le> 57"

definition digit_val :: "char \<Rightarrow> nat" where
  "digit_val c = of_char c - 48"

definition digits_val :: "string \<Rightarrow> nat" where
  "digits_val s = foldl (\<lambda>acc c. 10 * acc + digit_val c) 0 s"

text \<open>
  The loop of \<^verbatim>\<open>strconv.ParseUint\<close> for base 10: from left to right, with \<open>n\<close> read so far. It gives up at
  the first character that is no digit, and at the first digit that takes the number above \<open>bound\<close>,
  whatever follows it.
\<close>

datatype scanned = Number nat | BadSyntax | OutOfRange

fun scan_digits :: "nat \<Rightarrow> nat \<Rightarrow> string \<Rightarrow> scanned" where
  "scan_digits bound n [] = Number n"
| "scan_digits bound n (c # s) =
     (if \<not> is_digit c then BadSyntax
      else if bound < 10 * n + digit_val c then OutOfRange
      else scan_digits bound (10 * n + digit_val c) s)"

definition scan_uint :: "nat \<Rightarrow> string \<Rightarrow> scanned" where
  "scan_uint bound s = (if s = [] then BadSyntax else scan_digits bound 0 s)"

text \<open>
  \<^verbatim>\<open>%q\<close> of \<^verbatim>\<open>fmt\<close>: a double-quoted Go literal, with the escapes of \<^verbatim>\<open>strconv.Quote\<close>.
\<close>

definition hex_digit :: "nat \<Rightarrow> char" where
  "hex_digit d = (if d < 10 then char_of (48 + d) else char_of (87 + d))"

definition quote_char :: "char \<Rightarrow> string" where
  "quote_char c =
    (let n = (of_char c :: nat) in
     if c = CHR 0x22 \<or> c = CHR 0x5C then [CHR 0x5C, c]
     else if n = 7 then [CHR 0x5C, CHR ''a'']
     else if n = 8 then [CHR 0x5C, CHR ''b'']
     else if n = 12 then [CHR 0x5C, CHR ''f'']
     else if n = 10 then [CHR 0x5C, CHR ''n'']
     else if n = 13 then [CHR 0x5C, CHR ''r'']
     else if n = 9 then [CHR 0x5C, CHR ''t'']
     else if n = 11 then [CHR 0x5C, CHR ''v'']
     else if n < 32 \<or> n = 127 then [CHR 0x5C, CHR ''x'', hex_digit (n div 16), hex_digit (n mod 16)]
     else [c])"

definition fmt_q :: "string \<Rightarrow> string" where
  "fmt_q s = CHR 0x22 # concat (map quote_char s) @ [CHR 0x22]"

definition num_error :: "string \<Rightarrow> string \<Rightarrow> string \<Rightarrow> error" where
  "num_error func num what = errorf (''strconv.'' @ func @ '': parsing '' @ fmt_q num @ '': '' @ what)"

text \<open>
  \<^verbatim>\<open>strconv.ParseInt(s, 10, 64)\<close> gives 0 with an error for text that is no number, and the
  nearest bound of the 64-bit range with an error for a number outside it; \<^verbatim>\<open>strconv.Atoi\<close> is
  the same function under another name. \<^verbatim>\<open>strconv.ParseUint(s, 10, bits)\<close> takes no sign. The range is
  that of 64 bits without a sign while the digits are read, so a longer number is out of range even where
  text that is no digit follows.
\<close>

definition parse_int64 :: "string \<Rightarrow> string \<Rightarrow> int \<times> error option" where
  "parse_int64 func s =
    (let neg = HasPrefix s ''-'';
         body = (if HasPrefix s ''-'' \<or> HasPrefix s ''+'' then tl s else s) in
     case scan_uint (2 ^ 64 - 1) body of
       BadSyntax \<Rightarrow> (0, Some (num_error func s ''invalid syntax''))
     | OutOfRange \<Rightarrow> (if neg then - (2 ^ 63) else 2 ^ 63 - 1, Some (num_error func s ''value out of range''))
     | Number n \<Rightarrow>
         (let i = (if neg then - int n else int n) in
          if i < - (2 ^ 63) then (- (2 ^ 63), Some (num_error func s ''value out of range''))
          else if 2 ^ 63 \<le> i then (2 ^ 63 - 1, Some (num_error func s ''value out of range''))
          else (i, None)))"

definition ParseInt64 :: "string \<Rightarrow> int \<times> error option" where
  "ParseInt64 s = parse_int64 ''ParseInt'' s"

definition Atoi :: "string \<Rightarrow> int \<times> error option" where
  "Atoi s = parse_int64 ''Atoi'' s"

definition ParseUint :: "string \<Rightarrow> nat \<Rightarrow> nat \<times> error option" where
  "ParseUint s bits = (case scan_uint (2 ^ bits - 1) s of
       BadSyntax \<Rightarrow> (0, Some (num_error ''ParseUint'' s ''invalid syntax''))
     | OutOfRange \<Rightarrow> (2 ^ bits - 1, Some (num_error ''ParseUint'' s ''value out of range''))
     | Number n \<Rightarrow> (n, None))"

lemma digit_props:
  assumes "d < 10"
  shows "is_digit (digit d)" and "digit_val (digit d) = d"
proof -
  have "(of_char (digit d) :: nat) = 48 + d"
    using assms by (simp add: digit_def of_char_of)
  then show "is_digit (digit d)" and "digit_val (digit d) = d"
    using assms by (simp_all add: is_digit_def digit_val_def)
qed

lemma digits_val_snoc: "digits_val (s @ [c]) = 10 * digits_val s + digit_val c"
  by (simp add: digits_val_def)

lemma nat_str_nonempty [simp]: "nat_str n \<noteq> []"
  by (subst nat_str.simps) simp

lemma nat_str_digits: "list_all is_digit (nat_str n)"
  by (induction n rule: nat_str.induct) (subst nat_str.simps, simp add: digit_props)

lemma digits_val_nat_str: "digits_val (nat_str n) = n"
proof (induction n rule: nat_str.induct)
  case (1 n)
  show ?case
  proof (cases "n < 10")
    case True
    then show ?thesis by (subst nat_str.simps) (simp add: digits_val_def digit_props)
  next
    case False
    then show ?thesis using "1.IH"
      by (subst nat_str.simps) (simp add: digits_val_snoc digit_props)
  qed
qed

lemma scan_digits_ge: "m \<le> foldl (\<lambda>acc c. 10 * acc + digit_val c) m s"
proof (induction s arbitrary: m)
  case (Cons c s)
  show ?case using Cons [of "10 * m + digit_val c"] by simp
qed simp

lemma scan_digits_all:
  "list_all is_digit s \<Longrightarrow> foldl (\<lambda>acc c. 10 * acc + digit_val c) n s \<le> bound \<Longrightarrow>
     scan_digits bound n s = Number (foldl (\<lambda>acc c. 10 * acc + digit_val c) n s)"
proof (induction s arbitrary: n)
  case (Cons c s)
  then show ?case using scan_digits_ge [of "10 * n + digit_val c" s] by simp
qed simp

lemma scan_digits_bound: "scan_digits bound n s = Number m \<Longrightarrow> n \<le> bound \<Longrightarrow> m \<le> bound"
  by (induction bound n s rule: scan_digits.induct) (auto split: if_splits)

lemma scan_uint_nat_str: "n \<le> bound \<Longrightarrow> scan_uint bound (nat_str n) = Number n"
  using scan_digits_all [OF nat_str_digits, of 0 n bound] digits_val_nat_str [of n]
  by (simp add: scan_uint_def digits_val_def)

lemma scan_uint_bound: "scan_uint bound s = Number n \<Longrightarrow> n \<le> bound"
  using scan_digits_bound [of bound 0 s n] by (simp add: scan_uint_def split: if_splits)

lemma nat_str_inj: "nat_str m = nat_str n \<longleftrightarrow> m = n"
  by (metis digits_val_nat_str)

lemma nat_str_no_sign: "HasPrefix (nat_str n) [c] \<Longrightarrow> is_digit c"
  using nat_str_digits [of n] by (cases "nat_str n") (auto simp: list_all_def)

lemma sign_not_digit [simp]: "\<not> is_digit CHR ''-''" "\<not> is_digit CHR ''+''"
  by (simp_all add: is_digit_def)

lemma parse_int64_fmt_int:
  assumes "- (2 ^ 63) \<le> i" and "i < 2 ^ 63"
  shows "parse_int64 func (fmt_int i) = (i, None)"
proof (cases "i < 0")
  case True
  have "nat (- i) \<le> 2 ^ 64 - 1" using assms by simp
  with True assms show ?thesis by (simp add: fmt_int_def parse_int64_def Let_def scan_uint_nat_str)
next
  case False
  have "nat i \<le> 2 ^ 64 - 1" using assms by simp
  moreover have "\<not> HasPrefix (nat_str n) ''-''" and "\<not> HasPrefix (nat_str n) ''+''" for n
    by (auto dest: nat_str_no_sign)
  ultimately show ?thesis using False assms by (simp add: fmt_int_def parse_int64_def Let_def scan_uint_nat_str)
qed

lemma Atoi_fmt_int: "- (2 ^ 63) \<le> i \<Longrightarrow> i < 2 ^ 63 \<Longrightarrow> Atoi (fmt_int i) = (i, None)"
  by (simp add: Atoi_def parse_int64_fmt_int)

lemma Atoi_range: "- (2 ^ 63) \<le> fst (Atoi s) \<and> fst (Atoi s) < 2 ^ 63"
  by (auto simp: Atoi_def parse_int64_def Let_def split: scanned.split)

lemma ParseUint_nat_str: "n < 2 ^ bits \<Longrightarrow> ParseUint (nat_str n) bits = (n, None)"
  by (simp add: ParseUint_def scan_uint_nat_str le_diff_conv)

lemma ParseUint_bound: "fst (ParseUint s bits) < 2 ^ bits"
  using scan_uint_bound [of "2 ^ bits - 1" s] by (auto simp: ParseUint_def less_Suc_eq_le [symmetric] split: scanned.split)

lemma fmt_int_inj: "fmt_int i = fmt_int j \<longleftrightarrow> i = j"
proof
  assume eq: "fmt_int i = fmt_int j"
  have hd_sign: "hd (nat_str n) \<noteq> CHR ''-''" for n
    using nat_str_digits [of n] by (cases "nat_str n") (auto simp: list_all_def)
  show "i = j"
    using eq hd_sign [of "nat i"] hd_sign [of "nat j"]
    by (auto simp: fmt_int_def nat_str_inj split: if_splits) (metis list.sel(1))+
qed simp

end
