(* ===== verification/Kube_Types.thy ===== *)
theory Kube_Types
  imports Go_Strings
begin

text \<open>
  The Kubernetes API objects the program builds and reads, restricted to the fields that occur in
  its code. Each type comes with its Go zero value, and an object literal of the code is an update
  of the zero value, so that a field the literal leaves out has the value Go gives it.
\<close>

section \<open>Metadata\<close>

record ObjectMeta =
  Name :: string
  Namespace :: string
  Labels :: "string gomap"
  Finalizers :: "string list"
  DeletionTimestamp :: "nat option"
  OwnerReferences :: "string list"
  ResourceVersion :: string
  UID :: string

definition ObjectMeta_zero :: ObjectMeta where
  "ObjectMeta_zero = \<lparr>Name = [], Namespace = [], Labels = None, Finalizers = [],
     DeletionTimestamp = None, OwnerReferences = [], ResourceVersion = [], UID = []\<rparr>"

text \<open>\<^verbatim>\<open>GetDeletionTimestamp().IsZero()\<close>\<close>

definition not_deleted :: "ObjectMeta \<Rightarrow> bool" where
  "not_deleted m \<longleftrightarrow> DeletionTimestamp m = None"

lemma ObjectMeta_zero_simps [simp]:
  "Name ObjectMeta_zero = []" "Namespace ObjectMeta_zero = []" "Labels ObjectMeta_zero = None"
  "Finalizers ObjectMeta_zero = []" "DeletionTimestamp ObjectMeta_zero = None"
  "OwnerReferences ObjectMeta_zero = []" "ResourceVersion ObjectMeta_zero = []" "UID ObjectMeta_zero = []"
  by (simp_all add: ObjectMeta_zero_def)

section \<open>Pods\<close>

datatype VolumeSource =
    HostPath string string
  | PersistentVolumeClaimSource string
  | EmptyDir

record Volume =
  VolName :: string
  VolSource :: VolumeSource

record VolumeMount =
  MountName :: string
  MountPath :: string
  MountPropagation :: "string option"

record VolumeDevice =
  DeviceName :: string
  DevPath :: string

text \<open>An environment variable that is filled from a field of the pod: the API version and the path of the field.\<close>

record EnvVar =
  EnvName :: string
  FieldRef :: "string \<times> string"

record ContainerPort =
  PortName :: string
  PortNumber :: int
  PortProtocol :: string

text \<open>A probe by HTTP: path and named port.\<close>

record Probe =
  FailureThreshold :: int
  HttpPath :: string
  HttpPort :: string
  InitialDelaySeconds :: int
  TimeoutSeconds :: int
  PeriodSeconds :: int

text \<open>\<open>EnvFrom\<close> lists the names of config maps.\<close>

record Container =
  ContainerName :: string
  Image :: string
  ImagePullPolicy :: string
  Command :: "string list"
  Args :: "string list"
  Env :: "EnvVar list"
  EnvFrom :: "string list"
  Ports :: "ContainerPort list"
  LivenessProbe :: "Probe option"
  Privileged :: "bool option"
  VolumeMounts :: "VolumeMount list"
  VolumeDevices :: "VolumeDevice list"

definition Container_zero :: Container where
  "Container_zero = \<lparr>ContainerName = [], Image = [], ImagePullPolicy = [], Command = [],
     Args = [], Env = [], EnvFrom = [], Ports = [], LivenessProbe = None, Privileged = None, VolumeMounts = [], VolumeDevices = []\<rparr>"

text \<open>A required anti-affinity term: the pods it means, by label, key and operator and values, and the topology.\<close>

record LabelRequirement =
  ReqKey :: string
  ReqOperator :: string
  ReqValues :: "string list"

record PodAffinityTerm =
  MatchExpressions :: "LabelRequirement list"
  TopologyKey :: string

record PodSpec =
  Containers :: "Container list"
  ServiceAccountName :: string
  PriorityClassName :: string
  PodAntiAffinity :: "PodAffinityTerm list"
  NodeSelector :: "string gomap"
  NodeName :: string
  RestartPolicy :: string
  Volumes :: "Volume list"

definition PodSpec_zero :: PodSpec where
  "PodSpec_zero = \<lparr>Containers = [], ServiceAccountName = [], PriorityClassName = [], PodAntiAffinity = [], NodeSelector = None, NodeName = [], RestartPolicy = [], Volumes = []\<rparr>"

text \<open>The state of a container: the exit code once it has terminated.\<close>

record ContainerStatus =
  Terminated :: "int option"

record Pod =
  PodMeta :: ObjectMeta
  PodSpecOf :: PodSpec
  Phase :: string
  ContainerStatuses :: "ContainerStatus list"

definition Pod_zero :: Pod where
  "Pod_zero = \<lparr>PodMeta = ObjectMeta_zero, PodSpecOf = PodSpec_zero, Phase = [], ContainerStatuses = []\<rparr>"

lemma Pod_zero_simps [simp]:
  "PodMeta Pod_zero = ObjectMeta_zero" "PodSpecOf Pod_zero = PodSpec_zero"
  "Phase Pod_zero = []" "ContainerStatuses Pod_zero = []"
  by (simp_all add: Pod_zero_def)

definition PodRunning :: string where "PodRunning = ''Running''"

section \<open>Jobs\<close>

record Job =
  JobMeta :: ObjectMeta
  Completions :: "int option"
  TTLSecondsAfterFinished :: "int option"
  JobPodSpec :: PodSpec
  Succeeded :: int
  Failed :: int

definition Job_zero :: Job where
  "Job_zero = \<lparr>JobMeta = ObjectMeta_zero, Completions = None, TTLSecondsAfterFinished = None,
     JobPodSpec = PodSpec_zero, Succeeded = 0, Failed = 0\<rparr>"

section \<open>Volumes, storage classes, nodes\<close>

record PersistentVolumeClaim =
  PvcMeta :: ObjectMeta
  AccessModes :: "string list"
  StorageClassName :: "string option"
  VolumeMode :: "string option"
  Requests :: "int gomap"
  Limits :: "int gomap"
  VolumeName :: string

definition PersistentVolumeClaim_zero :: PersistentVolumeClaim where
  "PersistentVolumeClaim_zero = \<lparr>PvcMeta = ObjectMeta_zero, AccessModes = [], StorageClassName = None,
     VolumeMode = None, Requests = None, Limits = None, VolumeName = []\<rparr>"

lemma PersistentVolumeClaim_zero_simps [simp]:
  "PvcMeta PersistentVolumeClaim_zero = ObjectMeta_zero" "VolumeName PersistentVolumeClaim_zero = []"
  by (simp_all add: PersistentVolumeClaim_zero_def)

record PersistentVolume =
  PvMeta :: ObjectMeta

record StorageClass =
  ScMeta :: ObjectMeta

record NodeCondition =
  CondType :: string
  CondStatus :: string

record Node =
  NodeMeta :: ObjectMeta
  Conditions :: "NodeCondition list"

section \<open>Watches\<close>

text \<open>
  What a \<^verbatim>\<open>select\<close> over a watch channel and \<^verbatim>\<open>time.After\<close> can see: an event with an object of the
  watched type, an event with another object, or the timer. The signals up to the closing of the
  channel are a list. \<^verbatim>\<open>watch.Stop\<close> closes the channel, but the API leaves open whether events
  still arrive, so nothing is assumed about signals after a stop.
\<close>

datatype 'o watch_signal = WEvent 'o | WOther | WTimeout

end
