(* ===== verification/Environment.thy ===== *)
theory Environment
  imports Kube_Types
begin

text \<open>
  Everything the program calls that is not part of the repository, as parameters of the model.

  \<open>'x\<close> is the state of the world outside the process: the API server, the node's file system,
  mount table and devices. Each operation is a function from that state to a result and a new
  state, and a result carries its error as Go does. \<open>'x kube\<close> is the client-go clientset,
  \<open>'x host\<close> the operating system (processes, \<^verbatim>\<open>os\<close> file operations, \<^verbatim>\<open>mount-utils\<close>).
  Nothing is fixed about these functions here: theorems that need more than the code itself
  gives name what they rely on as hypotheses.

  The state of the process itself are the package variables of \<^verbatim>\<open>k8sutils\<close>, which memoise two
  environment variables. They stand beside the outside world in \<open>'x world\<close>.
\<close>

section \<open>The outside world\<close>

text \<open>
  client-go's \<^verbatim>\<open>Get\<close>, \<^verbatim>\<open>Create\<close> and \<^verbatim>\<open>Update\<close> return a non-nil object together with the error.
\<close>

record 'x kube =
  BuildConfigFromFlags :: "string \<Rightarrow> 'x \<Rightarrow> error option \<times> 'x"
  InClusterConfig :: "'x \<Rightarrow> error option \<times> 'x"
  NewForConfig :: "'x \<Rightarrow> error option \<times> 'x"
  PVCs_Get :: "string \<Rightarrow> string \<Rightarrow> 'x \<Rightarrow> (PersistentVolumeClaim \<times> error option) \<times> 'x"
  PVCs_Create :: "string \<Rightarrow> PersistentVolumeClaim \<Rightarrow> 'x \<Rightarrow> (PersistentVolumeClaim \<times> error option) \<times> 'x"
  PVCs_Update :: "string \<Rightarrow> PersistentVolumeClaim \<Rightarrow> 'x \<Rightarrow> (PersistentVolumeClaim \<times> error option) \<times> 'x"
  PVCs_Delete :: "string \<Rightarrow> string \<Rightarrow> 'x \<Rightarrow> error option \<times> 'x"
  PVs_Get :: "string \<Rightarrow> 'x \<Rightarrow> (PersistentVolume \<times> error option) \<times> 'x"
  SCs_Get :: "string \<Rightarrow> 'x \<Rightarrow> (StorageClass \<times> error option) \<times> 'x"
  Nodes_Get :: "string \<Rightarrow> 'x \<Rightarrow> (Node \<times> error option) \<times> 'x"
  Pods_Get :: "string \<Rightarrow> string \<Rightarrow> 'x \<Rightarrow> (Pod \<times> error option) \<times> 'x"
  Pods_Create :: "string \<Rightarrow> Pod \<Rightarrow> 'x \<Rightarrow> (Pod \<times> error option) \<times> 'x"
  Pods_Update :: "string \<Rightarrow> Pod \<Rightarrow> 'x \<Rightarrow> (Pod \<times> error option) \<times> 'x"
  Pods_Delete :: "string \<Rightarrow> string \<Rightarrow> 'x \<Rightarrow> error option \<times> 'x"
  Pods_List :: "string \<Rightarrow> string \<Rightarrow> string \<Rightarrow> 'x \<Rightarrow> (Pod list \<times> error option) \<times> 'x"
  Pods_Watch :: "string \<Rightarrow> ObjectMeta \<Rightarrow> 'x \<Rightarrow> (Pod watch_signal list \<times> error option) \<times> 'x"
  Pods_Logs :: "string \<Rightarrow> string \<Rightarrow> 'x \<Rightarrow> ((string \<times> error option) + error) \<times> 'x"
  Jobs_Create :: "string \<Rightarrow> Job \<Rightarrow> 'x \<Rightarrow> (Job \<times> error option) \<times> 'x"
  Jobs_Delete :: "string \<Rightarrow> string \<Rightarrow> 'x \<Rightarrow> error option \<times> 'x"
  Jobs_Watch :: "string \<Rightarrow> ObjectMeta \<Rightarrow> 'x \<Rightarrow> (Job watch_signal list \<times> error option) \<times> 'x"

text \<open>
  \<^verbatim>\<open>exec.Cmd.Run\<close> ends in an exit status with the captured standard output, or does not start
  the process (any error that is no \<^verbatim>\<open>*exec.ExitError\<close>).
\<close>

datatype proc_result = Exited string int | NotStarted error

record MountPoint =
  MpDevice :: string
  MpPath :: string
  MpType :: string
  MpOpts :: "string list"

record 'x host =
  RunShell :: "string \<Rightarrow> 'x \<Rightarrow> proc_result \<times> 'x"
  CmdOutput :: "string \<Rightarrow> string list \<Rightarrow> 'x \<Rightarrow> (string \<times> error option) \<times> 'x"
  OsStat :: "string \<Rightarrow> 'x \<Rightarrow> error option \<times> 'x"
  OsRemove :: "string \<Rightarrow> 'x \<Rightarrow> error option \<times> 'x"
  OsMkdir :: "string \<Rightarrow> nat \<Rightarrow> 'x \<Rightarrow> error option \<times> 'x"
  OsCreateFile :: "string \<Rightarrow> nat \<Rightarrow> 'x \<Rightarrow> error option \<times> 'x"
  IsLikelyNotMountPoint :: "string \<Rightarrow> 'x \<Rightarrow> (bool \<times> error option) \<times> 'x"
  IsMountPoint :: "string \<Rightarrow> 'x \<Rightarrow> (bool \<times> error option) \<times> 'x"
  MounterMount :: "string \<Rightarrow> string \<Rightarrow> string \<Rightarrow> string list \<Rightarrow> 'x \<Rightarrow> error option \<times> 'x"
  MounterUnmount :: "string \<Rightarrow> 'x \<Rightarrow> error option \<times> 'x"
  MounterList :: "'x \<Rightarrow> (MountPoint list \<times> error option) \<times> 'x"
  GetDeviceNameFromMount :: "string \<Rightarrow> 'x \<Rightarrow> ((string \<times> int) \<times> error option) \<times> 'x"

text \<open>
  \<open>RangeOrder\<close> is the order in which one run of \<^verbatim>\<open>for range\<close> visits the entries of a map that is
  a constant of the program; Go picks a new one each time.
\<close>

record 'x env =
  kube :: "'x kube"
  host :: "'x host"
  Getenv :: "string \<Rightarrow> string"
  RangeOrder :: "(string \<times> string) list \<Rightarrow> 'x \<Rightarrow> (string \<times> string) list \<times> 'x"

section \<open>The process\<close>

record 'x world =
  kubeletDir :: string
  protectedNamespace :: string
  outside :: 'x

text \<open>A call of an outside operation.\<close>

definition call :: "('x \<Rightarrow> 'a \<times> 'x) \<Rightarrow> ('x world, 'a) io" where
  "call f = (\<lambda>w. let (a, x) = f (outside w) in (Ret a, w\<lparr>outside := x\<rparr>))"

lemma call_apply: "f (outside w) = (a, x) \<Longrightarrow> call f w = (Ret a, w\<lparr>outside := x\<rparr>)"
  by (simp add: call_def)

lemma returns_call [returns_simps]:
  "returns (call f) w a w' \<longleftrightarrow> (\<exists>x. f (outside w) = (a, x) \<and> w' = w\<lparr>outside := x\<rparr>)"
  by (auto simp: returns_def call_def split: prod.splits)

lemma bnd_call: "bnd (call f) g w = (case f (outside w) of (a, x) \<Rightarrow> g a (w\<lparr>outside := x\<rparr>))"
  by (simp add: bnd_def call_def split: prod.split)

lemma no_panic_call [no_panic_intros]: "no_panic (call f)"
  by (simp add: no_panic_def returns_def call_def split: prod.split)

text \<open>The package variables are never reset once they are set.\<close>

definition globals_kept :: "'x world \<Rightarrow> 'x world \<Rightarrow> bool" where
  "globals_kept w w' \<longleftrightarrow>
     (kubeletDir w \<noteq> [] \<longrightarrow> kubeletDir w' = kubeletDir w) \<and>
     (protectedNamespace w \<noteq> [] \<longrightarrow> protectedNamespace w' = protectedNamespace w)"

lemma globals_kept_reflp [simp]: "reflp globals_kept"
  by (simp add: globals_kept_def reflp_def)

lemma globals_kept_transp [simp]: "transp globals_kept"
  by (auto simp: globals_kept_def transp_def)

lemma keeps_globals_call [keeps_intros]: "keeps globals_kept (call f)"
  by (simp add: keeps_def call_def globals_kept_def split: prod.split)

text \<open>Code that does not touch the outside world.\<close>

definition same_outside :: "'x world \<Rightarrow> 'x world \<Rightarrow> bool" where
  "same_outside w w' \<longleftrightarrow> outside w' = outside w"

lemma same_outside_reflp [simp]: "reflp same_outside"
  by (simp add: same_outside_def reflp_def)

lemma same_outside_transp [simp]: "transp same_outside"
  by (auto simp: same_outside_def transp_def)

lemmas keeps_globals = keeps_deref [OF globals_kept_reflp] keeps_ret [OF globals_kept_reflp] keeps_panic [OF globals_kept_reflp]
  keeps_of_outcome [OF globals_kept_reflp] keeps_bnd [OF globals_kept_transp] keeps_if keeps_case_prod
  keeps_case_option keeps_case_list keeps_case_sum keeps_Let keeps_globals_call

text \<open>
  The calls that only read: building a client and the \<^verbatim>\<open>Get\<close> of every resource. \<open>reads_quiet env obs\<close>
  says that they leave the observation \<open>obs\<close> of the outside world as it is.
\<close>

definition same_obs :: "('x \<Rightarrow> 'o) \<Rightarrow> 'x world \<Rightarrow> 'x world \<Rightarrow> bool" where
  "same_obs obs w w' \<longleftrightarrow> obs (outside w') = obs (outside w)"

definition reads_quiet :: "'x env \<Rightarrow> ('x \<Rightarrow> 'o) \<Rightarrow> bool" where
  "reads_quiet env obs \<longleftrightarrow>
     (\<forall>x. obs (snd (InClusterConfig (kube env) x)) = obs x \<and> obs (snd (NewForConfig (kube env) x)) = obs x) \<and>
     (\<forall>s x. obs (snd (BuildConfigFromFlags (kube env) s x)) = obs x \<and> obs (snd (PVs_Get (kube env) s x)) = obs x \<and>
        obs (snd (SCs_Get (kube env) s x)) = obs x \<and> obs (snd (Nodes_Get (kube env) s x)) = obs x) \<and>
     (\<forall>ns s x. obs (snd (PVCs_Get (kube env) ns s x)) = obs x \<and> obs (snd (Pods_Get (kube env) ns s x)) = obs x)"

lemma same_obs_reflp [simp]: "reflp (same_obs obs)"
  by (simp add: same_obs_def reflp_def)

lemma same_obs_transp [simp]: "transp (same_obs obs)"
  by (auto simp: same_obs_def transp_def)

lemma same_obs_call: "(\<And>x. obs (snd (f x)) = obs x) \<Longrightarrow> keeps (same_obs obs) (call f)"
  by (simp add: keeps_def call_def same_obs_def split: prod.split) (metis snd_conv)

lemma reads_quiet_calls:
  assumes "reads_quiet env obs"
  shows "keeps (same_obs obs) (call (InClusterConfig (kube env)))" "keeps (same_obs obs) (call (NewForConfig (kube env)))"
    "keeps (same_obs obs) (call (BuildConfigFromFlags (kube env) s))" "keeps (same_obs obs) (call (PVs_Get (kube env) s))"
    "keeps (same_obs obs) (call (SCs_Get (kube env) s))" "keeps (same_obs obs) (call (Nodes_Get (kube env) s))"
    "keeps (same_obs obs) (call (PVCs_Get (kube env) ns s))" "keeps (same_obs obs) (call (Pods_Get (kube env) ns s))"
  using assms by (auto simp: reads_quiet_def intro!: same_obs_call)

lemmas keeps_obs = keeps_deref [OF same_obs_reflp] keeps_ret [OF same_obs_reflp] keeps_panic [OF same_obs_reflp]
  keeps_of_outcome [OF same_obs_reflp] keeps_bnd [OF same_obs_transp] keeps_if keeps_case_prod
  keeps_case_option keeps_case_list keeps_case_sum keeps_Let

end
