(* ===== verification/Utils.thy ===== *)
theory Utils
  imports Environment
begin

text \<open>
  \<^verbatim>\<open>pkg/utils/utils.go\<close>: running local commands, inspecting and formatting block devices, and
  the mount helper of the node server.

  The lemmas give the result of each function on every branch: a command that exits is never an
  error whatever its status, a device that carries another file system is never formatted, and
  a path that is already a mount point is not mounted over.
\<close>

record Output =
  StdOut :: string
  ExitCode :: int

definition Output_String :: "Output \<Rightarrow> string" where
  "Output_String o' = Join [''result: '' @ StdOut o', ''exit_code: '' @ fmt_int (ExitCode o')] ''\<newline>''"

definition ExecLocalCommand :: "'x env \<Rightarrow> string \<Rightarrow> ('x world, Output option \<times> error option) io" where
  "ExecLocalCommand env cmd =
     bnd (call (RunShell (host env) cmd)) (\<lambda>r.
     case r of
       NotStarted e \<Rightarrow>
         ret (None, Some (errorf (''failed to run command '' @ fmt_q cmd @ '': '' @ ErrorText e)))
     | Exited out code \<Rightarrow> ret (Some \<lparr>StdOut = out, ExitCode = code\<rparr>, None))"

definition lsblk_args :: "string \<Rightarrow> string \<Rightarrow> string list" where
  "lsblk_args path column = [path, ''--bytes'', ''--nodeps'', ''--noheadings'', ''--output'', column]"

definition GetDeviceSizeFromPath :: "'x env \<Rightarrow> string \<Rightarrow> ('x world, int \<times> error option) io" where
  "GetDeviceSizeFromPath env path =
     bnd (call (CmdOutput (host env) ''lsblk'' (lsblk_args path ''SIZE''))) (\<lambda>(out, err).
     if err = None then ret (ParseInt64 (TrimSpace out)) else ret (0, err))"

definition GetDeviceFsType :: "'x env \<Rightarrow> string \<Rightarrow> ('x world, string \<times> error option) io" where
  "GetDeviceFsType env path =
     bnd (call (CmdOutput (host env) ''lsblk'' (lsblk_args path ''FSTYPE''))) (\<lambda>(out, err).
     if err = None then ret (TrimSpace out, None) else ret ([], err))"

definition CreateFs :: "'x env \<Rightarrow> string \<Rightarrow> string \<Rightarrow> string list \<Rightarrow> ('x world, error option) io" where
  "CreateFs env path fsType params =
     bnd (call (CmdOutput (host env) (''mkfs.'' @ fsType)
            (if length params \<noteq> 0 then path # params else [path]))) (\<lambda>(out, err).
     ret err)"

definition PrepareFs :: "'x env \<Rightarrow> string \<Rightarrow> string \<Rightarrow> ('x world, error option) io" where
  "PrepareFs env path fsType =
     (if length fsType = 0 then ret (Some (errorf (''no file system specified for device '' @ fmt_q path)))
      else
        bnd (GetDeviceFsType env path) (\<lambda>(existingFsType, err).
        if err \<noteq> None then ret err
        else if length existingFsType = 0 then CreateFs env path fsType []
        else if existingFsType = fsType then ret None
        else ret (Some (errorf (''file system '' @ fmt_q existingFsType
               @ '' found, requested file system '' @ fmt_q fsType)))))"

text \<open>
  \<^verbatim>\<open>Mount\<close>: \<^verbatim>\<open>0644\<close> and \<^verbatim>\<open>0755\<close> are octal modes. The file opened for a block target is closed on
  return, which changes nothing the program observes.
\<close>

definition Mount :: "'x env \<Rightarrow> string \<Rightarrow> string \<Rightarrow> string \<Rightarrow> string list \<Rightarrow> bool \<Rightarrow> ('x world, error option) io" where
  "Mount env sourcePath targetPath fsType mountOptions rawBlock =
     bnd (call (IsLikelyNotMountPoint (host env) targetPath)) (\<lambda>(notMountPoint, err).
     if err_that (\<lambda>e. \<not> IsNotExist e) err then
       ret (Some (errorf (''cannot determine if '' @ fmt_q targetPath @ '' is a valid mount point: '' @ err_text err)))
     else if \<not> notMountPoint then ret None
     else
       bnd (if rawBlock then
              bnd (call (OsCreateFile (host env) targetPath 420)) (\<lambda>err.
              if err_that (\<lambda>e. \<not> IsExist e) err
              then ret (Some (errorf (''create target device file: '' @ err_text err)))
              else ret None)
            else
              bnd (call (OsMkdir (host env) targetPath 493)) (\<lambda>err.
              if err_that (\<lambda>e. \<not> IsExist e) err
              then ret (Some (errorf (''cannot create target directory: '' @ err_text err)))
              else ret None)) (\<lambda>failed.
       if failed \<noteq> None then ret failed
       else call (MounterMount (host env) sourcePath targetPath fsType mountOptions)))"

section \<open>Behaviour\<close>

text \<open>A command either ran, whatever its exit status, or there is an error: never both, never neither.\<close>

lemma returns_case_proc_result [returns_simps]:
  "returns (case r of Exited out c \<Rightarrow> f out c | NotStarted e \<Rightarrow> g e) w b w' \<longleftrightarrow>
     (\<exists>out c. r = Exited out c \<and> returns (f out c) w b w') \<or>
     (\<exists>e. r = NotStarted e \<and> returns (g e) w b w')"
  by (cases r) simp_all

lemma ExecLocalCommand_result:
  "returns (ExecLocalCommand env cmd) w (out, err) w' \<Longrightarrow> (out = None) = (err \<noteq> None)"
  by (auto simp: ExecLocalCommand_def returns_simps)

lemma ExecLocalCommand_run:
  "RunShell (host env) cmd (outside w) = (Exited out code, x) \<Longrightarrow>
     ExecLocalCommand env cmd w = (Ret (Some \<lparr>StdOut = out, ExitCode = code\<rparr>, None), w\<lparr>outside := x\<rparr>)"
  by (simp add: ExecLocalCommand_def bnd_call)

lemma keeps_case_proc_result [keeps_intros]:
  "(\<And>out c. keeps R (f out c)) \<Longrightarrow> (\<And>e. keeps R (g e)) \<Longrightarrow>
     keeps R (case r of Exited out c \<Rightarrow> f out c | NotStarted e \<Rightarrow> g e)"
  by (cases r) simp_all

lemma ExecLocalCommand_globals: "keeps globals_kept (ExecLocalCommand env cmd)"
  unfolding ExecLocalCommand_def by (intro keeps_globals keeps_case_proc_result)

lemma GetDeviceFsType_globals: "keeps globals_kept (GetDeviceFsType env path)"
  unfolding GetDeviceFsType_def by (intro keeps_globals)

lemma PrepareFs_globals: "keeps globals_kept (PrepareFs env path fsType)"
  unfolding PrepareFs_def CreateFs_def by (intro keeps_globals GetDeviceFsType_globals)

lemma Mount_globals: "keeps globals_kept (Mount env src tgt fsType opts raw)"
  unfolding Mount_def by (intro keeps_globals)

text \<open>
  A device on which \<^verbatim>\<open>lsblk\<close> reports a file system is never formatted: beside that query nothing
  runs, and the result is success exactly when the file system is the requested one.
\<close>

lemma PrepareFs_existing:
  assumes "CmdOutput (host env) ''lsblk'' (lsblk_args path ''FSTYPE'') (outside w) = ((out, None), x)"
    and "TrimSpace out \<noteq> []" and "fsType \<noteq> []"
  shows "\<exists>err. PrepareFs env path fsType w = (Ret err, w\<lparr>outside := x\<rparr>) \<and>
      (err = None) = (TrimSpace out = fsType)"
  using assms by (simp add: PrepareFs_def GetDeviceFsType_def bnd_call bnd_assoc if_apply)

text \<open>A blank device is formatted, with the requested type.\<close>

lemma PrepareFs_blank:
  assumes "CmdOutput (host env) ''lsblk'' (lsblk_args path ''FSTYPE'') (outside w) = ((out, None), x)"
    and "TrimSpace out = []" and "fsType \<noteq> []"
  shows "PrepareFs env path fsType w = CreateFs env path fsType [] (w\<lparr>outside := x\<rparr>)"
  using assms by (simp add: PrepareFs_def GetDeviceFsType_def bnd_call bnd_assoc)

text \<open>A target that already is a mount point is left alone.\<close>

lemma Mount_mounted:
  assumes "IsLikelyNotMountPoint (host env) tgt (outside w) = ((False, None), x)"
  shows "Mount env src tgt fsType opts raw w = (Ret None, w\<lparr>outside := x\<rparr>)"
  using assms by (simp add: Mount_def bnd_call)

end
