(* ===== verification/Webhook_Server.thy ===== *)
theory Webhook_Server
  imports Go_Strings
begin

text \<open>
  \<^verbatim>\<open>pkg/webhook/main.go\<close>: the admission webhook that protects the resources of the driver. The
  handler decodes an admission review, looks at the labels of the object that is to be changed
  or deleted, and refuses the request if the protection label is among them.

  Decoding JSON is a parameter: \<open>decode\<close> for the review in the request body and \<open>unmarshal\<close> for
  the raw object inside it. Writing the response is its value: an HTTP error or the review sent
  back. Logging is left out.
\<close>

definition Label :: string where "Label = ''csi.open-cas.com/protected''"

definition RejectMessage :: string where
  "RejectMessage = ''objects with label '' @ [CHR 0x27] @ Label @ [CHR 0x27] @ '' are managed by Open-CAS CSI driver''"

record Metadata =
  MdName :: string
  MdNamespace :: string
  MdLabels :: "string gomap"

record Object =
  Kind :: string
  ObjMetadata :: Metadata

record AdmissionRequest =
  ReqUID :: string
  OldObjectRaw :: string

record AdmissionResponse =
  RespUID :: string
  Allowed :: bool
  ResultMessage :: "string option"

record AdmissionReview =
  Request :: "AdmissionRequest option"
  Response :: "AdmissionResponse option"

datatype http_reply = HttpError string nat | HttpJson AdmissionReview

definition StatusBadRequest :: nat where "StatusBadRequest = 400"

definition Validate ::
  "(string \<Rightarrow> error + AdmissionReview) \<Rightarrow> (string \<Rightarrow> error + Object) \<Rightarrow> string \<Rightarrow> http_reply" where
  "Validate decode unmarshal body =
     (case decode body of
        Inl err \<Rightarrow> HttpError (ErrorText err) StatusBadRequest
      | Inr ar \<Rightarrow>
          (case Request ar of
             None \<Rightarrow> HttpError ''empty request body'' StatusBadRequest
           | Some req \<Rightarrow>
               (case unmarshal (OldObjectRaw req) of
                  Inl err \<Rightarrow> HttpError (ErrorText err) StatusBadRequest
                | Inr object \<Rightarrow>
                    if MdName (ObjMetadata object) = []
                    then HttpError ''invalid request body'' StatusBadRequest
                    else
                      (let resp = \<lparr>RespUID = ReqUID req, Allowed = True, ResultMessage = None\<rparr>;
                           resp = (if mget (MdLabels (ObjMetadata object)) Label \<noteq> None
                                   then resp\<lparr>Allowed := False, ResultMessage := Some RejectMessage\<rparr>
                                   else resp)
                       in HttpJson (ar\<lparr>Response := Some resp\<rparr>)))))"

text \<open>Whether the webhook lets a change of an object with these labels pass.\<close>

definition admits :: "string gomap \<Rightarrow> bool" where
  "admits ls \<longleftrightarrow> mget ls Label = None"

lemma Validate_reply:
  assumes "decode body = Inr ar" and "Request ar = Some req"
    and "unmarshal (OldObjectRaw req) = Inr object" and "MdName (ObjMetadata object) \<noteq> []"
  shows "Validate decode unmarshal body = HttpJson (ar\<lparr>Response := Some
     \<lparr>RespUID = ReqUID req,
      Allowed = admits (MdLabels (ObjMetadata object)),
      ResultMessage = (if admits (MdLabels (ObjMetadata object)) then None else Some RejectMessage)\<rparr>\<rparr>)"
  using assms by (simp add: Validate_def admits_def Let_def)

lemma Validate_error_iff:
  "(\<exists>msg. Validate decode unmarshal body = HttpError msg 400) \<longleftrightarrow>
     (case decode body of Inl _ \<Rightarrow> True
      | Inr ar \<Rightarrow> (case Request ar of None \<Rightarrow> True
          | Some req \<Rightarrow> (case unmarshal (OldObjectRaw req) of Inl _ \<Rightarrow> True
              | Inr object \<Rightarrow> MdName (ObjMetadata object) = [])))"
  by (auto simp: Validate_def Let_def StatusBadRequest_def split: sum.splits option.splits)

end
