(* ===== verification/Store_Laws.thy ===== *)
theory Store_Laws
  imports Environment
begin

text \<open>
  What the driver relies on when it keeps objects in the API server, and the contract the
  driver's own helpers offer to its request handlers on top of it.

  \<open>store_laws\<close> states the documented behaviour of the four operations of one resource, with
  respect to an observation \<open>obs\<close> of the objects the server holds: a read changes nothing and
  returns the stored object or an empty one with an error, an error whose text says "not found"
  means the object is absent, a successful create adds an object that carries what was sent, a
  successful update keeps the object with the labels sent, or removes it when it was terminating and was
  only held by what the update took off, a successful delete finds an object and removes it or marks it as
  terminating, and no operation touches another object. A failed create, update or delete may or may not have taken effect on its own object.
  The laws describe one client acting at a time; concurrent writers are outside of them.
\<close>

definition NotFoundText :: "error \<Rightarrow> bool" where
  "NotFoundText e \<longleftrightarrow> Contains (ErrorText e) ''not found''"

text \<open>\<^verbatim>\<open>err != nil && !strings.Contains(err.Error(), "not found")\<close>\<close>

definition real_error :: "error option \<Rightarrow> bool" where
  "real_error err \<longleftrightarrow> err_that (\<lambda>e. \<not> NotFoundText e) err"

lemma real_error_simps [simp]: "\<not> real_error None" "real_error (Some e) \<longleftrightarrow> \<not> NotFoundText e"
  by (simp_all add: real_error_def)

type_synonym key = "string \<times> string"

definition frame :: "('x \<Rightarrow> key \<Rightarrow> 'o option) \<Rightarrow> key \<Rightarrow> 'x \<Rightarrow> 'x \<Rightarrow> bool" where
  "frame obs k x x' \<longleftrightarrow> (\<forall>k'. k' \<noteq> k \<longrightarrow> obs x' k' = obs x k')"

definition get_law ::
  "('o \<Rightarrow> ObjectMeta) \<Rightarrow> (string \<Rightarrow> string \<Rightarrow> 'x \<Rightarrow> ('o \<times> error option) \<times> 'x)
     \<Rightarrow> ('x \<Rightarrow> key \<Rightarrow> 'o option) \<Rightarrow> bool" where
  "get_law meta get obs \<longleftrightarrow>
     (\<forall>ns n x obj err x'. get ns n x = ((obj, err), x') \<longrightarrow>
        obs x' = obs x \<and>
        (err = None \<longrightarrow> n \<noteq> [] \<and> obs x (ns, n) = Some obj \<and> Name (meta obj) = n \<and> Namespace (meta obj) = ns) \<and>
        (err \<noteq> None \<longrightarrow> Name (meta obj) = []) \<and>
        (err_that NotFoundText err \<longrightarrow> obs x (ns, n) = None))"

definition create_law ::
  "('o \<Rightarrow> ObjectMeta) \<Rightarrow> ('o \<Rightarrow> 'o \<Rightarrow> bool) \<Rightarrow> (string \<Rightarrow> 'o \<Rightarrow> 'x \<Rightarrow> ('o \<times> error option) \<times> 'x)
     \<Rightarrow> ('x \<Rightarrow> key \<Rightarrow> 'o option) \<Rightarrow> bool" where
  "create_law meta stored create obs \<longleftrightarrow>
     (\<forall>ns obj x obj' err x'. create ns obj x = ((obj', err), x') \<longrightarrow>
        frame obs (ns, Name (meta obj)) x x' \<and>
        (err = None \<longrightarrow> obs x (ns, Name (meta obj)) = None \<and>
           obs x' (ns, Name (meta obj)) = Some obj' \<and> stored obj obj'))"

definition terminating :: "('o \<Rightarrow> ObjectMeta) \<Rightarrow> 'o option \<Rightarrow> bool" where
  "terminating meta z \<longleftrightarrow> (\<exists>obj. z = Some obj \<and> DeletionTimestamp (meta obj) \<noteq> None)"

definition update_law ::
  "('o \<Rightarrow> ObjectMeta) \<Rightarrow> (string \<Rightarrow> 'o \<Rightarrow> 'x \<Rightarrow> ('o \<times> error option) \<times> 'x)
     \<Rightarrow> ('x \<Rightarrow> key \<Rightarrow> 'o option) \<Rightarrow> bool" where
  "update_law meta update obs \<longleftrightarrow>
     (\<forall>ns obj x obj' err x'. update ns obj x = ((obj', err), x') \<longrightarrow>
        frame obs (ns, Name (meta obj)) x x' \<and>
        (err = None \<longrightarrow> Labels (meta obj') = Labels (meta obj) \<and>
           (obs x' (ns, Name (meta obj)) = Some obj' \<or>
            obs x' (ns, Name (meta obj)) = None \<and> terminating meta (obs x (ns, Name (meta obj))))) \<and>
        (err_that NotFoundText err \<longrightarrow> obs x' (ns, Name (meta obj)) = None))"

definition delete_law ::
  "('o \<Rightarrow> ObjectMeta) \<Rightarrow> (string \<Rightarrow> string \<Rightarrow> 'x \<Rightarrow> error option \<times> 'x)
     \<Rightarrow> ('x \<Rightarrow> key \<Rightarrow> 'o option) \<Rightarrow> bool" where
  "delete_law meta del obs \<longleftrightarrow>
     (\<forall>ns n x err x'. del ns n x = (err, x') \<longrightarrow>
        frame obs (ns, n) x x' \<and>
        (err = None \<longrightarrow> obs x (ns, n) \<noteq> None \<and> (obs x' (ns, n) = None \<or> terminating meta (obs x' (ns, n)))) \<and>
        (err_that NotFoundText err \<longrightarrow> obs x' (ns, n) = None))"

definition store_laws ::
  "('o \<Rightarrow> ObjectMeta) \<Rightarrow> ('o \<Rightarrow> 'o \<Rightarrow> bool)
     \<Rightarrow> (string \<Rightarrow> string \<Rightarrow> 'x \<Rightarrow> ('o \<times> error option) \<times> 'x)
     \<Rightarrow> (string \<Rightarrow> 'o \<Rightarrow> 'x \<Rightarrow> ('o \<times> error option) \<times> 'x)
     \<Rightarrow> (string \<Rightarrow> 'o \<Rightarrow> 'x \<Rightarrow> ('o \<times> error option) \<times> 'x)
     \<Rightarrow> (string \<Rightarrow> string \<Rightarrow> 'x \<Rightarrow> error option \<times> 'x)
     \<Rightarrow> ('x \<Rightarrow> key \<Rightarrow> 'o option) \<Rightarrow> bool" where
  "store_laws meta stored get create update del obs \<longleftrightarrow>
     get_law meta get obs \<and> create_law meta stored create obs \<and>
     update_law meta update obs \<and> delete_law meta del obs"

text \<open>The object is held by the server and not on its way out.\<close>

definition live :: "('o \<Rightarrow> ObjectMeta) \<Rightarrow> 'o option \<Rightarrow> bool" where
  "live meta z \<longleftrightarrow> (\<exists>obj. z = Some obj \<and> DeletionTimestamp (meta obj) = None)"

lemma live_simps [simp]: "\<not> live meta None" "live meta (Some obj) \<longleftrightarrow> DeletionTimestamp (meta obj) = None"
  by (simp_all add: live_def)

lemma terminating_not_live: "terminating meta z \<Longrightarrow> \<not> live meta z"
  by (auto simp: terminating_def live_def)

section \<open>The contract of a protected object store\<close>

text \<open>
  What the request handlers need of a pair of helpers that look an object up and remove it:
  looking up changes nothing and reports an absent object by \<^verbatim>\<open>nil\<close> without a real error, removing
  without a real error leaves no live object under the name, and other names are not affected.
  \<open>lawful\<close> is what the helpers themselves rely on.
\<close>

locale protected_store =
  fixes lawful :: bool
    and lookup :: "string \<Rightarrow> ('w, 'o option \<times> error option) io"
    and remove :: "'o \<Rightarrow> ('w, error option) io"
    and obj_name :: "'o \<Rightarrow> string"
    and present :: "'w \<Rightarrow> string \<Rightarrow> bool"
  assumes lookup_total: "\<exists>obj err w'. returns (lookup n) w (obj, err) w'"
    and lookup_keeps: "lawful \<Longrightarrow> returns (lookup n) w r w' \<Longrightarrow> present w' = present w"
    and lookup_absent: "lawful \<Longrightarrow> returns (lookup n) w (None, err) w' \<Longrightarrow> \<not> real_error err \<Longrightarrow> \<not> present w n"
    and lookup_found: "lawful \<Longrightarrow> returns (lookup n) w (Some obj, err) w' \<Longrightarrow> obj_name obj = n \<and> err = None"
    and remove_total: "\<exists>err w'. returns (remove obj) w err w'"
    and remove_gone: "lawful \<Longrightarrow> returns (lookup n) w0 (Some obj, None) w \<Longrightarrow>
        returns (remove obj) w err w' \<Longrightarrow> \<not> real_error err \<Longrightarrow> \<not> present w' n"
    and remove_frame: "lawful \<Longrightarrow> returns (lookup n) w0 (Some obj, None) w \<Longrightarrow>
        returns (remove obj) w err w' \<Longrightarrow> m \<noteq> n \<Longrightarrow> present w' m = present w m"
begin

text \<open>
  The shape both \<^verbatim>\<open>DeleteVolume\<close> and \<^verbatim>\<open>ControllerUnpublishVolume\<close> have: look up, remove if found,
  with the two failures mapped to the handler's own status.
\<close>

definition release ::
  "(error option \<Rightarrow> 's) \<Rightarrow> ('o \<Rightarrow> error option \<Rightarrow> 's) \<Rightarrow> 'r \<Rightarrow> string \<Rightarrow> ('w, 's + 'r) io" where
  "release cannot_check cannot_delete ok n =
     bnd (lookup n) (\<lambda>(obj, err).
     if real_error err then ret (Inl (cannot_check err))
     else
       case obj of
         None \<Rightarrow> ret (Inr ok)
       | Some obj \<Rightarrow>
           bnd (remove obj) (\<lambda>err.
           if real_error err then ret (Inl (cannot_delete obj err)) else ret (Inr ok)))"

lemma release_cases:
  assumes "returns (release cc cd ok n) w r w'"
  obtains (failed_check) obj err where "returns (lookup n) w (obj, err) w'" "real_error err" "r = Inl (cc err)"
  | (absent) err where "returns (lookup n) w (None, err) w'" "\<not> real_error err" "r = Inr ok"
  | (removed) obj err w1 err' where "returns (lookup n) w (Some obj, err) w1" "\<not> real_error err"
      "returns (remove obj) w1 err' w'" "\<not> real_error err'" "r = Inr ok"
  | (failed_remove) obj err w1 err' where "returns (lookup n) w (Some obj, err) w1" "\<not> real_error err"
      "returns (remove obj) w1 err' w'" "real_error err'" "r = Inl (cd obj err')"
  using assms that by (auto simp: release_def returns_simps)

lemma release_gone:
  assumes lawful "returns (release cc cd ok n) w (Inr y) w'"
  shows "\<not> present w' n"
  using assms(2)
proof (cases rule: release_cases)
  case absent
  then show ?thesis using \<open>lawful\<close> lookup_absent lookup_keeps by metis
next
  case removed
  then show ?thesis using \<open>lawful\<close> lookup_found remove_gone by metis
qed auto

lemma release_frame:
  assumes lawful "returns (release cc cd ok n) w r w'" "m \<noteq> n"
  shows "present w' m = present w m"
  using assms(2)
proof (cases rule: release_cases)
  case (removed obj err w1 err')
  then have "present w' m = present w1 m"
    using assms(1,3) lookup_found remove_frame by metis
  then show ?thesis using removed \<open>lawful\<close> lookup_keeps by metis
next
  case (failed_remove obj err w1 err')
  then have "present w' m = present w1 m"
    using assms(1,3) lookup_found remove_frame by metis
  then show ?thesis using failed_remove \<open>lawful\<close> lookup_keeps by metis
qed (use \<open>lawful\<close> lookup_keeps in metis)+

text \<open>Releasing what is not there succeeds, provided the lookup itself works.\<close>

lemma release_idempotent:
  assumes lawful "\<not> present w n" "returns (release cc cd ok n) w r w'"
    "\<And>obj err w1. returns (lookup n) w (obj, err) w1 \<Longrightarrow> obj = None \<and> \<not> real_error err"
  shows "r = Inr ok \<and> present w' = present w"
  using assms(3)
proof (cases rule: release_cases)
  case absent
  then show ?thesis using \<open>lawful\<close> lookup_keeps by metis
qed (use assms(4) in blast)+

lemma release_total: "\<exists>r w'. returns (release cc cd ok n) w r w'"
proof -
  obtain obj err w1 where run: "returns (lookup n) w (obj, err) w1" using lookup_total by blast
  show ?thesis
  proof (cases obj)
    case None
    then show ?thesis using run by (auto simp: release_def returns_def bnd_Ret)
  next
    case (Some z)
    obtain err2 w2 where "returns (remove z) w1 err2 w2" using remove_total by blast
    then show ?thesis using run Some by (auto simp: release_def returns_def bnd_Ret)
  qed
qed

end

section \<open>Removing a protected object\<close>

text \<open>
  The common shape of \<^verbatim>\<open>DeleteSubproviderPvc\<close> and \<^verbatim>\<open>DeleteIntermediatePod\<close>: read the object, take
  the label \<open>l\<close> off it if it is there, then delete it.
\<close>

definition strip_and_delete ::
  "('o \<Rightarrow> ObjectMeta) \<Rightarrow> (ObjectMeta \<Rightarrow> 'o \<Rightarrow> 'o)
     \<Rightarrow> (string \<Rightarrow> string \<Rightarrow> 'x \<Rightarrow> ('o \<times> error option) \<times> 'x)
     \<Rightarrow> (string \<Rightarrow> 'o \<Rightarrow> 'x \<Rightarrow> ('o \<times> error option) \<times> 'x)
     \<Rightarrow> (string \<Rightarrow> string \<Rightarrow> 'x \<Rightarrow> error option \<times> 'x)
     \<Rightarrow> string \<Rightarrow> string \<Rightarrow> string \<Rightarrow> ('x world, error option) io" where
  "strip_and_delete meta set_meta get update del l ns name =
     bnd (call (get ns name)) (\<lambda>(obj, err).
     if err \<noteq> None then
       (if Contains (err_text err) ''not found'' then ret None else ret err)
     else
       bnd (if mget (Labels (meta obj)) l \<noteq> None then
              bnd (call (update ns (set_meta ((meta obj)\<lparr>Labels := mdel (Labels (meta obj)) l\<rparr>) obj)))
                (\<lambda>(_, err). ret err)
            else ret None) (\<lambda>err.
       if err \<noteq> None then ret err
       else call (del ns name)))"

lemma frame_refl [simp]: "frame obs k x x"
  by (simp add: frame_def)

lemma frame_trans: "frame obs k x y \<Longrightarrow> frame obs k y z \<Longrightarrow> frame obs k x z"
  by (simp add: frame_def)

lemma get_lawD:
  assumes "store_laws meta stored get create update del obs" and "get ns n x = ((obj, err), x')"
  shows "obs x' = obs x"
    and "err = None \<Longrightarrow> n \<noteq> [] \<and> obs x (ns, n) = Some obj \<and> Name (meta obj) = n \<and> Namespace (meta obj) = ns"
    and "err \<noteq> None \<Longrightarrow> Name (meta obj) = []"
    and "err_that NotFoundText err \<Longrightarrow> obs x (ns, n) = None"
  using assms unfolding store_laws_def get_law_def by blast+

lemma create_lawD:
  assumes "store_laws meta stored get create update del obs" and "create ns obj x = ((obj', err), x')"
  shows "frame obs (ns, Name (meta obj)) x x'"
    and "err = None \<Longrightarrow> obs x (ns, Name (meta obj)) = None \<and>
      obs x' (ns, Name (meta obj)) = Some obj' \<and> stored obj obj'"
  using assms unfolding store_laws_def create_law_def by blast+

lemma update_lawD:
  assumes "store_laws meta stored get create update del obs" and "update ns obj x = ((obj', err), x')"
  shows "frame obs (ns, Name (meta obj)) x x'"
    and "err = None \<Longrightarrow> Labels (meta obj') = Labels (meta obj) \<and>
      (obs x' (ns, Name (meta obj)) = Some obj' \<or>
       obs x' (ns, Name (meta obj)) = None \<and> terminating meta (obs x (ns, Name (meta obj))))"
    and "err_that NotFoundText err \<Longrightarrow> obs x' (ns, Name (meta obj)) = None"
  using assms unfolding store_laws_def update_law_def by blast+

lemma delete_lawD:
  assumes "store_laws meta stored get create update del obs" and "del ns n x = (err, x')"
  shows "frame obs (ns, n) x x'"
    and "\<not> real_error err \<Longrightarrow> \<not> live meta (obs x' (ns, n))"
    and "err = None \<Longrightarrow> obs x (ns, n) \<noteq> None"
proof -
  have law: "frame obs (ns, n) x x' \<and>
      (err = None \<longrightarrow> obs x (ns, n) \<noteq> None \<and> (obs x' (ns, n) = None \<or> terminating meta (obs x' (ns, n)))) \<and>
      (err_that NotFoundText err \<longrightarrow> obs x' (ns, n) = None)"
    using assms unfolding store_laws_def delete_law_def by blast
  show "frame obs (ns, n) x x'" "err = None \<Longrightarrow> obs x (ns, n) \<noteq> None" using law by blast+
  assume "\<not> real_error err"
  then show "\<not> live meta (obs x' (ns, n))" using law
    by (cases err) (auto dest: terminating_not_live)
qed

lemma strip_and_delete_cases:
  assumes "returns (strip_and_delete meta set_meta get update del l ns n) w err w'"
  obtains (absent) obj e x where "get ns n (outside w) = ((obj, Some e), x)" "NotFoundText e" "err = None"
      "w' = w\<lparr>outside := x\<rparr>"
  | (unknown) obj e x where "get ns n (outside w) = ((obj, Some e), x)" "\<not> NotFoundText e" "err = Some e"
      "w' = w\<lparr>outside := x\<rparr>"
  | (plain) obj x x2 where "get ns n (outside w) = ((obj, None), x)" "mget (Labels (meta obj)) l = None"
      "del ns n x = (err, x2)" "w' = w\<lparr>outside := x2\<rparr>"
  | (stuck) obj x obj2 e x2 where "get ns n (outside w) = ((obj, None), x)" "mget (Labels (meta obj)) l \<noteq> None"
      "update ns (set_meta ((meta obj)\<lparr>Labels := mdel (Labels (meta obj)) l\<rparr>) obj) x = ((obj2, Some e), x2)"
      "err = Some e" "w' = w\<lparr>outside := x2\<rparr>"
  | (stripped) obj x obj2 x2 x3 where "get ns n (outside w) = ((obj, None), x)" "mget (Labels (meta obj)) l \<noteq> None"
      "update ns (set_meta ((meta obj)\<lparr>Labels := mdel (Labels (meta obj)) l\<rparr>) obj) x = ((obj2, None), x2)"
      "del ns n x2 = (err, x3)" "w' = w\<lparr>outside := x3\<rparr>"
  using assms that by (auto simp: strip_and_delete_def returns_simps NotFoundText_def)

lemma strip_and_delete_spec:
  assumes laws: "store_laws meta stored get create update del obs"
    and set_meta: "\<And>m obj. meta (set_meta m obj) = m"
    and run: "returns (strip_and_delete meta set_meta get update del l ns n) w err w'"
  shows "frame obs (ns, n) (outside w) (outside w')"
    and "\<not> real_error err \<Longrightarrow> \<not> live meta (obs (outside w') (ns, n))"
    and "kubeletDir w' = kubeletDir w \<and> protectedNamespace w' = protectedNamespace w"
proof -
  have "frame obs (ns, n) (outside w) (outside w') \<and>
      (\<not> real_error err \<longrightarrow> \<not> live meta (obs (outside w') (ns, n))) \<and>
      kubeletDir w' = kubeletDir w \<and> protectedNamespace w' = protectedNamespace w"
    using run
  proof (cases rule: strip_and_delete_cases)
    case (absent obj e x)
    then show ?thesis using get_lawD [OF laws absent(1)] by (simp add: frame_def)
  next
    case (unknown obj e x)
    then show ?thesis using get_lawD(1) [OF laws unknown(1)] by (simp add: frame_def)
  next
    case (plain obj x x2)
    then show ?thesis using get_lawD(1) [OF laws plain(1)] delete_lawD [OF laws plain(3)]
      by (simp add: frame_def)
  next
    case (stuck obj x obj2 e x2)
    then show ?thesis
      using get_lawD(1,2) [OF laws stuck(1)] update_lawD [OF laws stuck(3)] set_meta
      by (auto simp: frame_def)
  next
    case (stripped obj x obj2 x2 x3)
    then show ?thesis
      using get_lawD(1,2) [OF laws stripped(1)] update_lawD(1) [OF laws stripped(3)] set_meta
        delete_lawD [OF laws stripped(4)]
      by (auto simp: frame_def)
  qed
  then show "frame obs (ns, n) (outside w) (outside w')"
    and "\<not> real_error err \<Longrightarrow> \<not> live meta (obs (outside w') (ns, n))"
    and "kubeletDir w' = kubeletDir w \<and> protectedNamespace w' = protectedNamespace w" by auto
qed

lemma strip_and_delete_no_panic: "no_panic (strip_and_delete meta set_meta get update del l ns n)"
  unfolding strip_and_delete_def by (intro no_panic_intros)

end
