(* ===== verification/K8s_Utils.thy ===== *)
theory K8s_Utils
  imports Utils Webhook_Server Store_Laws
begin

text \<open>
  \<^verbatim>\<open>pkg/k8sutils/k8sutils.go\<close>: the process configuration taken from the environment, and the
  operations on the claims, pods and jobs the driver keeps in its protected namespace.

  A function with a receiver \<^verbatim>\<open>*K8sUtils\<close> uses only the clientset in it, which is the parameter
  \<open>kube env\<close>; the receiver itself carries nothing else the code reads. Pointers that may be
  \<^verbatim>\<open>nil\<close> are options.
\<close>

section \<open>Configuration\<close>

definition ProtectedNamespaceEnv :: string where "ProtectedNamespaceEnv = ''PROTECTED_NAMESPACE''"
definition OperatorNamespaceEnv :: string where "OperatorNamespaceEnv = ''OPERATOR_NAMESPACE''"
definition PodNameEnv :: string where "PodNameEnv = ''DRIVER_POD_NAME''"
definition KubeletDirEnv :: string where "KubeletDirEnv = ''KUBELET_DIR''"
definition CasadmImageEnv :: string where "CasadmImageEnv = ''CASADM_IMAGE''"
definition WebhookImageEnv :: string where "WebhookImageEnv = ''WEBHOOK_IMAGE''"
definition defaultKubeletDir :: string where "defaultKubeletDir = ''/var/lib/kubelet''"
definition defaultProtectedNamespace :: string where "defaultProtectedNamespace = ''opencas-csi-protected''"
definition OperatingCacheLabelKey :: string where "OperatingCacheLabelKey = ''csi.open-cas.com/operating-cache-id''"

record PvcConfig =
  ScName :: string
  Params :: "string gomap"
  PvcName :: string
  RequiredBytes :: int
  LimitBytes :: int

record PodConfig =
  PodName :: string
  Pvc :: "PersistentVolumeClaim option"
  CasadmImage :: string
  NodeId :: string
  PodNamespace :: string

definition ConfiguredProtectedNamespace :: "'x env \<Rightarrow> ('x world, string) io" where
  "ConfiguredProtectedNamespace env = (\<lambda>w.
     let w' = (if protectedNamespace w = [] then
                 (let v = Getenv env ProtectedNamespaceEnv in
                  w\<lparr>protectedNamespace := (if v = [] then defaultProtectedNamespace else v)\<rparr>)
               else w)
     in (Ret (protectedNamespace w'), w'))"

definition ConfiguredKubeletDir :: "'x env \<Rightarrow> ('x world, string) io" where
  "ConfiguredKubeletDir env = (\<lambda>w.
     let w' = (if kubeletDir w = [] then
                 (let v = Getenv env KubeletDirEnv in
                  w\<lparr>kubeletDir := (if v = [] then defaultKubeletDir else v)\<rparr>)
               else w)
     in (Ret (kubeletDir w'), w'))"

text \<open>\<^verbatim>\<open>NewK8sUtils\<close>: only its error matters to the callers.\<close>

definition NewK8sUtils :: "'x env \<Rightarrow> ('x world, error option) io" where
  "NewK8sUtils env =
     bnd (if Getenv env ''KUBECONFIG'' \<noteq> []
          then call (BuildConfigFromFlags (kube env) (Getenv env ''KUBECONFIG''))
          else call (InClusterConfig (kube env))) (\<lambda>err.
     if err \<noteq> None then ret (Some (errorf (''failed to create K8S REST config: '' @ err_text err)))
     else
       bnd (ConfiguredKubeletDir env) (\<lambda>_.
       bnd (ConfiguredProtectedNamespace env) (\<lambda>_.
       bnd (call (NewForConfig (kube env))) (\<lambda>err.
       if err \<noteq> None then ret (Some (errorf (''failed to create K8S client: '' @ err_text err)))
       else ret None))))"

text \<open>A read of the package variable \<^verbatim>\<open>protectedNamespace\<close>.\<close>

definition the_protectedNamespace :: "('x world, string) io" where
  "the_protectedNamespace = (\<lambda>w. (Ret (protectedNamespace w), w))"

section \<open>Lookups\<close>

definition GetPodByLabel_try ::
  "'x env \<Rightarrow> string \<Rightarrow> string \<Rightarrow> ('x world, Pod list \<times> error option) io" where
  "GetPodByLabel_try env node label = call (Pods_List (kube env) [] (''spec.nodeName='' @ node) label)"

text \<open>
  Up to \<open>n\<close> further attempts while the last one failed. The loop of \<^verbatim>\<open>GetPodByLabel\<close> makes five
  in all.
\<close>

fun GetPodByLabel_loop ::
  "nat \<Rightarrow> 'x env \<Rightarrow> string \<Rightarrow> string \<Rightarrow> Pod list \<times> error option
     \<Rightarrow> ('x world, Pod list \<times> error option) io" where
  "GetPodByLabel_loop 0 env node label prev = ret prev"
| "GetPodByLabel_loop (Suc n) env node label prev =
     bnd (GetPodByLabel_try env node label) (\<lambda>(pods, err).
     if err = None then ret (pods, err)
     else GetPodByLabel_loop n env node label (pods, err))"

definition GetPodByLabel :: "'x env \<Rightarrow> string \<Rightarrow> string \<Rightarrow> ('x world, Pod option \<times> error option) io" where
  "GetPodByLabel env node label =
     bnd (GetPodByLabel_loop 5 env node label ([], None)) (\<lambda>(pods, err).
     if err \<noteq> None then ret (None, err)
     else case pods of
         [] \<Rightarrow> ret (None, Some (errorf (''pod labeled '' @ fmt_q label @ '' not found in node '' @ fmt_q node)))
       | p # _ \<Rightarrow> ret (Some p, None))"

definition GetSubproviderPvcByName ::
  "'x env \<Rightarrow> string \<Rightarrow> ('x world, PersistentVolumeClaim option \<times> error option) io" where
  "GetSubproviderPvcByName env name =
     bnd the_protectedNamespace (\<lambda>ns.
     bnd (call (PVCs_Get (kube env) ns name)) (\<lambda>(pvc, err).
     ret (if Name (PvcMeta pvc) = [] then None else Some pvc, err)))"

definition GetPvByName :: "'x env \<Rightarrow> string \<Rightarrow> ('x world, PersistentVolume option \<times> error option) io" where
  "GetPvByName env name =
     bnd (call (PVs_Get (kube env) name)) (\<lambda>(pv, err).
     ret (if Name (PvMeta pv) = [] then None else Some pv, err))"

definition GetScByName :: "'x env \<Rightarrow> string \<Rightarrow> ('x world, StorageClass option \<times> error option) io" where
  "GetScByName env name =
     bnd (call (SCs_Get (kube env) name)) (\<lambda>(sc, err).
     ret (if Name (ScMeta sc) = [] then None else Some sc, err))"

definition GetIntermediatePodByName ::
  "'x env \<Rightarrow> string \<Rightarrow> string \<Rightarrow> ('x world, Pod option \<times> error option) io" where
  "GetIntermediatePodByName env name ns =
     bnd (call (Pods_Get (kube env) ns name)) (\<lambda>(pod, err).
     ret (if Name (PodMeta pod) = [] then None else Some pod, err))"

section \<open>Jobs\<close>

text \<open>
  The wait loop of \<^verbatim>\<open>ExecCommandJob\<close> handles every signal of the watch until its channel is
  closed: the value of \<^verbatim>\<open>err\<close> after it, and whether it has asked the watch to stop. That a watch is a finite list of
  signals is the documented behaviour of the API server, which ends every watch after its own timeout, and of \<^verbatim>\<open>Stop\<close>,
  which closes the channel; the code has no limit of its own while events keep arriving. The error it
  sets on a timeout is overwritten by the next statement (\<^verbatim>\<open>pods, err := ...\<close> assigns the same
  variable), so \<open>timedOut\<close> below is computed and not used.
  The deferred deletion of the job runs on every return after the job was created.
\<close>

fun job_wait :: "string \<Rightarrow> error option \<times> bool \<Rightarrow> Job watch_signal list \<Rightarrow> error option \<times> bool" where
  "job_wait msg (err, stopped) [] = (err, stopped)"
| "job_wait msg (err, stopped) (WEvent job # signals) =
     job_wait msg (err, stopped \<or> 0 < Succeeded job + Failed job) signals"
| "job_wait msg (err, stopped) (WOther # signals) = job_wait msg (err, stopped) signals"
| "job_wait msg (err, stopped) (WTimeout # signals) = job_wait msg (Some (errorf msg), True) signals"

definition ExecCommandJob_collect ::
  "'x env \<Rightarrow> Job \<Rightarrow> Job \<Rightarrow> ('x world, Output option \<times> error option) io" where
  "ExecCommandJob_collect env job commandJob =
     bnd (call (Jobs_Watch (kube env) (Namespace (JobMeta job)) (JobMeta commandJob))) (\<lambda>(signals, err).
     if err \<noteq> None then ret (None, err)
     else
       let timedOut = fst (job_wait (''timeout waiting for command job completion: '' @ [CHR 0x27]
              @ Namespace (JobMeta job) @ ''/'' @ Name (JobMeta job) @ [CHR 0x27]) (None, False) signals) in
       bnd (call (Pods_List (kube env) (Namespace (JobMeta job)) []
              (''batch.kubernetes.io/controller-uid='' @ UID (JobMeta commandJob)))) (\<lambda>(pods, err).
       if err \<noteq> None then ret (None, err)
       else case pods of
         [] \<Rightarrow> ret (None, Some (errorf (''pod for command job '' @ [CHR 0x27] @ Namespace (JobMeta job)
                @ ''/'' @ Name (JobMeta job) @ [CHR 0x27] @ '' not found'')))
       | pod # _ \<Rightarrow>
           (case ContainerStatuses pod of
              [] \<Rightarrow> ret (None, Some (errorf (''cannot read pod status for command job '' @ [CHR 0x27]
                     @ Namespace (JobMeta job) @ ''/'' @ Name (JobMeta job) @ [CHR 0x27])))
            | st # _ \<Rightarrow>
                (let code = (case Terminated st of None \<Rightarrow> -1 | Some c \<Rightarrow> c) in
                 bnd (call (Pods_Logs (kube env) (Namespace (PodMeta pod)) (Name (PodMeta pod)))) (\<lambda>logs.
                 case logs of
                   Inr e \<Rightarrow> ret (Some \<lparr>StdOut = [], ExitCode = code\<rparr>, Some e)
                 | Inl (out, err) \<Rightarrow> ret (Some \<lparr>StdOut = out, ExitCode = code\<rparr>, err))))))"

definition ExecCommandJob :: "'x env \<Rightarrow> Job \<Rightarrow> ('x world, Output option \<times> error option) io" where
  "ExecCommandJob env job =
     bnd (call (Jobs_Create (kube env) (Namespace (JobMeta job)) job)) (\<lambda>(commandJob, err).
     if err \<noteq> None then ret (None, err)
     else
       bnd (ExecCommandJob_collect env job commandJob) (\<lambda>result.
       bnd (call (Jobs_Delete (kube env) (Namespace (JobMeta job)) (Name (JobMeta commandJob)))) (\<lambda>_.
       ret result)))"

section \<open>Claims\<close>

definition getSubProviderPvcSpec :: "PvcConfig \<Rightarrow> PersistentVolumeClaim" where
  "getSubProviderPvcSpec config =
     PersistentVolumeClaim_zero
       \<lparr>AccessModes := [''ReadWriteOnce''],
        StorageClassName := Some (ScName config),
        VolumeMode := Some ''Block'',
        Requests := (if 0 < RequiredBytes config then Some [(''storage'', RequiredBytes config)] else None),
        Limits := (if 0 < LimitBytes config then Some [(''storage'', LimitBytes config)] else None)\<rparr>"

definition subproviderPvc :: "PvcConfig \<Rightarrow> string \<Rightarrow> PersistentVolumeClaim" where
  "subproviderPvc config ns =
     (getSubProviderPvcSpec config)
       \<lparr>PvcMeta := ObjectMeta_zero\<lparr>Name := PvcName config, Namespace := ns, Labels := Some [(Label, [])]\<rparr>\<rparr>"

definition CreateSubproviderPvc ::
  "'x env \<Rightarrow> PvcConfig \<Rightarrow> ('x world, PersistentVolumeClaim option \<times> error option) io" where
  "CreateSubproviderPvc env config =
     bnd the_protectedNamespace (\<lambda>ns.
     bnd (call (PVCs_Create (kube env) ns (subproviderPvc config ns))) (\<lambda>(pvc, err).
     ret (Some pvc, err)))"

definition DeleteSubproviderPvc :: "'x env \<Rightarrow> string \<Rightarrow> ('x world, error option) io" where
  "DeleteSubproviderPvc env name =
     bnd the_protectedNamespace (\<lambda>ns.
     bnd (call (PVCs_Get (kube env) ns name)) (\<lambda>(pvc, err).
     if err \<noteq> None then
       (if Contains (err_text err) ''not found'' then ret None else ret err)
     else
       bnd (if mget (Labels (PvcMeta pvc)) Label \<noteq> None then
              bnd (call (PVCs_Update (kube env) ns
                     (pvc\<lparr>PvcMeta := (PvcMeta pvc)\<lparr>Labels := mdel (Labels (PvcMeta pvc)) Label\<rparr>\<rparr>)))
                (\<lambda>(_, err). ret err)
            else ret None) (\<lambda>err.
       if err \<noteq> None then ret err
       else call (PVCs_Delete (kube env) ns name))))"

section \<open>Intermediate pods\<close>

definition getIntermediatePodSpec :: "PodConfig \<Rightarrow> PodSpec" where
  "getIntermediatePodSpec config =
     (let casadm = Container_zero
            \<lparr>ContainerName := ''casadm'', Image := ''alpine'', ImagePullPolicy := ''IfNotPresent'',
             Command := [''sleep'', ''infinity''], Privileged := Some True\<rparr>;
          podSpec = PodSpec_zero
            \<lparr>Containers := [casadm],
             NodeSelector := Some [(''kubernetes.io/hostname'', NodeId config)]\<rparr>
      in case Pvc config of
           None \<Rightarrow> podSpec
         | Some pvc \<Rightarrow> podSpec
             \<lparr>Containers := [casadm\<lparr>VolumeDevices := [\<lparr>DeviceName = ''backend'', DevPath = ''/dev/xvda''\<rparr>]\<rparr>],
              Volumes := [\<lparr>VolName = ''backend'',
                 VolSource = PersistentVolumeClaimSource (Name (PvcMeta pvc))\<rparr>]\<rparr>)"

definition intermediatePod :: "PodConfig \<Rightarrow> Pod" where
  "intermediatePod config =
     Pod_zero
       \<lparr>PodMeta := ObjectMeta_zero
          \<lparr>Name := PodName config, Namespace := PodNamespace config, Labels := Some [(Label, [])]\<rparr>,
        PodSpecOf := getIntermediatePodSpec config\<rparr>"

text \<open>
  The wait loop: the last pod status seen, and the error a timeout sets. The stop it asks for
  when the pod runs closes the channel, which ends the list of signals; those already under way are still handled.
\<close>

fun pod_wait :: "string \<Rightarrow> string \<times> error option \<Rightarrow> Pod watch_signal list \<Rightarrow> string \<times> error option" where
  "pod_wait msg (phase, err) [] = (phase, err)"
| "pod_wait msg (phase, err) (WEvent pod # signals) = pod_wait msg (Phase pod, err) signals"
| "pod_wait msg (phase, err) (WOther # signals) = pod_wait msg (phase, err) signals"
| "pod_wait msg (phase, err) (WTimeout # signals) = pod_wait msg (phase, Some (errorf msg)) signals"

definition CreateIntermediatePod ::
  "'x env \<Rightarrow> PodConfig \<Rightarrow> ('x world, Pod option \<times> error option) io" where
  "CreateIntermediatePod env config =
     bnd (call (Pods_Create (kube env) (PodNamespace config) (intermediatePod config))) (\<lambda>(pod, err).
     if err \<noteq> None then ret (None, err)
     else
       bnd (call (Pods_Watch (kube env) (PodNamespace config) (PodMeta pod))) (\<lambda>(signals, err).
       if err \<noteq> None then ret (Some pod, err)
       else
         (let (phase, err) = pod_wait (''timeout waiting for intermediate Pod: '' @ [CHR 0x27]
                @ PodNamespace config @ ''/'' @ PodName config @ [CHR 0x27]) (Phase pod, None) signals in
          if phase \<noteq> PodRunning then
            bnd (call (Pods_Delete (kube env) (PodNamespace config) (PodName config))) (\<lambda>_.
            ret (Some pod, err))
          else ret (Some pod, None))))"

definition DeleteIntermediatePod :: "'x env \<Rightarrow> string \<Rightarrow> string \<Rightarrow> ('x world, error option) io" where
  "DeleteIntermediatePod env name ns =
     bnd (call (Pods_Get (kube env) ns name)) (\<lambda>(pod, err).
     if err \<noteq> None then
       (if Contains (err_text err) ''not found'' then ret None else ret err)
     else
       bnd (if mget (Labels (PodMeta pod)) Label \<noteq> None then
              bnd (call (Pods_Update (kube env) ns
                     (pod\<lparr>PodMeta := (PodMeta pod)\<lparr>Labels := mdel (Labels (PodMeta pod)) Label\<rparr>\<rparr>)))
                (\<lambda>(_, err). ret err)
            else ret None) (\<lambda>err.
       if err \<noteq> None then ret err
       else call (Pods_Delete (kube env) ns name)))"

section \<open>Configuration: memoised, never empty\<close>

text \<open>What the two package variables hold once they are set.\<close>

definition configured_namespace :: "'x env \<Rightarrow> 'x world \<Rightarrow> string" where
  "configured_namespace env w =
     (if protectedNamespace w \<noteq> [] then protectedNamespace w
      else if Getenv env ProtectedNamespaceEnv \<noteq> [] then Getenv env ProtectedNamespaceEnv
      else defaultProtectedNamespace)"

definition configured_kubelet_dir :: "'x env \<Rightarrow> 'x world \<Rightarrow> string" where
  "configured_kubelet_dir env w =
     (if kubeletDir w \<noteq> [] then kubeletDir w
      else if Getenv env KubeletDirEnv \<noteq> [] then Getenv env KubeletDirEnv
      else defaultKubeletDir)"

lemma configured_nonempty [simp]:
  "configured_namespace env w \<noteq> []" "configured_kubelet_dir env w \<noteq> []"
  by (simp_all add: configured_namespace_def configured_kubelet_dir_def defaultProtectedNamespace_def
      defaultKubeletDir_def)

lemma ConfiguredProtectedNamespace_run:
  "ConfiguredProtectedNamespace env w =
     (Ret (configured_namespace env w), w\<lparr>protectedNamespace := configured_namespace env w\<rparr>)"
  by (simp add: ConfiguredProtectedNamespace_def configured_namespace_def Let_def)

lemma ConfiguredKubeletDir_run:
  "ConfiguredKubeletDir env w =
     (Ret (configured_kubelet_dir env w), w\<lparr>kubeletDir := configured_kubelet_dir env w\<rparr>)"
  by (simp add: ConfiguredKubeletDir_def configured_kubelet_dir_def Let_def)

lemma returns_ConfiguredProtectedNamespace [returns_simps]:
  "returns (ConfiguredProtectedNamespace env) w ns w' \<longleftrightarrow>
     ns = configured_namespace env w \<and> w' = w\<lparr>protectedNamespace := configured_namespace env w\<rparr>"
  by (auto simp: returns_def ConfiguredProtectedNamespace_run)

lemma returns_ConfiguredKubeletDir [returns_simps]:
  "returns (ConfiguredKubeletDir env) w d w' \<longleftrightarrow>
     d = configured_kubelet_dir env w \<and> w' = w\<lparr>kubeletDir := configured_kubelet_dir env w\<rparr>"
  by (auto simp: returns_def ConfiguredKubeletDir_run)

lemma returns_the_protectedNamespace [returns_simps]:
  "returns the_protectedNamespace w ns w' \<longleftrightarrow> ns = protectedNamespace w \<and> w' = w"
  by (auto simp: returns_def the_protectedNamespace_def)

lemma configured_frame [simp]:
  "configured_namespace env (w\<lparr>outside := x\<rparr>) = configured_namespace env w"
  "configured_namespace env (w\<lparr>kubeletDir := d\<rparr>) = configured_namespace env w"
  "configured_kubelet_dir env (w\<lparr>outside := x\<rparr>) = configured_kubelet_dir env w"
  "configured_kubelet_dir env (w\<lparr>protectedNamespace := d\<rparr>) = configured_kubelet_dir env w"
  by (simp_all add: configured_namespace_def configured_kubelet_dir_def)

lemma configured_set:
  "protectedNamespace w \<noteq> [] \<Longrightarrow> configured_namespace env w = protectedNamespace w"
  "kubeletDir w \<noteq> [] \<Longrightarrow> configured_kubelet_dir env w = kubeletDir w"
  by (simp_all add: configured_namespace_def configured_kubelet_dir_def)

lemma no_panic_config [no_panic_intros]:
  "no_panic (ConfiguredProtectedNamespace env)" "no_panic (ConfiguredKubeletDir env)"
  "no_panic the_protectedNamespace"
  by (simp_all add: no_panic_def returns_simps)

lemma keeps_globals_config [keeps_intros]:
  "keeps globals_kept (ConfiguredProtectedNamespace env)" "keeps globals_kept (ConfiguredKubeletDir env)"
  "keeps globals_kept the_protectedNamespace"
  by (simp_all add: keeps_def globals_kept_def ConfiguredProtectedNamespace_run ConfiguredKubeletDir_run
      configured_namespace_def configured_kubelet_dir_def the_protectedNamespace_def)

lemma NewK8sUtils_no_panic [no_panic_intros]: "no_panic (NewK8sUtils env)"
  unfolding NewK8sUtils_def by (intro no_panic_intros)

lemma NewK8sUtils_globals [keeps_intros]: "keeps globals_kept (NewK8sUtils env)"
  unfolding NewK8sUtils_def by (intro keeps_globals keeps_globals_config)

lemma keeps_obs_config:
  "keeps (same_obs obs) (ConfiguredProtectedNamespace env)" "keeps (same_obs obs) (ConfiguredKubeletDir env)"
  "keeps (same_obs obs) the_protectedNamespace"
  by (simp_all add: keeps_def same_obs_def ConfiguredProtectedNamespace_run ConfiguredKubeletDir_run
      the_protectedNamespace_def)

text \<open>Setting up a client and the lookups do not change what is observed of the cluster.\<close>

lemma lookups_quiet:
  assumes "reads_quiet env obs"
  shows "keeps (same_obs obs) (NewK8sUtils env)" "keeps (same_obs obs) (GetSubproviderPvcByName env n)"
    "keeps (same_obs obs) (GetPvByName env n)" "keeps (same_obs obs) (GetScByName env n)"
    "keeps (same_obs obs) (GetIntermediatePodByName env n ns)"
  unfolding NewK8sUtils_def GetSubproviderPvcByName_def GetPvByName_def GetScByName_def
    GetIntermediatePodByName_def
  by (intro keeps_obs keeps_obs_config reads_quiet_calls [OF assms])+

text \<open>They do not touch the package variables either.\<close>

lemma lookups_process:
  "returns (GetSubproviderPvcByName env n) w a w' \<Longrightarrow> protectedNamespace w' = protectedNamespace w \<and> kubeletDir w' = kubeletDir w"
  "returns (GetPvByName env n) w b w' \<Longrightarrow> protectedNamespace w' = protectedNamespace w \<and> kubeletDir w' = kubeletDir w"
  "returns (GetScByName env n) w c w' \<Longrightarrow> protectedNamespace w' = protectedNamespace w \<and> kubeletDir w' = kubeletDir w"
  "returns (GetIntermediatePodByName env n ns) w d w' \<Longrightarrow> protectedNamespace w' = protectedNamespace w \<and> kubeletDir w' = kubeletDir w"
  by (auto simp: GetSubproviderPvcByName_def GetPvByName_def GetScByName_def GetIntermediatePodByName_def returns_simps)

text \<open>
  After a successful \<^verbatim>\<open>NewK8sUtils\<close> the package variables hold the configured values: the helpers
  that read \<^verbatim>\<open>protectedNamespace\<close> directly use the configured namespace.
\<close>

lemma NewK8sUtils_configured:
  "returns (NewK8sUtils env) w None w' \<Longrightarrow>
     protectedNamespace w' = configured_namespace env w \<and> kubeletDir w' = configured_kubelet_dir env w"
  by (auto simp: NewK8sUtils_def returns_simps)

section \<open>Lookups never panic, and attempts are bounded\<close>

lemma lookups_no_panic [no_panic_intros]:
  "no_panic (GetSubproviderPvcByName env n)" "no_panic (GetPvByName env n)" "no_panic (GetScByName env n)"
  "no_panic (GetIntermediatePodByName env n ns)" "no_panic (CreateSubproviderPvc env c)"
  unfolding GetSubproviderPvcByName_def GetPvByName_def GetScByName_def GetIntermediatePodByName_def
    CreateSubproviderPvc_def
  by (intro no_panic_intros)+

lemma GetPodByLabel_no_panic: "no_panic (GetPodByLabel env node label)"
proof -
  have "no_panic (GetPodByLabel_loop k env node label last')" for k last'
    by (induction k arbitrary: last')
      (auto simp: GetPodByLabel_try_def intro!: no_panic_intros)
  then show ?thesis unfolding GetPodByLabel_def by (intro no_panic_intros) auto
qed

lemma ExecCommandJob_no_panic [no_panic_intros]: "no_panic (ExecCommandJob env job)"
  unfolding ExecCommandJob_def ExecCommandJob_collect_def by (intro no_panic_intros)

lemma CreateIntermediatePod_no_panic [no_panic_intros]: "no_panic (CreateIntermediatePod env config)"
  unfolding CreateIntermediatePod_def by (intro no_panic_intros)

text \<open>Without an error there is an output; an output without an error holds the log of the job's pod.\<close>

lemma ExecCommandJob_output:
  "returns (ExecCommandJob env job) w (out, None) w' \<Longrightarrow> \<exists>o'. out = Some o'"
  by (auto simp: ExecCommandJob_def ExecCommandJob_collect_def returns_simps split: prod.splits)

section \<open>The protected claims and pods\<close>

definition pvc_stored :: "PersistentVolumeClaim \<Rightarrow> PersistentVolumeClaim \<Rightarrow> bool" where
  "pvc_stored sent got \<longleftrightarrow>
     Name (PvcMeta got) = Name (PvcMeta sent) \<and> Labels (PvcMeta got) = Labels (PvcMeta sent) \<and>
     DeletionTimestamp (PvcMeta got) = None \<and>
     AccessModes got = AccessModes sent \<and> StorageClassName got = StorageClassName sent \<and>
     VolumeMode got = VolumeMode sent \<and> Requests got = Requests sent \<and> Limits got = Limits sent"

definition pod_stored :: "Pod \<Rightarrow> Pod \<Rightarrow> bool" where
  "pod_stored sent got \<longleftrightarrow>
     Name (PodMeta got) = Name (PodMeta sent) \<and>
     (Namespace (PodMeta sent) \<noteq> [] \<longrightarrow> Namespace (PodMeta got) = Namespace (PodMeta sent)) \<and>
     Labels (PodMeta got) = Labels (PodMeta sent) \<and> DeletionTimestamp (PodMeta got) = None"

definition pvc_laws :: "'x env \<Rightarrow> ('x \<Rightarrow> key \<Rightarrow> PersistentVolumeClaim option) \<Rightarrow> bool" where
  "pvc_laws env obs \<longleftrightarrow> store_laws PvcMeta pvc_stored (PVCs_Get (kube env)) (PVCs_Create (kube env))
     (PVCs_Update (kube env)) (PVCs_Delete (kube env)) obs"

definition pod_laws :: "'x env \<Rightarrow> ('x \<Rightarrow> key \<Rightarrow> Pod option) \<Rightarrow> bool" where
  "pod_laws env obs \<longleftrightarrow> store_laws PodMeta pod_stored (Pods_Get (kube env)) (Pods_Create (kube env))
     (Pods_Update (kube env)) (Pods_Delete (kube env)) obs"

definition claim_present :: "('x \<Rightarrow> key \<Rightarrow> PersistentVolumeClaim option) \<Rightarrow> 'x world \<Rightarrow> string \<Rightarrow> bool" where
  "claim_present obs w n \<longleftrightarrow> live PvcMeta (obs (outside w) (protectedNamespace w, n))"

definition pod_present :: "('x \<Rightarrow> key \<Rightarrow> Pod option) \<Rightarrow> string \<Rightarrow> 'x world \<Rightarrow> string \<Rightarrow> bool" where
  "pod_present obs ns w n \<longleftrightarrow> live PodMeta (obs (outside w) (ns, n))"

lemma DeleteSubproviderPvc_strip:
  "DeleteSubproviderPvc env n = bnd the_protectedNamespace (\<lambda>ns.
     strip_and_delete PvcMeta (\<lambda>m pvc. pvc\<lparr>PvcMeta := m\<rparr>) (PVCs_Get (kube env)) (PVCs_Update (kube env))
       (PVCs_Delete (kube env)) Label ns n)"
  by (simp add: DeleteSubproviderPvc_def strip_and_delete_def)

lemma DeleteIntermediatePod_strip:
  "DeleteIntermediatePod env n ns =
     strip_and_delete PodMeta (\<lambda>m pod. pod\<lparr>PodMeta := m\<rparr>) (Pods_Get (kube env)) (Pods_Update (kube env))
       (Pods_Delete (kube env)) Label ns n"
  by (simp add: DeleteIntermediatePod_def strip_and_delete_def)

lemma deletes_no_panic [no_panic_intros]:
  "no_panic (DeleteSubproviderPvc env n)" "no_panic (DeleteIntermediatePod env n ns)"
  unfolding DeleteSubproviderPvc_strip DeleteIntermediatePod_strip
  by (intro no_panic_intros strip_and_delete_no_panic)+

lemma DeleteSubproviderPvc_spec:
  assumes "pvc_laws env obs" and "returns (DeleteSubproviderPvc env n) w err w'"
  shows "frame obs (protectedNamespace w, n) (outside w) (outside w')"
    and "\<not> real_error err \<Longrightarrow> \<not> claim_present obs w' n"
    and "kubeletDir w' = kubeletDir w \<and> protectedNamespace w' = protectedNamespace w"
  using assms strip_and_delete_spec [of PvcMeta pvc_stored "PVCs_Get (kube env)" "PVCs_Create (kube env)"
      "PVCs_Update (kube env)" "PVCs_Delete (kube env)" obs "\<lambda>m pvc. pvc\<lparr>PvcMeta := m\<rparr>"
      Label "protectedNamespace w" n w err w']
  by (auto simp: DeleteSubproviderPvc_strip returns_simps pvc_laws_def claim_present_def)

lemma DeleteIntermediatePod_spec:
  assumes "pod_laws env obs" and "returns (DeleteIntermediatePod env n ns) w err w'"
  shows "frame obs (ns, n) (outside w) (outside w')"
    and "\<not> real_error err \<Longrightarrow> \<not> pod_present obs ns w' n"
    and "kubeletDir w' = kubeletDir w \<and> protectedNamespace w' = protectedNamespace w"
  using assms strip_and_delete_spec [of PodMeta pod_stored "Pods_Get (kube env)" "Pods_Create (kube env)"
      "Pods_Update (kube env)" "Pods_Delete (kube env)" obs "\<lambda>m pod. pod\<lparr>PodMeta := m\<rparr>" Label ns n w err w']
  by (auto simp: DeleteIntermediatePod_strip pod_laws_def pod_present_def)

lemma GetSubproviderPvcByName_spec:
  assumes "pvc_laws env obs" and "returns (GetSubproviderPvcByName env n) w (pvc, err) w'"
  shows "obs (outside w') = obs (outside w) \<and> kubeletDir w' = kubeletDir w \<and> protectedNamespace w' = protectedNamespace w"
    and "pvc = Some p \<Longrightarrow> err = None \<and> Name (PvcMeta p) = n \<and> obs (outside w) (protectedNamespace w, n) = Some p"
    and "pvc = None \<Longrightarrow> \<not> real_error err \<Longrightarrow> obs (outside w) (protectedNamespace w, n) = None"
    and "err = None \<Longrightarrow> pvc \<noteq> None"
proof -
  from assms(2) obtain p0 x where get: "PVCs_Get (kube env) (protectedNamespace w) n (outside w) = ((p0, err), x)"
    and w': "w' = w\<lparr>outside := x\<rparr>" and pvc: "pvc = (if Name (PvcMeta p0) = [] then None else Some p0)"
    by (auto simp: GetSubproviderPvcByName_def returns_simps)
  note law = get_lawD [OF assms(1) [unfolded pvc_laws_def] get]
  show "obs (outside w') = obs (outside w) \<and> kubeletDir w' = kubeletDir w \<and> protectedNamespace w' = protectedNamespace w"
    using law w' by simp
  show "pvc = Some p \<Longrightarrow> err = None \<and> Name (PvcMeta p) = n \<and> obs (outside w) (protectedNamespace w, n) = Some p"
    using law pvc by (cases err) (auto split: if_splits)
  show "pvc = None \<Longrightarrow> \<not> real_error err \<Longrightarrow> obs (outside w) (protectedNamespace w, n) = None"
    using law pvc by (cases err) (auto split: if_splits)
  show "err = None \<Longrightarrow> pvc \<noteq> None"
    using law pvc by auto
qed

lemma GetIntermediatePodByName_spec:
  assumes "pod_laws env obs" and "returns (GetIntermediatePodByName env n ns) w (pod, err) w'"
  shows "obs (outside w') = obs (outside w) \<and> kubeletDir w' = kubeletDir w \<and> protectedNamespace w' = protectedNamespace w"
    and "pod = Some p \<Longrightarrow> err = None \<and> Name (PodMeta p) = n \<and> Namespace (PodMeta p) = ns
      \<and> obs (outside w) (ns, n) = Some p"
    and "pod = None \<Longrightarrow> \<not> real_error err \<Longrightarrow> obs (outside w) (ns, n) = None"
proof -
  from assms(2) obtain p0 x where get: "Pods_Get (kube env) ns n (outside w) = ((p0, err), x)"
    and w': "w' = w\<lparr>outside := x\<rparr>" and pod: "pod = (if Name (PodMeta p0) = [] then None else Some p0)"
    by (auto simp: GetIntermediatePodByName_def returns_simps)
  note law = get_lawD [OF assms(1) [unfolded pod_laws_def] get]
  show "obs (outside w') = obs (outside w) \<and> kubeletDir w' = kubeletDir w \<and> protectedNamespace w' = protectedNamespace w"
    using law w' by simp
  show "pod = Some p \<Longrightarrow> err = None \<and> Name (PodMeta p) = n \<and> Namespace (PodMeta p) = ns
      \<and> obs (outside w) (ns, n) = Some p"
    using law pod by (cases err) (auto split: if_splits)
  show "pod = None \<Longrightarrow> \<not> real_error err \<Longrightarrow> obs (outside w) (ns, n) = None"
    using law pod by (cases err) (auto split: if_splits)
qed

text \<open>Claims and pods are two stores with the same contract.\<close>

interpretation claims: protected_store "pvc_laws env obs" "GetSubproviderPvcByName env"
  "\<lambda>pvc. DeleteSubproviderPvc env (Name (PvcMeta pvc))" "\<lambda>pvc. Name (PvcMeta pvc)" "claim_present obs"
  for env :: "'x env" and obs :: "'x \<Rightarrow> key \<Rightarrow> PersistentVolumeClaim option"
proof (unfold_locales, goal_cases)
  case (1 n w)
  show ?case using lookups_no_panic(1) [THEN no_panic_returns] by fast
next
  case (2 n w r w')
  then show ?case by (cases r) (auto simp: claim_present_def fun_eq_iff dest: GetSubproviderPvcByName_spec(1))
next
  case (3 n w err w')
  then show ?case by (auto simp: claim_present_def dest: GetSubproviderPvcByName_spec(3))
next
  case (4 n w p err w')
  then show ?case by (auto dest: GetSubproviderPvcByName_spec(2))
next
  case (5 p w)
  show ?case using deletes_no_panic(1) [THEN no_panic_returns] by fast
next
  case (6 n w0 p w err w')
  then show ?case by (auto dest: DeleteSubproviderPvc_spec(2) GetSubproviderPvcByName_spec(2))
next
  case (7 n w0 p w err w' m)
  then show ?case using DeleteSubproviderPvc_spec(1,3) [of env obs n w err w']
    by (auto simp: claim_present_def frame_def dest: GetSubproviderPvcByName_spec(2))
qed

interpretation pods: protected_store "pod_laws env obs" "\<lambda>n. GetIntermediatePodByName env n ns"
  "\<lambda>pod. DeleteIntermediatePod env (Name (PodMeta pod)) (Namespace (PodMeta pod))" "\<lambda>pod. Name (PodMeta pod)"
  "pod_present obs ns"
  for env :: "'x env" and obs :: "'x \<Rightarrow> key \<Rightarrow> Pod option" and ns :: string
proof (unfold_locales, goal_cases)
  case (1 n w)
  show ?case using lookups_no_panic(4) [THEN no_panic_returns] by fast
next
  case (2 n w r w')
  then show ?case by (cases r) (auto simp: pod_present_def fun_eq_iff dest: GetIntermediatePodByName_spec(1))
next
  case (3 n w err w')
  then show ?case by (auto simp: pod_present_def dest: GetIntermediatePodByName_spec(3))
next
  case (4 n w p err w')
  then show ?case by (auto dest: GetIntermediatePodByName_spec(2))
next
  case (5 p w)
  show ?case using deletes_no_panic(2) [THEN no_panic_returns] by fast
next
  case (6 n w0 p w err w')
  then show ?case by (auto dest: DeleteIntermediatePod_spec(2) GetIntermediatePodByName_spec(2))
next
  case (7 n w0 p w err w' m)
  then show ?case using DeleteIntermediatePod_spec(1,3) [of env obs n ns w err w']
    by (auto simp: pod_present_def frame_def dest: GetIntermediatePodByName_spec(2))
qed

section \<open>What becomes of a pod that is created\<close>

text \<open>The phase the wait loop ends with: that of the last event, or the one the pod was created with.\<close>

fun last_phase :: "string \<Rightarrow> Pod watch_signal list \<Rightarrow> string" where
  "last_phase phase [] = phase"
| "last_phase phase (WEvent pod # signals) = last_phase (Phase pod) signals"
| "last_phase phase (WOther # signals) = last_phase phase signals"
| "last_phase phase (WTimeout # signals) = last_phase phase signals"

lemma pod_wait_phase: "fst (pod_wait msg (phase, err) signals) = last_phase phase signals"
  by (induction msg "(phase, err)" signals arbitrary: phase err rule: pod_wait.induct) simp_all

text \<open>Watching a pod takes nothing off its labels, and does not bring a pod back.\<close>

definition watch_keeps_labels :: "'x env \<Rightarrow> ('x \<Rightarrow> key \<Rightarrow> Pod option) \<Rightarrow> bool" where
  "watch_keeps_labels env obs \<longleftrightarrow>
     (\<forall>ns m x r y pod. Pods_Watch (kube env) ns m x = (r, y) \<longrightarrow> obs y (ns, Name m) = Some pod \<longrightarrow>
        (\<exists>before. obs x (ns, Name m) = Some before \<and> Labels (PodMeta pod) = Labels (PodMeta before)))"

lemma CreateIntermediatePod_requests:
  assumes laws: "pod_laws env obs" and watch: "watch_keeps_labels env obs"
    and run: "returns (CreateIntermediatePod env config) w (Some p, e) w'"
  obtains x y signals err where
    "Pods_Create (kube env) (PodNamespace config) (intermediatePod config) (outside w) = ((p, None), x)"
    "Pods_Watch (kube env) (PodNamespace config) (PodMeta p) x = ((signals, err), y)"
    "\<And>pod. obs y (PodNamespace config, PodName config) = Some pod \<Longrightarrow> mget (Labels (PodMeta pod)) Label \<noteq> None"
    "if err = None \<and> last_phase (Phase p) signals \<noteq> PodRunning
     then \<exists>e'. Pods_Delete (kube env) (PodNamespace config) (PodName config) y = (e', outside w') else outside w' = y"
proof -
  from run obtain x y signals err where
    make: "Pods_Create (kube env) (PodNamespace config) (intermediatePod config) (outside w) = ((p, None), x)" and
    wait: "Pods_Watch (kube env) (PodNamespace config) (PodMeta p) x = ((signals, err), y)" and
    rest: "if err = None \<and> last_phase (Phase p) signals \<noteq> PodRunning
      then \<exists>e'. Pods_Delete (kube env) (PodNamespace config) (PodName config) y = (e', outside w') else outside w' = y"
    by (force simp: CreateIntermediatePod_def returns_simps Let_def split_beta pod_wait_phase split: if_splits)
  have name: "Name (PodMeta (intermediatePod config)) = PodName config"
    by (simp add: intermediatePod_def)
  have stored: "obs x (PodNamespace config, PodName config) = Some p" "pod_stored (intermediatePod config) p"
    using create_lawD(2-) [OF laws [unfolded pod_laws_def] make] name by auto
  then have "Name (PodMeta p) = PodName config" "mget (Labels (PodMeta p)) Label \<noteq> None"
    by (auto simp: pod_stored_def intermediatePod_def)
  then have "mget (Labels (PodMeta pod)) Label \<noteq> None" if pod: "obs y (PodNamespace config, PodName config) = Some pod" for pod
    using watch [unfolded watch_keeps_labels_def, THEN spec, THEN spec, THEN spec, THEN spec, THEN spec, THEN spec, THEN mp, OF wait]
      stored(1) pod by auto
  then show ?thesis by (rule that [OF make wait _ rest])
qed

end
