(* ===== verification/Operator_Types.thy ===== *)
theory Operator_Types
  imports K8s_Utils
begin

text \<open>
  What the two reconcilers of the operator share: the result they hand back to controller-runtime,
  the requeue intervals and the finalizer of \<^verbatim>\<open>pkg/csi-operator/internal/helpers/helpers.go\<close>, and
  \<^verbatim>\<open>controllerutil\<close>'s operations on the finalizers of an object, which are parameters: a record
  \<open>finalizer_ops\<close> with the documented behaviour as \<open>finalizer_laws\<close>.
\<close>

section \<open>Results\<close>

text \<open>\<^verbatim>\<open>ctrl.Result\<close>; a \<^verbatim>\<open>time.Duration\<close> is a number of nanoseconds.\<close>

record ctrl_Result =
  Requeue :: bool
  RequeueAfter :: int

definition Result_zero :: ctrl_Result where
  "Result_zero = \<lparr>Requeue = False, RequeueAfter = 0\<rparr>"

definition time_Second :: int where "time_Second = 10 ^ 9"

definition DefaultRequequeAfter :: int where "DefaultRequequeAfter = 10 * time_Second"
definition LongRequeueAfter :: int where "LongRequeueAfter = 60 * time_Second"
definition Finalizer :: string where "Finalizer = ''csi.open-cas.com/operator''"

lemma Result_distinct [simp]:
  "\<lparr>Requeue = False, RequeueAfter = DefaultRequequeAfter\<rparr> \<noteq> Result_zero"
  "\<lparr>Requeue = False, RequeueAfter = LongRequeueAfter\<rparr> \<noteq> Result_zero"
  "\<lparr>Requeue = True, RequeueAfter = 0\<rparr> \<noteq> Result_zero"
  "Result_zero \<noteq> \<lparr>Requeue = False, RequeueAfter = DefaultRequequeAfter\<rparr>"
  by (simp_all add: Result_zero_def DefaultRequequeAfter_def LongRequeueAfter_def time_Second_def)

section \<open>Finalizers\<close>

text \<open>
  \<^verbatim>\<open>controllerutil.AddFinalizer\<close> and \<^verbatim>\<open>RemoveFinalizer\<close> change the list of finalizers of an object and
  say whether they changed it.
\<close>

record finalizer_ops =
  AddFinalizerTo :: "string list \<Rightarrow> string \<Rightarrow> bool \<times> string list"
  RemoveFinalizerFrom :: "string list \<Rightarrow> string \<Rightarrow> bool \<times> string list"

definition finalizer_laws :: "finalizer_ops \<Rightarrow> bool" where
  "finalizer_laws fin \<longleftrightarrow>
     (\<forall>fs f. AddFinalizerTo fin fs f = (f \<notin> set fs, if f \<in> set fs then fs else fs @ [f])) \<and>
     (\<forall>fs f. RemoveFinalizerFrom fin fs f = (f \<in> set fs, filter (\<lambda>g. g \<noteq> f) fs))"

definition controllerutil :: finalizer_ops where
  "controllerutil =
     \<lparr>AddFinalizerTo = (\<lambda>fs f. (f \<notin> set fs, if f \<in> set fs then fs else fs @ [f])),
      RemoveFinalizerFrom = (\<lambda>fs f. (f \<in> set fs, filter (\<lambda>g. g \<noteq> f) fs))\<rparr>"

lemma controllerutil_laws: "finalizer_laws controllerutil"
  by (simp add: finalizer_laws_def controllerutil_def)

lemma add_then_remove:
  assumes "finalizer_laws fin" and "f \<notin> set fs"
  shows "snd (RemoveFinalizerFrom fin (snd (AddFinalizerTo fin fs f)) f) = fs"
  using assms by (auto simp: finalizer_laws_def filter_id_conv)

end
