(* ===== verification/Casadm.thy ===== *)
theory Casadm
  imports Go_Strings
begin

text \<open>
  \<^verbatim>\<open>pkg/opencas/casadm.go\<close>: the command lines of \<^verbatim>\<open>casadm\<close> and the table by which they are
  shortened to job names. The commands are strings that the job runner splits at blanks
  (\<^verbatim>\<open>strings.Split(cmd, " ")\<close>); the lemmas give the argument vector that results, for parameters
  that hold no blank.
\<close>

text \<open>\<^verbatim>\<open>CacheLineSize\<close> is a \<^verbatim>\<open>uint8\<close>, \<^verbatim>\<open>CacheMode\<close> a string type.\<close>

type_synonym CacheLineSize = "8 word"
type_synonym CacheMode = string

definition CLS_4k :: CacheLineSize where "CLS_4k = 4"
definition CLS_8k :: CacheLineSize where "CLS_8k = 8"
definition CLS_16k :: CacheLineSize where "CLS_16k = 16"
definition CLS_64k :: CacheLineSize where "CLS_64k = 64"

definition WriteThrough :: CacheMode where "WriteThrough = ''wt''"
definition WriteBack :: CacheMode where "WriteBack = ''wb''"
definition WriteAround :: CacheMode where "WriteAround = ''wa''"
definition PassThrough :: CacheMode where "PassThrough = ''pt''"
definition WriteOnly :: CacheMode where "WriteOnly = ''wo''"

definition CsiDriverByIdDir :: string where
  "CsiDriverByIdDir = ''/dev/disk/by-id/opencas-csi''"

definition bin :: string where "bin = ''casadm''"
definition startCacheCommand :: string where "startCacheCommand = ''--start-cache''"
definition stopCacheCommand :: string where "stopCacheCommand = ''--stop-cache''"
definition addCoreCommand :: string where "addCoreCommand = ''--add-core''"
definition removeCoreCommand :: string where "removeCoreCommand = ''--remove-core''"
definition listCachesCommand :: string where "listCachesCommand = ''--list-caches''"
definition setCacheModeCommand :: string where "setCacheModeCommand = ''--set-cache-mode''"
definition statsCommand :: string where "statsCommand = ''--stats''"
definition cacheDeviceParam :: string where "cacheDeviceParam = ''--cache-device''"
definition coreDeviceParam :: string where "coreDeviceParam = ''--core-device''"
definition cacheIdParam :: string where "cacheIdParam = ''--cache-id''"
definition coreIdParam :: string where "coreIdParam = ''--core-id''"
definition cacheModeParam :: string where "cacheModeParam = ''--cache-mode''"
definition cacheLineSizeParam :: string where "cacheLineSizeParam = ''--cache-line-size''"
definition ioClassIdParam :: string where "ioClassIdParam = ''--io-class-id''"
definition byIdPathFlag :: string where "byIdPathFlag = ''--by-id-path''"
definition forceFlag :: string where "forceFlag = ''--force''"
definition outputFormatCsv :: string where "outputFormatCsv = ''--output-format csv''"

lemmas casadm_words = bin_def startCacheCommand_def stopCacheCommand_def addCoreCommand_def
  removeCoreCommand_def listCachesCommand_def setCacheModeCommand_def statsCommand_def
  cacheDeviceParam_def coreDeviceParam_def cacheIdParam_def coreIdParam_def cacheModeParam_def
  cacheLineSizeParam_def ioClassIdParam_def byIdPathFlag_def forceFlag_def outputFormatCsv_def
  CsiDriverByIdDir_def

text \<open>
  The replacement table. It is a Go map, which the code ranges over: the list gives its entries,
  the order in which they are applied is open.
\<close>

definition replace :: "(string \<times> string) list" where
  "replace = [
     (bin, ''''),
     (startCacheCommand, ''-S''), (stopCacheCommand, ''-T''), (addCoreCommand, ''-A''),
     (removeCoreCommand, ''-R''), (listCachesCommand, ''-L''), (setCacheModeCommand, ''-Q''),
     (statsCommand, ''-P''),
     (cacheDeviceParam, ''-d''), (coreDeviceParam, ''-d''), (cacheIdParam, ''-i''),
     (coreIdParam, ''-j''), (cacheModeParam, ''-c''), (cacheLineSizeParam, ''-x''),
     (ioClassIdParam, ''-d''),
     (byIdPathFlag, ''''), (forceFlag, ''''),
     (outputFormatCsv, ''''),
     (CsiDriverByIdDir, '''')]"

section \<open>The commands\<close>

definition startCacheCmd :: "string \<Rightarrow> CacheMode \<Rightarrow> CacheLineSize \<Rightarrow> int \<Rightarrow> string" where
  "startCacheCmd path mode cls cacheId =
     Join ([bin, startCacheCommand, forceFlag] @ [cacheDeviceParam, path]
       @ (if cacheId \<noteq> -1 then [cacheIdParam, fmt_int cacheId] else [])
       @ (if mode \<noteq> [] then [cacheModeParam, mode] else [])
       @ (if cls \<noteq> 0 then [cacheLineSizeParam, fmt_int (uint cls)] else [])) '' ''"

definition stopCacheCmd :: "int \<Rightarrow> string" where
  "stopCacheCmd cacheId = Join ([bin, stopCacheCommand] @ [cacheIdParam, fmt_int cacheId]) '' ''"

definition addCoreCmd :: "int \<Rightarrow> string \<Rightarrow> int \<Rightarrow> string" where
  "addCoreCmd cacheId path coreId =
     Join ([bin, addCoreCommand] @ [cacheIdParam, fmt_int cacheId] @ [coreDeviceParam, path]
       @ (if coreId \<noteq> -1 then [coreIdParam, fmt_int coreId] else [])) '' ''"

definition removeCoreCmd :: "int \<Rightarrow> int \<Rightarrow> string" where
  "removeCoreCmd cacheId coreId =
     Join ([bin, removeCoreCommand] @ [cacheIdParam, fmt_int cacheId] @ [coreIdParam, fmt_int coreId]) '' ''"

definition listCachesCmd :: string where
  "listCachesCmd = Join [bin, listCachesCommand, byIdPathFlag, outputFormatCsv] '' ''"

definition statsCmd :: "int \<Rightarrow> int \<Rightarrow> string" where
  "statsCmd cacheId coreId =
     Join ([bin, statsCommand, outputFormatCsv] @ [cacheIdParam, fmt_int cacheId]
       @ (if coreId \<noteq> -1 then [coreIdParam, fmt_int coreId] else [])) '' ''"

definition setCacheModeCmd :: "int \<Rightarrow> CacheMode \<Rightarrow> string" where
  "setCacheModeCmd cacheId mode =
     Join ([bin, setCacheModeCommand] @ [cacheIdParam, fmt_int cacheId] @ [cacheModeParam, mode]) '' ''"

section \<open>Argument vectors\<close>

definition no_blank :: "string \<Rightarrow> bool" where
  "no_blank s \<longleftrightarrow> CHR '' '' \<notin> set s"

lemma nat_str_no_blank: "CHR '' '' \<notin> set (nat_str n)"
proof
  assume "CHR '' '' \<in> set (nat_str n)"
  then have "is_digit CHR '' ''" using nat_str_digits [of n] by (auto simp: list_all_iff)
  then show False by (simp add: is_digit_def)
qed

lemma fmt_int_no_blank [simp]: "CHR '' '' \<notin> set (fmt_int i)"
  by (simp add: fmt_int_def nat_str_no_blank)

lemma Split_Join_blank:
  "xs \<noteq> [] \<Longrightarrow> list_all no_blank xs \<Longrightarrow> Split (Join xs '' '') '' '' = xs"
  by (rule Split_Join_char) (auto simp: no_blank_def list_all_iff)

text \<open>
  The word \<open>--output-format csv\<close> holds a blank itself and arrives as two arguments, as
  \<^verbatim>\<open>casadm\<close> expects.
\<close>

lemma Join_outputFormat:
  "Join (xs @ outputFormatCsv # ys) '' '' = Join (xs @ ''--output-format'' # ''csv'' # ys) '' ''"
proof (induction xs)
  case Nil
  show ?case by (cases ys) (simp_all add: outputFormatCsv_def)
next
  case (Cons x xs)
  then show ?case by (simp add: Join_Cons)
qed

lemma listCaches_argv:
  "Split listCachesCmd '' '' = [''casadm'', ''--list-caches'', ''--by-id-path'', ''--output-format'', ''csv'']"
proof -
  have cmd: "listCachesCmd = Join [''casadm'', ''--list-caches'', ''--by-id-path'', ''--output-format'', ''csv''] '' ''"
    by (simp add: listCachesCmd_def casadm_words)
  show ?thesis unfolding cmd by (subst Split_Join_blank) (auto simp: no_blank_def)
qed

lemma stats_argv:
  "Split (statsCmd i (-1)) '' '' =
     [''casadm'', ''--stats'', ''--output-format'', ''csv'', ''--cache-id'', fmt_int i]"
proof -
  have "statsCmd i (-1) =
      Join [''casadm'', ''--stats'', ''--output-format'', ''csv'', ''--cache-id'', fmt_int i] '' ''"
    using Join_outputFormat [of "[bin, statsCommand]" "[cacheIdParam, fmt_int i]"]
    by (simp add: statsCmd_def casadm_words)
  then show ?thesis by (simp only:) (subst Split_Join_blank, auto simp: no_blank_def)
qed

lemma startCache_argv:
  assumes "no_blank path" and "no_blank mode"
  shows "Split (startCacheCmd path mode cls (-1)) '' '' =
     [''casadm'', ''--start-cache'', ''--force'', ''--cache-device'', path]
       @ (if mode \<noteq> [] then [''--cache-mode'', mode] else [])
       @ (if cls \<noteq> 0 then [''--cache-line-size'', fmt_int (uint cls)] else [])"
  unfolding startCacheCmd_def using assms
  by (subst Split_Join_blank) (auto simp: no_blank_def casadm_words)

lemma stopCache_argv:
  "Split (stopCacheCmd i) '' '' = [''casadm'', ''--stop-cache'', ''--cache-id'', fmt_int i]"
  unfolding stopCacheCmd_def by (subst Split_Join_blank) (auto simp: no_blank_def casadm_words)

lemma addCore_argv:
  assumes "no_blank path"
  shows "Split (addCoreCmd i path (-1)) '' '' =
     [''casadm'', ''--add-core'', ''--cache-id'', fmt_int i, ''--core-device'', path]"
  unfolding addCoreCmd_def using assms by (subst Split_Join_blank) (auto simp: no_blank_def casadm_words)

lemma removeCore_argv:
  "Split (removeCoreCmd i j) '' '' =
     [''casadm'', ''--remove-core'', ''--cache-id'', fmt_int i, ''--core-id'', fmt_int j]"
  unfolding removeCoreCmd_def by (subst Split_Join_blank) (auto simp: no_blank_def casadm_words)

lemma setCacheMode_argv:
  assumes "no_blank mode"
  shows "Split (setCacheModeCmd i mode) '' '' =
     [''casadm'', ''--set-cache-mode'', ''--cache-id'', fmt_int i, ''--cache-mode'', mode]"
  unfolding setCacheModeCmd_def using assms by (subst Split_Join_blank) (auto simp: no_blank_def casadm_words)

end
