(* ===== verification/Csv_Reader.thy ===== *)
theory Csv_Reader
  imports Go_Strings
begin

text \<open>
  Go's \<^verbatim>\<open>encoding/csv\<close> reader with the settings \<^verbatim>\<open>csv.NewReader\<close> gives it (comma \<^verbatim>\<open>,\<close>, no
  comment character, no lazy quotes, no trimming, \<^verbatim>\<open>FieldsPerRecord\<close> taken from the first record),
  as far as its callers can observe it: the records, which of them carry an error, and where the
  input ends. A record with an error holds the fields read before the error, possibly none.
  The positions inside an error's text are left out.

  \<open>csv_read\<close> is one call of \<^verbatim>\<open>Reader.Read\<close>; \<open>csv_all\<close> is the sequence of records a caller sees
  that reads to the end of the input. The lemmas show that every call consumes input, so that
  such a loop ends, and that unquoted text is read back as it was written.
\<close>

datatype csv_err = ErrBareQuote | ErrQuote | ErrFieldCount

datatype csv_result = CsvEOF | CsvRecord (csv_fields: "string list") (csv_error: "csv_err option")

record csv_reader =
  csv_input :: string
  FieldsPerRecord :: nat

definition NewReader :: "string \<Rightarrow> csv_reader" where
  "NewReader s = \<lparr>csv_input = s, FieldsPerRecord = 0\<rparr>"

definition csv_go_error :: "csv_err \<Rightarrow> error" where
  "csv_go_error e = errorf (case e of
       ErrBareQuote \<Rightarrow> ''parse error: bare quote in non-quoted field''
     | ErrQuote \<Rightarrow> ''parse error: extraneous or missing quote in quoted-field''
     | ErrFieldCount \<Rightarrow> ''wrong number of fields'')"

abbreviation NL :: char where "NL \<equiv> CHR 0x0A"
abbreviation CR :: char where "CR \<equiv> CHR 0x0D"
abbreviation QT :: char where "QT \<equiv> CHR 0x22"
abbreviation COMMA :: char where "COMMA \<equiv> CHR '',''"

section \<open>Lines\<close>

definition chomp_cr :: "string \<Rightarrow> string" where
  "chomp_cr l = (if l \<noteq> [] \<and> last l = CR then butlast l else l)"

text \<open>The next line, with its newline if it has one, and the rest of the input.\<close>

definition read_line :: "string \<Rightarrow> string \<times> string" where
  "read_line s =
     (let raw = takeWhile (\<lambda>c. c \<noteq> NL) s; rest = dropWhile (\<lambda>c. c \<noteq> NL) s in
      if rest \<noteq> [] then (chomp_cr raw @ [NL], tl rest) else (chomp_cr raw, []))"

lemma chomp_cr_length: "length (chomp_cr l) \<le> length l"
  by (simp add: chomp_cr_def)

lemma read_line_length: "read_line s = (l, r) \<Longrightarrow> length l + length r \<le> length s"
proof -
  assume "read_line s = (l, r)"
  moreover have "length (takeWhile (\<lambda>c. c \<noteq> NL) s) + length (dropWhile (\<lambda>c. c \<noteq> NL) s) = length s"
    by (metis length_append takeWhile_dropWhile_id)
  ultimately show ?thesis
    using chomp_cr_length [of "takeWhile (\<lambda>c. c \<noteq> NL) s"]
    by (cases "dropWhile (\<lambda>c. c \<noteq> NL) s") (auto simp: read_line_def Let_def)
qed

lemma read_line_rest: "s \<noteq> [] \<Longrightarrow> read_line s = (l, r) \<Longrightarrow> length r < length s"
proof -
  assume "s \<noteq> []" and "read_line s = (l, r)"
  moreover have "length (dropWhile (\<lambda>c. c \<noteq> NL) s) \<le> length s"
    by (rule length_dropWhile_le)
  ultimately show ?thesis
    by (cases "dropWhile (\<lambda>c. c \<noteq> NL) s") (auto simp: read_line_def Let_def)
qed

text \<open>Blank lines are skipped before a record; \<^term>\<open>None\<close> is \<^verbatim>\<open>io.EOF\<close>.\<close>

function skip_blank :: "string \<Rightarrow> (string \<times> string) option" where
  "skip_blank s =
     (if s = [] then None
      else let (l, r) = read_line s in
           if l = [] \<or> l = [NL] then skip_blank r else Some (l, r))"
  by pat_completeness auto
termination
  by (relation "measure length") (auto dest: read_line_rest [OF _ sym])

declare skip_blank.simps [simp del]

lemma skip_blank_length: "skip_blank s = Some (l, r) \<Longrightarrow> length l + length r \<le> length s \<and> length r < length s"
proof (induction s rule: skip_blank.induct)
  case (1 s)
  then show ?case
  proof (cases "s = []")
    case False
    obtain l' r' where rl: "read_line s = (l', r')" by fastforce
    note shorter = read_line_rest [OF False rl] and both = read_line_length [OF rl]
    show ?thesis
    proof (cases "l' = [] \<or> l' = [NL]")
      case True
      with 1 False rl have "length l + length r \<le> length r' \<and> length r < length r'"
        by (auto simp: skip_blank.simps [of s])
      with shorter show ?thesis by linarith
    next
      case False
      with "1.prems" \<open>s \<noteq> []\<close> rl have "l' = l" and "r' = r"
        by (simp_all add: skip_blank.simps [of s])
      with both shorter show ?thesis by simp
    qed
  qed (simp add: skip_blank.simps)
qed

section \<open>Fields\<close>

text \<open>
  Inside a quoted field: the field ends at a quote before a comma (\<open>QComma\<close>, with the rest of the
  line), at a quote before the end of the line (\<open>QEnd\<close>), or the quoting is wrong (\<open>QBad\<close>). A field
  may continue over several lines.
\<close>

datatype quoted = QComma string string string | QEnd string string | QBad string

function read_quoted :: "string \<Rightarrow> string \<Rightarrow> string \<Rightarrow> quoted" where
  "read_quoted acc line rest =
     (case Index line [QT] of
        Some i \<Rightarrow>
          (let acc' = acc @ take i line in
           case drop (Suc i) line of
             [] \<Rightarrow> QEnd acc' rest
           | c # l \<Rightarrow>
               if c = QT then read_quoted (acc' @ [QT]) l rest
               else if c = COMMA then QComma acc' l rest
               else if c = NL \<and> l = [] then QEnd acc' rest
               else QBad rest)
      | None \<Rightarrow>
          if line = [] then QBad rest
          else read_quoted (acc @ line) (fst (read_line rest)) (snd (read_line rest)))"
  by pat_completeness auto
termination
proof (relation "measure (\<lambda>(acc, line, rest). length line + length rest)", goal_cases)
  case (2 acc line rest)
  have "length (fst (read_line rest)) + length (snd (read_line rest)) \<le> length rest"
    by (rule read_line_length) simp
  then have "length (fst (read_line rest)) + length (snd (read_line rest)) < length line + length rest"
    using 2 by (cases line) simp_all
  then show ?case by (simp add: case_prod_beta)
next
  case (3 acc line rest i x c l)
  then have "length (c # l) \<le> length line" by (metis length_drop diff_le_self)
  then show ?case by simp
qed simp

declare read_quoted.simps [simp del]

lemma read_quoted_length:
  "read_quoted acc line rest = QComma f l r \<Longrightarrow> length l + length r < length line + length rest"
proof (induction acc line rest rule: read_quoted.induct)
  case (1 acc line rest)
  have drop_le: "drop (Suc i) line = c # l' \<Longrightarrow> Suc (length l') \<le> length line" for i c l'
    by (metis length_Cons length_drop diff_le_self)
  have next_le: "length (fst (read_line rest)) + length (snd (read_line rest)) \<le> length rest"
    by (rule read_line_length) simp
  show ?case using 1 next_le drop_le
    by (force simp: read_quoted.simps [of acc line rest] Let_def split: option.splits list.splits if_splits)
qed

lemma read_quoted_rest:
  "read_quoted acc line rest = QComma f l r \<Longrightarrow> length r \<le> length rest"
  "read_quoted acc line rest = QEnd f r \<Longrightarrow> length r \<le> length rest"
  "read_quoted acc line rest = QBad r \<Longrightarrow> length r \<le> length rest"
proof (induction acc line rest rule: read_quoted.induct)
  case (1 acc line rest)
  have next_le: "length (snd (read_line rest)) \<le> length rest"
    using read_line_length [of rest "fst (read_line rest)" "snd (read_line rest)"] by simp
  {
    case 1
    then show ?case using "1.IH" next_le
      by (force simp: read_quoted.simps [of acc line rest] Let_def split: option.splits list.splits if_splits)
  next
    case 2
    then show ?case using "1.IH" next_le
      by (force simp: read_quoted.simps [of acc line rest] Let_def split: option.splits list.splits if_splits)
  next
    case 3
    then show ?case using "1.IH" next_le
      by (force simp: read_quoted.simps [of acc line rest] Let_def split: option.splits list.splits if_splits)
  }
qed

text \<open>
  The fields of one record: what was read, the error that stopped it, the rest of the input.
\<close>

definition chomp_nl :: "string \<Rightarrow> string" where
  "chomp_nl l = (if l \<noteq> [] \<and> last l = NL then butlast l else l)"

function read_fields :: "string list \<Rightarrow> string \<Rightarrow> string \<Rightarrow> string list \<times> csv_err option \<times> string" where
  "read_fields acc line rest =
     (if line = [] \<or> hd line \<noteq> QT then
        (case Index line [COMMA] of
           Some i \<Rightarrow>
             if QT \<in> set (take i line) then (acc, Some ErrBareQuote, rest)
             else read_fields (acc @ [take i line]) (drop (Suc i) line) rest
         | None \<Rightarrow>
             if QT \<in> set (chomp_nl line) then (acc, Some ErrBareQuote, rest)
             else (acc @ [chomp_nl line], None, rest))
      else
        (case read_quoted [] (tl line) rest of
           QComma f l r \<Rightarrow> read_fields (acc @ [f]) l r
         | QEnd f r \<Rightarrow> (acc @ [f], None, r)
         | QBad r \<Rightarrow> (acc, Some ErrQuote, r)))"
  by pat_completeness auto
termination
proof (relation "measure (\<lambda>(acc, line, rest). length line + length rest)", goal_cases)
  case (2 acc line rest i)
  then have "i + 1 \<le> length line" using Index_bound [of line "[COMMA]" i] by simp
  then show ?case by simp
next
  case (3 acc line rest f l r)
  then show ?case by (auto dest!: read_quoted_length)
qed simp

declare read_fields.simps [simp del]

lemma read_fields_rest: "read_fields acc line rest = (fs, e, r) \<Longrightarrow> length r \<le> length rest"
proof (induction acc line rest rule: read_fields.induct)
  case (1 acc line rest)
  then show ?case
    by (force simp: read_fields.simps [of acc line rest]
        split: if_splits option.splits quoted.splits dest: read_quoted_rest)
qed

section \<open>Records\<close>

definition csv_read :: "csv_reader \<Rightarrow> csv_result \<times> csv_reader" where
  "csv_read r =
     (case skip_blank (csv_input r) of
        None \<Rightarrow> (CsvEOF, r\<lparr>csv_input := []\<rparr>)
      | Some (line, rest) \<Rightarrow>
          (let (fs, e, rest') = read_fields [] line rest;
               n = FieldsPerRecord r;
               e' = (if 0 < n \<and> length fs \<noteq> n \<and> e = None then Some ErrFieldCount else e)
           in (CsvRecord fs e',
               r\<lparr>csv_input := rest', FieldsPerRecord := (if n = 0 then length fs else n)\<rparr>)))"

text \<open>
  What a caller relies on when it reads in a loop: as long as the reader does not report the end
  of the input, each call leaves less of it.
\<close>

locale record_source =
  fixes read :: "'s \<Rightarrow> 'r option \<times> 's"
    and left :: "'s \<Rightarrow> nat"
  assumes read_progress: "read s = (Some r, s') \<Longrightarrow> left s' < left s"
begin

text \<open>
  \<open>reads_all s rs\<close>: the records a loop over \<open>read\<close> sees from state \<open>s\<close> until the end.
\<close>

inductive reads_all :: "'s \<Rightarrow> 'r list \<Rightarrow> bool" where
  at_end: "read s = (None, s') \<Longrightarrow> reads_all s []"
| one_more: "read s = (Some r, s') \<Longrightarrow> reads_all s' rs \<Longrightarrow> reads_all s (r # rs)"

lemma reads_all_ends: "\<exists>rs. reads_all s rs \<and> length rs \<le> left s"
proof (induction "left s" arbitrary: s rule: less_induct)
  case less
  obtain o' s' where run: "read s = (o', s')" by fastforce
  show ?case
  proof (cases o')
    case None
    with run have "reads_all s []" by (auto intro: at_end)
    then show ?thesis by fastforce
  next
    case (Some r)
    with run have "left s' < left s" by (simp add: read_progress)
    with less obtain rs where "reads_all s' rs" and "length rs \<le> left s'" by blast
    with run Some \<open>left s' < left s\<close> show ?thesis
      by (intro exI [of _ "r # rs"]) (auto intro: one_more)
  qed
qed

inductive_cases reads_all_at: "reads_all s rs"

lemma reads_all_unique: "reads_all s rs \<Longrightarrow> reads_all s rs' \<Longrightarrow> rs = rs'"
proof (induction arbitrary: rs' rule: reads_all.induct)
  case (at_end s s')
  from at_end.prems show ?case by (rule reads_all_at) (use at_end.hyps in simp_all)
next
  case (one_more s r s' rs)
  from one_more.prems show ?case
  proof (rule reads_all_at)
    fix r2 s2 rs2
    assume "rs' = r2 # rs2" and "read s = (Some r2, s2)" and "reads_all s2 rs2"
    with one_more.hyps one_more.IH show ?thesis by simp
  qed (use one_more.hyps in simp)
qed

end

definition csv_next :: "csv_reader \<Rightarrow> (string list \<times> csv_err option) option \<times> csv_reader" where
  "csv_next r = (case csv_read r of
       (CsvEOF, r') \<Rightarrow> (None, r')
     | (CsvRecord fs e, r') \<Rightarrow> (Some (fs, e), r'))"

lemma csv_read_progress:
  "csv_read r = (CsvRecord fs e, r') \<Longrightarrow> length (csv_input r') < length (csv_input r)"
proof -
  assume run: "csv_read r = (CsvRecord fs e, r')"
  then obtain line rest where sk: "skip_blank (csv_input r) = Some (line, rest)"
    by (auto simp: csv_read_def split: option.splits)
  obtain fs' e' rest' where rf: "read_fields [] line rest = (fs', e', rest')"
    by (metis prod_cases3)
  have "csv_input r' = rest'" using run sk rf by (auto simp: csv_read_def Let_def)
  then show ?thesis
    using skip_blank_length [OF sk] read_fields_rest [OF rf] by simp
qed

interpretation csv: record_source csv_next "\<lambda>r. length (csv_input r)"
  by unfold_locales
    (auto simp: csv_next_def split: prod.splits csv_result.splits dest: csv_read_progress)

section \<open>Reading to the end\<close>

function csv_all :: "csv_reader \<Rightarrow> (string list \<times> csv_err option) list" where
  "csv_all r = (case csv_read r of
       (CsvEOF, r') \<Rightarrow> []
     | (CsvRecord fs e, r') \<Rightarrow> (fs, e) # csv_all r')"
  by pat_completeness auto
termination
  by (relation "measure (\<lambda>r. length (csv_input r))") (auto dest: csv_read_progress [OF sym])

declare csv_all.simps [simp del]

lemma csv_reads_all: "csv.reads_all r (csv_all r)"
proof (induction r rule: csv_all.induct)
  case (1 r)
  obtain x r' where run: "csv_read r = (x, r')" by fastforce
  show ?case
  proof (cases x)
    case CsvEOF
    with run have "csv_next r = (None, r')" by (simp add: csv_next_def)
    then show ?thesis using run CsvEOF by (auto simp: csv_all.simps [of r] intro: csv.at_end)
  next
    case (CsvRecord fs e)
    with run have "csv_next r = (Some (fs, e), r')" by (simp add: csv_next_def)
    then show ?thesis using run CsvRecord 1 [of _ r']
      by (auto simp: csv_all.simps [of r] intro: csv.one_more)
  qed
qed

lemma csv_all_bounded: "length (csv_all r) \<le> length (csv_input r)"
  using csv.reads_all_ends [of r] csv_reads_all [of r] by (metis csv.reads_all_unique)

section \<open>Text without quotes\<close>

definition plain_field :: "string \<Rightarrow> bool" where
  "plain_field f \<longleftrightarrow> list_all (\<lambda>c. c \<noteq> COMMA \<and> c \<noteq> QT \<and> c \<noteq> NL \<and> c \<noteq> CR) f"

definition csv_line :: "string list \<Rightarrow> string" where
  "csv_line fs = Join fs [COMMA] @ [NL]"

text \<open>A row whose line is not blank.\<close>

definition plain_row :: "string list \<Rightarrow> bool" where
  "plain_row fs \<longleftrightarrow> fs \<noteq> [] \<and> fs \<noteq> [[]] \<and> list_all plain_field fs"

lemma plain_field_notin:
  "plain_field f \<Longrightarrow> COMMA \<notin> set f \<and> QT \<notin> set f \<and> NL \<notin> set f \<and> CR \<notin> set f"
  by (auto simp: plain_field_def list_all_def)

lemma Join_plain_set:
  "list_all plain_field fs \<Longrightarrow> NL \<notin> set (Join fs [COMMA]) \<and> CR \<notin> set (Join fs [COMMA])"
  by (induction fs "[COMMA]" rule: Join.induct) (auto dest: plain_field_notin)

lemma Join_nonblank: "plain_row fs \<Longrightarrow> Join fs [COMMA] \<noteq> []"
  by (cases "(fs, [COMMA])" rule: Join.cases) (simp_all add: plain_row_def)

lemma read_line_csv_line:
  assumes "list_all plain_field fs"
  shows "read_line (csv_line fs @ s) = (csv_line fs, s)"
proof -
  let ?l = "Join fs [COMMA]"
  have no: "NL \<notin> set ?l" "CR \<notin> set ?l" using Join_plain_set [OF assms] by auto
  then have "takeWhile (\<lambda>c. c \<noteq> NL) (?l @ NL # s) = ?l" and "dropWhile (\<lambda>c. c \<noteq> NL) (?l @ NL # s) = NL # s"
    by (auto simp: takeWhile_append dropWhile_append)
  moreover have "chomp_cr ?l = ?l" using no by (auto simp: chomp_cr_def dest: last_in_set)
  ultimately show ?thesis by (simp add: read_line_def csv_line_def)
qed

lemma skip_blank_csv_line:
  assumes "plain_row fs"
  shows "skip_blank (csv_line fs @ s) = Some (csv_line fs, s)"
proof -
  have "read_line (csv_line fs @ s) = (csv_line fs, s)"
    using assms by (simp add: plain_row_def read_line_csv_line)
  then show ?thesis using Join_nonblank [OF assms]
    by (subst skip_blank.simps) (simp add: csv_line_def)
qed

lemma read_fields_csv_line:
  "fs \<noteq> [] \<Longrightarrow> list_all plain_field fs \<Longrightarrow> read_fields acc (csv_line fs) rest = (acc @ fs, None, rest)"
proof (induction fs arbitrary: acc)
  case (Cons f fs)
  then have f: "COMMA \<notin> set f" "QT \<notin> set f" by (auto dest: plain_field_notin)
  have head: "f @ c # t = [] \<or> hd (f @ c # t) \<noteq> QT" if "c \<noteq> QT" for c t
    using f that by (cases f) auto
  show ?case
  proof (cases "fs = []")
    case True
    have "Index (f @ [NL]) [COMMA] = None" using f by (simp add: Index_char)
    moreover have "chomp_nl (f @ [NL]) = f" by (simp add: chomp_nl_def)
    ultimately show ?thesis using True f head [of NL "[]"]
      by (subst read_fields.simps) (simp add: csv_line_def)
  next
    case False
    then have line: "csv_line (f # fs) = f @ COMMA # csv_line fs"
      by (simp add: csv_line_def Join_Cons)
    have "Index (f @ COMMA # csv_line fs) [COMMA] = Some (length f)"
      using f by (simp add: Index_char takeWhile_append)
    then have "read_fields acc (csv_line (f # fs)) rest = read_fields (acc @ [f]) (csv_line fs) rest"
      using f head [of COMMA "csv_line fs"] unfolding line
      by (subst read_fields.simps) simp
    also have "\<dots> = (acc @ f # fs, None, rest)" using Cons False by simp
    finally show ?thesis .
  qed
qed simp

lemma csv_read_csv_line:
  assumes "plain_row fs" and "n = 0 \<or> n = length fs"
  shows "csv_read \<lparr>csv_input = csv_line fs @ s, FieldsPerRecord = n\<rparr>
       = (CsvRecord fs None, \<lparr>csv_input = s, FieldsPerRecord = length fs\<rparr>)"
  using assms read_fields_csv_line [of fs "[]" s]
  by (auto simp: csv_read_def skip_blank_csv_line plain_row_def)

text \<open>Rows of one width written without quotes are read back unchanged, with no error.\<close>

lemma csv_all_plain:
  assumes "list_all plain_row rows" and "\<And>r. r \<in> set rows \<Longrightarrow> length r = k"
    and "n = 0 \<or> n = k"
  shows "csv_all \<lparr>csv_input = concat (map csv_line rows), FieldsPerRecord = n\<rparr>
       = map (\<lambda>r. (r, None)) rows"
  using assms
proof (induction rows arbitrary: n)
  case Nil
  show ?case by (simp add: csv_all.simps csv_read_def skip_blank.simps)
next
  case (Cons r rows)
  then have "csv_read \<lparr>csv_input = csv_line r @ concat (map csv_line rows), FieldsPerRecord = n\<rparr>
      = (CsvRecord r None, \<lparr>csv_input = concat (map csv_line rows), FieldsPerRecord = k\<rparr>)"
    by (subst csv_read_csv_line) auto
  with Cons show ?case by (subst csv_all.simps) simp
qed

end
