(* ===== verification/Cache_List.thy ===== *)
theory Cache_List
  imports Casadm Csv_Reader
begin

text \<open>
  The caches and cached volumes of \<^verbatim>\<open>pkg/opencas/api.go\<close>, and \<^verbatim>\<open>parseCacheList\<close>, which reads them from
  the output of \<^verbatim>\<open>casadm --list-caches\<close>. The lemmas show that the loop is a fold over the records of
  the text, that every list it returns is well formed, and that it reads back what the list
  command prints.

  A \<^verbatim>\<open>*Cache\<close> and the \<^verbatim>\<open>*CachedVolume\<close>s in it point to each other. Nothing is written through these
  pointers once the list is built, so a cached volume carries the plain fields of its cache.
\<close>

section \<open>Data\<close>

record CacheHeader =
  CacheId :: int
  DevicePath :: string
  CacheStatus :: string
  CacheMode :: CacheMode

record CachedVolume =
  CoreId :: int
  BackendPath :: string
  CoreStatus :: string
  Path :: string
  CacheOf :: CacheHeader

record Cache = CacheHeader +
  CacheVolumes :: "(string \<times> CachedVolume) list"

section \<open>Parsing the list of caches\<close>

text \<open>
  One record of the list: \<^term>\<open>None\<close> ends the loop (\<^verbatim>\<open>break iteration\<close>). \<^verbatim>\<open>cache\<close> is the last element of
  \<^verbatim>\<open>caches\<close>, and \<^verbatim>\<open>nil\<close> as long as there is none. The error of \<^verbatim>\<open>Atoi\<close> is dropped.
\<close>

definition parseCacheList_row :: "Cache list \<Rightarrow> string list \<Rightarrow> Cache list option outcome" where
  "parseCacheList_row caches params =
     obnd (idx params 0) (\<lambda>kind.
     if kind = ''type'' then Ret (Some caches)
     else if kind = ''cache'' then
       obnd (idx params 1) (\<lambda>cid. obnd (idx params 2) (\<lambda>disk. obnd (idx params 3) (\<lambda>st.
       obnd (idx params 4) (\<lambda>mode.
       Ret (Some (caches @ [\<lparr>CacheId = fst (Atoi cid), DevicePath = disk, CacheStatus = st,
         CacheMode = mode, CacheVolumes = []\<rparr>]))))))
     else if kind = ''core'' then
       obnd (idx params 1) (\<lambda>cid. obnd (idx params 2) (\<lambda>backendPath.
       if caches = [] then Panic NilDereference
       else
         (let cache = last caches in
          obnd (idx params 3) (\<lambda>st. obnd (idx params 5) (\<lambda>dev.
          Ret (Some (butlast caches @ [cache\<lparr>CacheVolumes :=
            AList.update backendPath
              \<lparr>CoreId = fst (Atoi cid), BackendPath = backendPath, CoreStatus = st, Path = dev,
               CacheOf = CacheHeader.truncate cache\<rparr> (CacheVolumes cache)\<rparr>])))))))
     else if kind = ''core pool'' then Ret None
     else Ret (Some caches))"

function parseCacheList_loop :: "Cache list \<Rightarrow> csv_reader \<Rightarrow> Cache list outcome" where
  "parseCacheList_loop caches r =
     (case csv_read r of
        (CsvEOF, r') \<Rightarrow> Ret caches
      | (CsvRecord params err, r') \<Rightarrow>
          (case parseCacheList_row caches params of
             Panic p \<Rightarrow> Panic p
           | Ret None \<Rightarrow> Ret caches
           | Ret (Some caches') \<Rightarrow> parseCacheList_loop caches' r'))"
  by pat_completeness auto
termination
  by (relation "measure (\<lambda>(caches, r). length (csv_input r))") (auto dest: csv_read_progress [OF sym])

declare parseCacheList_loop.simps [simp del]

definition parseCacheList :: "string \<Rightarrow> Cache list outcome" where
  "parseCacheList output = parseCacheList_loop [] (NewReader output)"

text \<open>\<^verbatim>\<open>cache.Volumes[backendPath]\<close> in the first cache that has it.\<close>

fun find_volume :: "Cache list \<Rightarrow> string \<Rightarrow> CachedVolume option" where
  "find_volume [] backendPath = None"
| "find_volume (cache # caches) backendPath =
     (case map_of (CacheVolumes cache) backendPath of
        Some core \<Rightarrow> Some core
      | None \<Rightarrow> find_volume caches backendPath)"

section \<open>The parser is a fold over the records\<close>

text \<open>
  The loop and the reader it drives come apart: the list of caches is a function of the records of
  the text, and the errors of the reader play no part in it.
\<close>

fun parse_rows :: "Cache list \<Rightarrow> string list list \<Rightarrow> Cache list outcome" where
  "parse_rows caches [] = Ret caches"
| "parse_rows caches (row # rows) =
     (case parseCacheList_row caches row of
        Panic p \<Rightarrow> Panic p
      | Ret None \<Rightarrow> Ret caches
      | Ret (Some caches') \<Rightarrow> parse_rows caches' rows)"

lemma parseCacheList_loop_rows: "parseCacheList_loop caches r = parse_rows caches (map fst (csv_all r))"
proof (induction caches r rule: parseCacheList_loop.induct)
  case (1 caches r)
  obtain x r' where run: "csv_read r = (x, r')" by fastforce
  show ?case
  proof (cases x)
    case (CsvRecord params err)
    then show ?thesis using 1 [OF run [symmetric] CsvRecord] run
      by (simp add: parseCacheList_loop.simps [of caches r] csv_all.simps [of r]
          split: outcome.split option.split)
  qed (use run in \<open>simp add: parseCacheList_loop.simps [of caches r] csv_all.simps [of r]\<close>)
qed

lemma parseCacheList_rows: "parseCacheList output = parse_rows [] (map fst (csv_all (NewReader output)))"
  by (simp add: parseCacheList_def parseCacheList_loop_rows)

section \<open>What the parser guarantees of every list it returns\<close>

text \<open>
  Every cache has distinct core paths, and every cached volume is filed under its own path and
  points to the cache it is filed in. Ids are those of \<^verbatim>\<open>Atoi\<close> and fit an \<^verbatim>\<open>int\<close>.
\<close>

definition cache_ok :: "Cache \<Rightarrow> bool" where
  "cache_ok c \<longleftrightarrow> - (2 ^ 63) \<le> CacheId c \<and> CacheId c < 2 ^ 63 \<and> distinct (map fst (CacheVolumes c)) \<and>
     list_all (\<lambda>(p, v). BackendPath v = p \<and> CacheOf v = CacheHeader.truncate c \<and>
       - (2 ^ 63) \<le> CoreId v \<and> CoreId v < 2 ^ 63) (CacheVolumes c)"

lemma set_update_subset: "set (AList.update k v xs) \<subseteq> insert (k, v) (set xs)"
  by (induction xs) auto

lemma parseCacheList_row_ok:
  assumes "list_all cache_ok caches" and "parseCacheList_row caches row = Ret (Some caches')"
  shows "list_all cache_ok caches'"
proof -
  have core: "cache_ok (c\<lparr>CacheVolumes := AList.update p \<lparr>CoreId = fst (Atoi s), BackendPath = p, CoreStatus = st,
      Path = d, CacheOf = CacheHeader.truncate c\<rparr> (CacheVolumes c)\<rparr>)" if "cache_ok c" for c p s st d
    using that Atoi_range [of s] set_update_subset [of p _ "CacheVolumes c"]
    by (fastforce simp: cache_ok_def distinct_update list_all_iff CacheHeader.defs)
  have last: "cache_ok (last caches)" and init: "list_all cache_ok (butlast caches)" if "caches \<noteq> []"
    using assms(1) that by (auto simp: list_all_iff dest: in_set_butlastD)
  show ?thesis
    using assms core last init Atoi_range
    by (auto simp: parseCacheList_row_def obnd_Ret_iff idx_Ret_iff Let_def cache_ok_def [of "\<lparr>CacheId = _, DevicePath = _, CacheStatus = _, CacheMode = _, CacheVolumes = _\<rparr>"]
        split: if_splits)
qed

lemma parse_rows_ok:
  "list_all cache_ok caches \<Longrightarrow> parse_rows caches rows = Ret caches' \<Longrightarrow> list_all cache_ok caches'"
  by (induction caches rows rule: parse_rows.induct)
    (auto split: outcome.splits option.splits dest: parseCacheList_row_ok)

lemma parseCacheList_ok: "parseCacheList output = Ret caches \<Longrightarrow> list_all cache_ok caches"
  using parse_rows_ok [of "[]"] by (simp add: parseCacheList_rows)

lemma find_volume_path:
  "list_all cache_ok caches \<Longrightarrow> find_volume caches p = Some v \<Longrightarrow>
     BackendPath v = p \<and> (\<exists>c\<in>set caches. CacheOf v = CacheHeader.truncate c \<and> (p, v) \<in> set (CacheVolumes c))"
  by (induction caches)
    (auto simp: cache_ok_def list_all_iff split: option.splits dest!: map_of_SomeD)

section \<open>Printing and parsing\<close>

definition list_header :: "string list" where
  "list_header = [''type'', ''id'', ''disk'', ''status'', ''write policy'', ''device'']"

definition cache_row :: "Cache \<Rightarrow> string list" where
  "cache_row c = [''cache'', fmt_int (CacheId c), DevicePath c, CacheStatus c, CacheMode c, ''-'']"

definition core_row :: "string \<times> CachedVolume \<Rightarrow> string list" where
  "core_row pv = [''core'', fmt_int (CoreId (snd pv)), fst pv, CoreStatus (snd pv), ''-'', Path (snd pv)]"

definition list_rows :: "Cache list \<Rightarrow> string list list" where
  "list_rows caches = list_header # concat (map (\<lambda>c. cache_row c # map core_row (CacheVolumes c)) caches)"

text \<open>The text \<^verbatim>\<open>casadm --list-caches --output-format csv\<close> prints, in the format the parser documents.\<close>

definition print_cache_list :: "Cache list \<Rightarrow> string" where
  "print_cache_list caches = concat (map csv_line (list_rows caches))"

definition cache_plain :: "Cache \<Rightarrow> bool" where
  "cache_plain c \<longleftrightarrow> plain_field (DevicePath c) \<and> plain_field (CacheStatus c) \<and> plain_field (CacheMode c) \<and>
     list_all (\<lambda>(p, v). plain_field p \<and> plain_field (CoreStatus v) \<and> plain_field (Path v)) (CacheVolumes c)"

lemma AList_update_new: "k \<notin> set (map fst xs) \<Longrightarrow> AList.update k v xs = xs @ [(k, v)]"
  by (induction xs) auto

lemma parse_rows_cores:
  assumes "list_all (\<lambda>(p, v). BackendPath v = p \<and> CacheOf v = CacheHeader.truncate c \<and>
      - (2 ^ 63) \<le> CoreId v \<and> CoreId v < 2 ^ 63) vs"
    and "distinct (map fst (old @ vs))"
  shows "parse_rows (pre @ [c\<lparr>CacheVolumes := old\<rparr>]) (map core_row vs @ rows) =
    parse_rows (pre @ [c\<lparr>CacheVolumes := old @ vs\<rparr>]) rows"
  using assms
proof (induction vs arbitrary: old)
  case (Cons pv vs)
  obtain p v where pv: "pv = (p, v)" by fastforce
  have v: "BackendPath v = p" "CacheOf v = CacheHeader.truncate c" "Atoi (fmt_int (CoreId v)) = (CoreId v, None)"
    using Cons.prems pv by (auto intro: Atoi_fmt_int)
  have "AList.update p v old = old @ [(p, v)]"
    using Cons.prems pv by (intro AList_update_new) auto
  moreover have "\<lparr>CoreId = CoreId v, BackendPath = p, CoreStatus = CoreStatus v, Path = Path v,
      CacheOf = CacheHeader.truncate (c\<lparr>CacheVolumes := old\<rparr>)\<rparr> = v"
    using v by (simp add: CacheHeader.defs)
  ultimately have "parseCacheList_row (pre @ [c\<lparr>CacheVolumes := old\<rparr>]) (core_row pv) =
      Ret (Some (pre @ [c\<lparr>CacheVolumes := old @ [(p, v)]\<rparr>]))"
    using v pv by (simp add: parseCacheList_row_def core_row_def idx_def Let_def)
  then show ?case using Cons.IH [of "old @ [(p, v)]"] Cons.prems pv by simp
qed simp

lemma parse_rows_caches:
  "list_all cache_ok caches \<Longrightarrow>
     parse_rows pre (concat (map (\<lambda>c. cache_row c # map core_row (CacheVolumes c)) caches) @ rest) =
     parse_rows (pre @ caches) rest"
proof (induction caches arbitrary: pre)
  case (Cons c caches)
  have row: "parseCacheList_row pre (cache_row c) = Ret (Some (pre @ [c\<lparr>CacheVolumes := []\<rparr>]))"
    using Cons.prems Atoi_fmt_int [of "CacheId c"]
    by (simp add: parseCacheList_row_def cache_row_def idx_def cache_ok_def)
  have "parse_rows (pre @ [c\<lparr>CacheVolumes := []\<rparr>]) (map core_row (CacheVolumes c) @ rows) =
      parse_rows (pre @ [c]) rows" for rows
    using parse_rows_cores [of c "CacheVolumes c" "[]" pre rows] Cons.prems by (simp add: cache_ok_def)
  then show ?case using row Cons.IH [of "pre @ [c]"] Cons.prems by simp
qed simp

lemma fmt_int_plain [simp]: "plain_field (fmt_int i)"
proof -
  have "plain_field (nat_str n)" for n
    using nat_str_digits [of n] by (auto simp: plain_field_def list_all_iff is_digit_def)
  then show ?thesis by (simp add: fmt_int_def plain_field_def)
qed

lemma list_rows_plain:
  assumes "list_all cache_plain caches"
  shows "list_all plain_row (list_rows caches)" and "r \<in> set (list_rows caches) \<Longrightarrow> length r = 6"
proof -
  have words: "plain_field ''type''" "plain_field ''id''" "plain_field ''disk''" "plain_field ''status''"
    "plain_field ''write policy''" "plain_field ''device''" "plain_field ''cache''" "plain_field ''core''" "plain_field ''-''"
    by (simp_all add: plain_field_def)
  show "list_all plain_row (list_rows caches)"
    using assms words
    by (fastforce simp: list_rows_def list_header_def cache_row_def core_row_def plain_row_def cache_plain_def list_all_iff)
  show "r \<in> set (list_rows caches) \<Longrightarrow> length r = 6"
    by (auto simp: list_rows_def list_header_def cache_row_def core_row_def)
qed

text \<open>
  What the tool may print for a list of caches: their rows, and after them, on a node with a pool of cores that wait for their cache,
  a row for the pool and the rows of those cores. The row of the pool ends the loop of the parser.
\<close>

definition list_text :: "Cache list \<Rightarrow> string \<Rightarrow> bool" where
  "list_text caches s \<longleftrightarrow>
     (\<exists>pool. list_all (\<lambda>r. plain_row r \<and> length r = 6) pool \<and> (pool \<noteq> [] \<longrightarrow> hd (hd pool) = ''core pool'') \<and>
        s = print_cache_list caches @ concat (map csv_line pool))"

lemma list_text_print: "list_text caches (print_cache_list caches)"
  unfolding list_text_def by (intro exI [of _ "[]"]) simp

lemma parse_list_text:
  assumes "list_all cache_ok caches" and "list_all cache_plain caches" and "list_text caches s"
  shows "parseCacheList s = Ret caches"
proof -
  from assms(3) obtain pool where pool: "list_all (\<lambda>r. plain_row r \<and> length r = 6) pool"
    "pool \<noteq> [] \<Longrightarrow> hd (hd pool) = ''core pool''" and s: "s = concat (map csv_line (list_rows caches @ pool))"
    unfolding list_text_def print_cache_list_def by auto
  have "csv_all (NewReader s) = map (\<lambda>r. (r, None)) (list_rows caches @ pool)"
    unfolding NewReader_def s
    by (rule csv_all_plain [where k = 6]) (use list_rows_plain [OF assms(2)] pool(1) in \<open>auto simp: list_all_iff\<close>)
  then have "parseCacheList s = parse_rows [] (list_rows caches @ pool)"
    by (simp add: parseCacheList_rows comp_def)
  moreover have "parseCacheList_row [] list_header = Ret (Some [])"
    by (simp add: parseCacheList_row_def list_header_def idx_def)
  moreover have "parse_rows caches pool = Ret caches"
    using pool by (cases pool; cases "hd pool") (auto simp: parseCacheList_row_def idx_def plain_row_def)
  ultimately show ?thesis
    using parse_rows_caches [OF assms(1), of "[]" pool] by (simp add: list_rows_def)
qed

lemma parse_print:
  "list_all cache_ok caches \<Longrightarrow> list_all cache_plain caches \<Longrightarrow> parseCacheList (print_cache_list caches) = Ret caches"
  by (rule parse_list_text [OF _ _ list_text_print])

end
