(* ===== verification/Reference_Cluster.thy ===== *)
theory Reference_Cluster
  imports K8s_Utils Cache_List
begin

text \<open>
  A small executable cluster: an instance of the parameters of the model on which the properties
  are run on concrete inputs. The API server keeps its claims and pods in association lists, the node
  has a list of caches, a list of paths and a mount table. A job executes its \<^verbatim>\<open>casadm\<close> command on the
  caches, and the log of its pod is the list of the caches. The laws the properties assume about an API server are proved of this one. The last two fields, the
  arguments of the last job and the finalizers of the resources, are for the operator, whose
  theories extend the cluster.
\<close>

section \<open>A store of objects\<close>

type_synonym 'o store = "(key \<times> 'o) list"

definition mem_obs :: "('o \<Rightarrow> ObjectMeta) \<Rightarrow> 'o store \<Rightarrow> key \<Rightarrow> 'o option" where
  "mem_obs meta xs k =
     (case map_of xs k of
        None \<Rightarrow> None
      | Some obj \<Rightarrow> if snd k \<noteq> [] \<and> Name (meta obj) = snd k \<and> Namespace (meta obj) = fst k then Some obj else None)"

definition mem_not_found :: "string \<Rightarrow> error" where
  "mem_not_found n = Error (fmt_q n @ '' not found'') KNotFound"

definition mem_get ::
  "('o \<Rightarrow> ObjectMeta) \<Rightarrow> 'o \<Rightarrow> string \<Rightarrow> string \<Rightarrow> 'o store \<Rightarrow> ('o \<times> error option) \<times> 'o store" where
  "mem_get meta zero ns n xs =
     (case mem_obs meta xs (ns, n) of
        None \<Rightarrow> ((zero, Some (mem_not_found n)), xs)
      | Some obj \<Rightarrow> ((obj, None), xs))"

definition mem_create ::
  "('o \<Rightarrow> ObjectMeta) \<Rightarrow> (ObjectMeta \<Rightarrow> 'o \<Rightarrow> 'o) \<Rightarrow> string \<Rightarrow> 'o \<Rightarrow> 'o store \<Rightarrow> ('o \<times> error option) \<times> 'o store" where
  "mem_create meta set_meta ns obj xs =
     (let k = (ns, Name (meta obj)) in
      if snd k = [] then ((obj, Some (errorf ''name is required'')), xs)
      else if Namespace (meta obj) \<noteq> [] \<and> Namespace (meta obj) \<noteq> ns then
        ((obj, Some (errorf ''namespace mismatch'')), xs)
      else if mem_obs meta xs k \<noteq> None then ((obj, Some (errorf ''already exists'')), xs)
      else let obj' = set_meta ((meta obj)\<lparr>Namespace := ns, DeletionTimestamp := None\<rparr>) obj
           in ((obj', None), (k, obj') # xs))"

definition mem_update ::
  "('o \<Rightarrow> ObjectMeta) \<Rightarrow> (ObjectMeta \<Rightarrow> 'o \<Rightarrow> 'o) \<Rightarrow> string \<Rightarrow> 'o \<Rightarrow> 'o store \<Rightarrow> ('o \<times> error option) \<times> 'o store" where
  "mem_update meta set_meta ns obj xs =
     (let k = (ns, Name (meta obj)) in
      if mem_obs meta xs k = None then ((obj, Some (mem_not_found (Name (meta obj)))), xs)
      else let obj' = set_meta ((meta obj)\<lparr>Namespace := ns\<rparr>) obj in ((obj', None), (k, obj') # xs))"

definition mem_delete ::
  "('o \<Rightarrow> ObjectMeta) \<Rightarrow> string \<Rightarrow> string \<Rightarrow> 'o store \<Rightarrow> error option \<times> 'o store" where
  "mem_delete meta ns n xs =
     (if mem_obs meta xs (ns, n) = None then (Some (mem_not_found n), xs)
      else (None, filter (\<lambda>(k, obj). k \<noteq> (ns, n)) xs))"

lemma mem_not_found_text [simp]: "NotFoundText (mem_not_found n)"
  unfolding NotFoundText_def mem_not_found_def Contains_iff
  by (rule exI [of _ "fmt_q n @ '' ''"], rule exI [of _ "[]"]) simp

lemma mem_obs_Cons: "mem_obs meta ((k, obj) # xs) k' =
    (if k' = k then if snd k \<noteq> [] \<and> Name (meta obj) = snd k \<and> Namespace (meta obj) = fst k then Some obj else None
     else mem_obs meta xs k')"
  by (simp add: mem_obs_def)

lemma mem_obs_delete: "mem_obs meta (filter (\<lambda>(k, obj). k \<noteq> k0) xs) k = (if k = k0 then None else mem_obs meta xs k)"
proof -
  have "map_of (filter (\<lambda>(k, obj). k \<noteq> k0) xs) k = (if k = k0 then None else map_of xs k)"
    by (induction xs) auto
  then show ?thesis by (simp add: mem_obs_def)
qed

lemma mem_obs_name: "mem_obs meta xs (ns, n) = Some obj \<Longrightarrow> n \<noteq> [] \<and> Name (meta obj) = n \<and> Namespace (meta obj) = ns"
  by (auto simp: mem_obs_def split: option.splits if_splits)

lemma mem_store_laws:
  assumes set_meta: "\<And>m obj. meta (set_meta m obj) = m" and zero: "Name (meta zero) = []"
    and stored: "\<And>obj ns. Namespace (meta obj) = [] \<or> Namespace (meta obj) = ns \<Longrightarrow>
      stored obj (set_meta ((meta obj)\<lparr>Namespace := ns, DeletionTimestamp := None\<rparr>) obj)"
  shows "store_laws meta stored (mem_get meta zero) (mem_create meta set_meta) (mem_update meta set_meta)
    (mem_delete meta) (mem_obs meta)"
  unfolding store_laws_def
proof (intro conjI)
  show "get_law meta (mem_get meta zero) (mem_obs meta)"
    using zero by (auto simp: get_law_def mem_get_def dest: mem_obs_name split: option.splits)
  show "create_law meta stored (mem_create meta set_meta) (mem_obs meta)"
    using set_meta stored
    by (auto simp: create_law_def mem_create_def Let_def frame_def mem_obs_Cons split: if_splits)
  have "n \<noteq> []" if "mem_obs meta xs (ns, n) \<noteq> None" for xs ns n
    using that mem_obs_name by fastforce
  then show "update_law meta (mem_update meta set_meta) (mem_obs meta)"
    using set_meta
    by (fastforce simp: update_law_def mem_update_def Let_def frame_def mem_obs_Cons split: if_splits)
  show "delete_law meta (mem_delete meta) (mem_obs meta)"
    by (auto simp: delete_law_def mem_delete_def frame_def mem_obs_delete split: if_splits)
qed

section \<open>The cluster\<close>

record mem =
  MemClaims :: "PersistentVolumeClaim store"
  MemPods :: "Pod store"
  MemClasses :: "string list"
  MemVolumes :: "string list"
  MemNodes :: "(string \<times> Node) list"
  MemCaches :: "Cache list"
  MemPaths :: "string list"
  MemMounts :: "MountPoint list"
  MemLast :: "string list"
  MemFinalizers :: "(string \<times> string list) list"

definition on_claims ::
  "(PersistentVolumeClaim store \<Rightarrow> 'a \<times> PersistentVolumeClaim store) \<Rightarrow> mem \<Rightarrow> 'a \<times> mem" where
  "on_claims f x = (let (a, s) = f (MemClaims x) in (a, x\<lparr>MemClaims := s\<rparr>))"

definition on_pods :: "(Pod store \<Rightarrow> 'a \<times> Pod store) \<Rightarrow> mem \<Rightarrow> 'a \<times> mem" where
  "on_pods f x = (let (a, s) = f (MemPods x) in (a, x\<lparr>MemPods := s\<rparr>))"

definition named :: "string \<Rightarrow> ObjectMeta" where
  "named n = ObjectMeta_zero\<lparr>Name := n\<rparr>"

text \<open>The caches the node reports, and the commands that change them.\<close>

definition mem_caches :: "mem \<Rightarrow> Cache list" where
  "mem_caches x = filter (\<lambda>c. cache_ok c \<and> cache_plain c) (MemCaches x)"

definition mem_add_core :: "string \<Rightarrow> Cache \<Rightarrow> Cache" where
  "mem_add_core path c =
     (let j = int (length (CacheVolumes c)) + 1 in
      c\<lparr>CacheVolumes := AList.update path
         \<lparr>CoreId = j, BackendPath = path, CoreStatus = ''Active'',
          Path = ''/dev/cas'' @ fmt_int (CacheId c) @ ''-'' @ fmt_int j, CacheOf = CacheHeader.truncate c\<rparr>
         (CacheVolumes c)\<rparr>)"

definition with_mode :: "string \<Rightarrow> Cache \<Rightarrow> Cache" where
  "with_mode mode c =
     c\<lparr>CacheMode := mode, CacheVolumes := map (\<lambda>(p, v). (p, v\<lparr>CacheOf := (CacheOf v)\<lparr>CacheMode := mode\<rparr>\<rparr>)) (CacheVolumes c)\<rparr>"

definition mem_casadm :: "string list \<Rightarrow> Cache list \<Rightarrow> Cache list" where
  "mem_casadm argv cs =
     (let on = (\<lambda>i f. map (\<lambda>c. if fmt_int (CacheId c) = i then f c else c) cs); n = length argv in
      if n < 4 then cs
      else if argv ! 1 = ''--start-cache'' \<and> 4 < n then
        cs @ [\<lparr>CacheId = int (length cs) + 1, DevicePath = argv ! 4, CacheStatus = ''Running'',
          CacheMode = (if 6 < n \<and> argv ! 5 = ''--cache-mode'' then argv ! 6 else ''wt''), CacheVolumes = []\<rparr>]
      else if argv ! 1 = ''--stop-cache'' then filter (\<lambda>c. fmt_int (CacheId c) \<noteq> argv ! 3) cs
      else if argv ! 1 = ''--add-core'' \<and> 5 < n then on (argv ! 3) (mem_add_core (argv ! 5))
      else if argv ! 1 = ''--remove-core'' \<and> 5 < n then
        on (argv ! 3) (\<lambda>c. c\<lparr>CacheVolumes := filter (\<lambda>(p, v). fmt_int (CoreId v) \<noteq> argv ! 5) (CacheVolumes c)\<rparr>)
      else if argv ! 1 = ''--set-cache-mode'' \<and> 5 < n \<and> plain_field (argv ! 5) then on (argv ! 3) (with_mode (argv ! 5))
      else cs)"

definition mem_devices :: "mem \<Rightarrow> string list" where
  "mem_devices x = concat (map (\<lambda>c. map (\<lambda>(p, v). Path v) (CacheVolumes c)) (mem_caches x))"

definition job_argv :: "Job \<Rightarrow> string list" where
  "job_argv job = concat (map Command (Containers (JobPodSpec job)))"

definition mem_kube :: "mem kube" where
  "mem_kube =
     \<lparr>BuildConfigFromFlags = (\<lambda>_ x. (None, x)), InClusterConfig = (\<lambda>x. (None, x)), NewForConfig = (\<lambda>x. (None, x)),
      PVCs_Get = (\<lambda>ns n. on_claims (mem_get PvcMeta PersistentVolumeClaim_zero ns n)),
      PVCs_Create = (\<lambda>ns pvc. on_claims (mem_create PvcMeta (\<lambda>m p. p\<lparr>PvcMeta := m\<rparr>) ns pvc)),
      PVCs_Update = (\<lambda>ns pvc. on_claims (mem_update PvcMeta (\<lambda>m p. p\<lparr>PvcMeta := m\<rparr>) ns pvc)),
      PVCs_Delete = (\<lambda>ns n. on_claims (mem_delete PvcMeta ns n)),
      PVs_Get = (\<lambda>n x. if n \<noteq> [] \<and> n \<in> set (MemVolumes x) then ((\<lparr>PvMeta = named n\<rparr>, None), x)
                       else ((\<lparr>PvMeta = named []\<rparr>, Some (mem_not_found n)), x)),
      SCs_Get = (\<lambda>n x. if n \<noteq> [] \<and> n \<in> set (MemClasses x) then ((\<lparr>ScMeta = named n\<rparr>, None), x)
                       else ((\<lparr>ScMeta = named []\<rparr>, Some (mem_not_found n)), x)),
      Nodes_Get = (\<lambda>n x. case map_of (MemNodes x) n of
                       Some node \<Rightarrow> ((node, None), x)
                     | None \<Rightarrow> ((\<lparr>NodeMeta = named [], Conditions = []\<rparr>, Some (mem_not_found n)), x)),
      Pods_Get = (\<lambda>ns n. on_pods (mem_get PodMeta Pod_zero ns n)),
      Pods_Create = (\<lambda>ns pod. on_pods (mem_create PodMeta (\<lambda>m p. p\<lparr>PodMeta := m\<rparr>) ns pod)),
      Pods_Update = (\<lambda>ns pod. on_pods (mem_update PodMeta (\<lambda>m p. p\<lparr>PodMeta := m\<rparr>) ns pod)),
      Pods_Delete = (\<lambda>ns n. on_pods (mem_delete PodMeta ns n)),
      Pods_List = (\<lambda>ns f l x. (([Pod_zero\<lparr>PodMeta := named ''casadm'', ContainerStatuses := [\<lparr>Terminated = Some 0\<rparr>]\<rparr>], None), x)),
      Pods_Watch = (\<lambda>ns m x. (([WEvent (Pod_zero\<lparr>PodMeta := m, Phase := PodRunning\<rparr>)], None), x)),
      Pods_Logs = (\<lambda>ns n x. (Inl (print_cache_list (mem_caches x), None), x)),
      Jobs_Create = (\<lambda>ns job x. ((job, None), x\<lparr>MemCaches := mem_casadm (job_argv job) (MemCaches x)\<rparr>)),
      Jobs_Delete = (\<lambda>ns n x. (None, x)),
      Jobs_Watch = (\<lambda>ns m x. (([WEvent (Job_zero\<lparr>JobMeta := m, Succeeded := 1\<rparr>)], None), x))\<rparr>"

definition mem_host :: "(string \<Rightarrow> proc_result) \<Rightarrow> mem host" where
  "mem_host shell =
     \<lparr>RunShell = (\<lambda>cmd x.
        if HasPrefix cmd ''ls -1 '' then (Exited [] (if drop 6 cmd \<in> set (mem_devices x) then 0 else 2), x)
        else if HasPrefix cmd ''mkdir -p '' then
          (Exited [] 0, x\<lparr>MemPaths := List.insert (last (Split cmd '' '')) (MemPaths x)\<rparr>)
        else (shell cmd, x)),
      CmdOutput = (\<lambda>cmd args x. (([], None), x)),
      OsStat = (\<lambda>p x. (if p \<in> set (MemPaths x) then None else Some (Error ''no such file or directory'' KNotExist), x)),
      OsRemove = (\<lambda>p x. if p \<in> set (MemPaths x) then (None, x\<lparr>MemPaths := filter (\<lambda>q. q \<noteq> p) (MemPaths x)\<rparr>)
                        else (Some (Error ''no such file or directory'' KNotExist), x)),
      OsMkdir = (\<lambda>p mode x. if p \<in> set (MemPaths x) then (Some (Error ''file exists'' KExist), x)
                        else (None, x\<lparr>MemPaths := p # MemPaths x\<rparr>)),
      OsCreateFile = (\<lambda>p mode x. (None, x\<lparr>MemPaths := List.insert p (MemPaths x)\<rparr>)),
      IsLikelyNotMountPoint = (\<lambda>p x.
        if p \<in> set (map MpPath (MemMounts x)) then ((False, None), x)
        else if p \<in> set (MemPaths x) then ((True, None), x)
        else ((True, Some (Error ''no such file or directory'' KNotExist)), x)),
      IsMountPoint = (\<lambda>p x. ((p \<in> set (map MpPath (MemMounts x)), None), x)),
      MounterMount = (\<lambda>src p fs opts x. (None,
                        x\<lparr>MemMounts := \<lparr>MpDevice = src, MpPath = p, MpType = fs, MpOpts = opts\<rparr> # MemMounts x\<rparr>)),
      MounterUnmount = (\<lambda>p x. (None, x\<lparr>MemMounts := filter (\<lambda>m. MpPath m \<noteq> p) (MemMounts x)\<rparr>)),
      MounterList = (\<lambda>x. ((MemMounts x, None), x)),
      GetDeviceNameFromMount = (\<lambda>p x. (case filter (\<lambda>m. MpPath m = p) (MemMounts x) of
                        [] \<Rightarrow> (([], 0), None)
                      | m # _ \<Rightarrow> ((''/dev'' @ MpDevice m, 1), None), x))\<rparr>"

definition mem_env :: "(string \<Rightarrow> proc_result) \<Rightarrow> mem env" where
  "mem_env shell = \<lparr>kube = mem_kube, host = mem_host shell, Getenv = (\<lambda>_. []),
     RangeOrder = (\<lambda>entries x. (entries, x))\<rparr>"

definition mem_claims :: "mem \<Rightarrow> key \<Rightarrow> PersistentVolumeClaim option" where
  "mem_claims x = mem_obs PvcMeta (MemClaims x)"

definition mem_pods :: "mem \<Rightarrow> key \<Rightarrow> Pod option" where
  "mem_pods x = mem_obs PodMeta (MemPods x)"


lemma mem_pvc_laws: "pvc_laws (mem_env shell) mem_claims"
proof -
  have "store_laws PvcMeta pvc_stored (mem_get PvcMeta PersistentVolumeClaim_zero)
      (mem_create PvcMeta (\<lambda>m p. p\<lparr>PvcMeta := m\<rparr>)) (mem_update PvcMeta (\<lambda>m p. p\<lparr>PvcMeta := m\<rparr>))
      (mem_delete PvcMeta) (mem_obs PvcMeta)"
    by (rule mem_store_laws) (auto simp: pvc_stored_def)
  then show ?thesis
    unfolding pvc_laws_def store_laws_def get_law_def create_law_def update_law_def delete_law_def
      mem_env_def mem_kube_def mem_claims_def on_claims_def frame_def
    by (simp add: Let_def split_beta prod_eq_iff)
qed

lemma mem_pod_laws: "pod_laws (mem_env shell) mem_pods"
proof -
  have "store_laws PodMeta pod_stored (mem_get PodMeta Pod_zero)
      (mem_create PodMeta (\<lambda>m p. p\<lparr>PodMeta := m\<rparr>)) (mem_update PodMeta (\<lambda>m p. p\<lparr>PodMeta := m\<rparr>))
      (mem_delete PodMeta) (mem_obs PodMeta)"
    by (rule mem_store_laws) (auto simp: pod_stored_def)
  then show ?thesis
    unfolding pod_laws_def store_laws_def get_law_def create_law_def update_law_def delete_law_def
      mem_env_def mem_kube_def mem_pods_def on_pods_def frame_def
    by (simp add: Let_def split_beta prod_eq_iff)
qed

lemma mem_get_state [simp]: "snd (mem_get meta zero ns n xs) = xs"
  by (simp add: mem_get_def split: option.split)

text \<open>Reads leave the whole state as it is, so they are quiet for every observation.\<close>

lemma mem_quiet: "reads_quiet (mem_env shell) obs"
  unfolding reads_quiet_def mem_env_def mem_kube_def on_claims_def on_pods_def
  by (simp add: Let_def split_beta split: option.split)

text \<open>Listing a device does not change the state, and the list command prints it.\<close>

lemma mem_shell_ls: "snd (RunShell (host (mem_env shell)) (''ls -1 '' @ path) x) = x"
  by (simp add: mem_env_def mem_host_def)

lemma mem_job_output:
  assumes "returns (ExecCommandJob (mem_env shell) job) w (Some out, None) w'"
  shows "StdOut out = print_cache_list (mem_caches (outside w'))"
  using assms
  by (auto simp: ExecCommandJob_def ExecCommandJob_collect_def returns_simps mem_env_def mem_kube_def Let_def
      split: prod.splits)

lemma mem_caches_ok: "list_all cache_ok (mem_caches x)" "list_all cache_plain (mem_caches x)"
  by (simp_all add: mem_caches_def list_all_iff)

definition mem_mounted :: "mem \<Rightarrow> string set" where
  "mem_mounted x = set (map MpPath (MemMounts x))"

lemma mem_shell_keeps: "MemMounts (snd (RunShell (mem_host shell) cmd x)) = MemMounts x"
  "MemCaches (snd (RunShell (mem_host shell) cmd x)) = MemCaches x"
  by (simp_all add: mem_host_def)

end
