(* ===== verification/Open_Cas.thy ===== *)
theory Open_Cas
  imports Reference_Cluster
begin

text \<open>
  \<^verbatim>\<open>pkg/opencas/api.go\<close>: the Open CAS manager. It runs \<^verbatim>\<open>casadm\<close> in a job on the node, reads the list
  of caches and cores from the job's log, and offers the operations the node server and the
  operator use: start and stop a cache, add and remove a core, change the mode of a cache.
\<close>

section \<open>Data\<close>

record OpenCAS =
  CasNodeId :: string
  CasNamespace :: string

section \<open>Statistics\<close>

definition parseStats :: "string \<Rightarrow> string gomap \<times> error option" where
  "parseStats output =
     (case csv_read (NewReader output) of
        (CsvEOF, r) \<Rightarrow> (None, Some (errorf ''EOF''))
      | (CsvRecord header (Some e), r) \<Rightarrow> (None, Some (csv_go_error e))
      | (CsvRecord header None, r) \<Rightarrow>
          (case csv_read r of
             (CsvRecord vals (Some e), r') \<Rightarrow> (None, Some (csv_go_error e))
           | (second, r') \<Rightarrow>
               (let vals = (case second of CsvEOF \<Rightarrow> [] | CsvRecord vals e \<Rightarrow> vals) in
                if length header \<noteq> length vals then
                  (None, Some (errorf (''cannot parse stats, different lengths for header and values'' @ [NL] @ output)))
                else (Some (fold (\<lambda>(key, v). AList.update key v) (zip header vals) []), None))))"

section \<open>Job names\<close>

text \<open>\<^verbatim>\<open>[-.a-zA-Z0-9]\<close>, by byte value.\<close>

definition name_char :: "char \<Rightarrow> bool" where
  "name_char c \<longleftrightarrow> (let n = (of_char c :: nat) in
     n = 45 \<or> n = 46 \<or> (97 \<le> n \<and> n \<le> 122) \<or> (65 \<le> n \<and> n \<le> 90) \<or> (48 \<le> n \<and> n \<le> 57))"

text \<open>
  \<open>order\<close> lists the entries of \<^verbatim>\<open>replace\<close> in the order of the loop. The regular expression matches the
  runs of bytes that are not allowed and always compiles; removing its matches filters them out.
\<close>

definition getJobName :: "(string \<times> string) list \<Rightarrow> OpenCAS \<Rightarrow> string \<Rightarrow> string" where
  "getJobName order cas cmd =
     (let node = hd (Split (CasNodeId cas) ''.'');
          cmd' = fold (\<lambda>(k, v) cmd. ReplaceAll cmd k v) order cmd;
          output = ToLower (node @ filter name_char cmd')
      in if 63 < length output then TrimRight (take 63 output) ''-.'' else output)"

definition range_replace :: "'x env \<Rightarrow> ('x world, (string \<times> string) list) io" where
  "range_replace env = call (RangeOrder env replace)"

section \<open>Running casadm\<close>

definition NewOpenCasManager :: "'x env \<Rightarrow> string \<Rightarrow> string \<Rightarrow> ('x world, OpenCAS option \<times> error option) io" where
  "NewOpenCasManager env nodeId namespace =
     bnd (NewK8sUtils env) (\<lambda>err.
     if err \<noteq> None then ret (None, err)
     else ret (Some \<lparr>CasNodeId = nodeId, CasNamespace = namespace\<rparr>, None))"

definition NewCasadmJob :: "'x env \<Rightarrow> ('x world, Job) io" where
  "NewCasadmJob env =
     bnd (ConfiguredKubeletDir env) (\<lambda>dir1.
     bnd (ConfiguredKubeletDir env) (\<lambda>dir2.
     ret (Job_zero
       \<lparr>Completions := Some 1,
        JobPodSpec := PodSpec_zero
          \<lparr>RestartPolicy := ''Never'',
           Containers := [Container_zero
             \<lparr>Image := Getenv env CasadmImageEnv, ImagePullPolicy := ''Always'', ContainerName := ''casadm'',
              Privileged := Some True,
              VolumeMounts :=
                [\<lparr>MountName = ''dev-dir'', MountPath = ''/dev'', MountPropagation = None\<rparr>,
                 \<lparr>MountName = ''plugins-dir'', MountPath = dir1 @ ''/plugins'', MountPropagation = None\<rparr>]\<rparr>],
           Volumes :=
             [\<lparr>VolName = ''dev-dir'', VolSource = HostPath ''/dev'' ''Directory''\<rparr>,
              \<lparr>VolName = ''plugins-dir'', VolSource = HostPath (dir2 @ ''/plugins'') ''Directory''\<rparr>]\<rparr>\<rparr>)))"

text \<open>\<^verbatim>\<open>Containers[0]\<close> is the container \<^verbatim>\<open>NewCasadmJob\<close> puts there.\<close>

definition ExecCasadmCommandAsJob ::
  "'x env \<Rightarrow> string \<Rightarrow> string \<Rightarrow> string \<Rightarrow> string \<Rightarrow> ('x world, Output option \<times> error option) io" where
  "ExecCasadmCommandAsJob env cmd nodeId jobName namespace =
     bnd (NewCasadmJob env) (\<lambda>job.
     let spec = JobPodSpec job;
         spec1 = spec\<lparr>Containers := (Containers spec)[0 := (Containers spec ! 0)\<lparr>Command := Split cmd '' ''\<rparr>]\<rparr>;
         spec2 = (if nodeId \<noteq> [] then spec1\<lparr>NodeName := nodeId\<rparr> else spec1)
     in ExecCommandJob env
          (job\<lparr>JobMeta := (JobMeta job)\<lparr>Name := jobName, Namespace := namespace\<rparr>,
               TTLSecondsAfterFinished := Some 60, JobPodSpec := spec2\<rparr>))"

text \<open>A command in a job named after it: the name, and what the job returned.\<close>

definition run_casadm ::
  "'x env \<Rightarrow> OpenCAS \<Rightarrow> string \<Rightarrow> ('x world, string \<times> Output option \<times> error option) io" where
  "run_casadm env cas cmd =
     bnd (range_replace env) (\<lambda>order.
     let jobName = getJobName order cas cmd in
     bnd (ExecCasadmCommandAsJob env cmd (CasNodeId cas) jobName (CasNamespace cas)) (\<lambda>(output, err).
     ret (jobName, output, err)))"

definition unexpected_error :: "OpenCAS \<Rightarrow> string \<Rightarrow> string \<Rightarrow> Output \<Rightarrow> error" where
  "unexpected_error cas cmd jobName out =
     errorf (''unexpected error in command '' @ fmt_q cmd @ '' (job '' @ CasNamespace cas @ ''/'' @ jobName
       @ ''): exit_code='' @ fmt_int (ExitCode out) @ '' '' @ StdOut out)"

definition completed_but :: "OpenCAS \<Rightarrow> string \<Rightarrow> string \<Rightarrow> string \<Rightarrow> error" where
  "completed_but cas cmd jobName what =
     errorf (''command '' @ fmt_q cmd @ '' completed (job '' @ CasNamespace cas @ ''/'' @ jobName @ ''), but '' @ what)"

section \<open>Operations\<close>

text \<open>The exit code of the list command is not looked at.\<close>

definition ListCaches :: "'x env \<Rightarrow> OpenCAS \<Rightarrow> ('x world, Cache list \<times> error option) io" where
  "ListCaches env cas =
     bnd (run_casadm env cas listCachesCmd) (\<lambda>(_, output, err).
     if err \<noteq> None then ret ([], err)
     else
       bnd (deref output) (\<lambda>out.
       bnd (of_outcome (parseCacheList (StdOut out))) (\<lambda>caches.
       ret (caches, None))))"

definition StartCache ::
  "'x env \<Rightarrow> OpenCAS \<Rightarrow> string \<Rightarrow> CacheMode \<Rightarrow> CacheLineSize \<Rightarrow> ('x world, Cache option \<times> error option) io" where
  "StartCache env cas path mode cls =
     (let cmd = startCacheCmd path mode cls (-1) in
      bnd (run_casadm env cas cmd) (\<lambda>(jobName, output, err).
      if err \<noteq> None then ret (None, err)
      else
        bnd (deref output) (\<lambda>out.
        if ExitCode out \<noteq> 0 then ret (None, Some (unexpected_error cas cmd jobName out))
        else
          bnd (ListCaches env cas) (\<lambda>(caches, err).
          if err \<noteq> None then ret (None, err)
          else case List.find (\<lambda>c. DevicePath c = path) caches of
              Some c \<Rightarrow> ret (Some c, None)
            | None \<Rightarrow> ret (None, Some (completed_but cas cmd jobName ''cache was not found in cache list''))))))"

definition StopCache :: "'x env \<Rightarrow> OpenCAS \<Rightarrow> 'm CacheHeader_scheme \<Rightarrow> ('x world, error option) io" where
  "StopCache env cas c =
     (let cmd = stopCacheCmd (CacheId c) in
      bnd (run_casadm env cas cmd) (\<lambda>(jobName, output, err).
      if err \<noteq> None then ret err
      else
        bnd (deref output) (\<lambda>out.
        if ExitCode out \<noteq> 0 \<and> \<not> Contains (Output_String out) ''Cache ID does not exist''
        then ret (Some (unexpected_error cas cmd jobName out))
        else
          bnd (ListCaches env cas) (\<lambda>(caches, err).
          if err \<noteq> None then ret err
          else if list_ex (\<lambda>cache. DevicePath cache = DevicePath c) caches
            then ret (Some (completed_but cas cmd jobName ''cache still exists in system''))
          else ret None))))"

definition GetVolumeFromCacheList ::
  "'x env \<Rightarrow> OpenCAS \<Rightarrow> string \<Rightarrow> ('x world, CachedVolume option \<times> error option) io" where
  "GetVolumeFromCacheList env cas backendPath =
     bnd (ListCaches env cas) (\<lambda>(caches, err).
     if err \<noteq> None then ret (None, err) else ret (find_volume caches backendPath, None))"

definition isDeviceInSystem :: "'x env \<Rightarrow> string \<Rightarrow> ('x world, bool \<times> error option) io" where
  "isDeviceInSystem env devicePath =
     bnd (ExecLocalCommand env (''ls -1 '' @ devicePath)) (\<lambda>(output, err).
     if err \<noteq> None then ret (False, err)
     else bnd (deref output) (\<lambda>out. ret (ExitCode out = 0, None)))"

definition AddCore ::
  "'x env \<Rightarrow> OpenCAS \<Rightarrow> 'm CacheHeader_scheme \<Rightarrow> string \<Rightarrow> ('x world, CachedVolume option \<times> error option) io" where
  "AddCore env cas c path =
     (let cmd = addCoreCmd (CacheId c) path (-1) in
      bnd (run_casadm env cas cmd) (\<lambda>(jobName, output, err).
      if err \<noteq> None then ret (None, err)
      else
        bnd (deref output) (\<lambda>out.
        if ExitCode out \<noteq> 0 then ret (None, Some (unexpected_error cas cmd jobName out))
        else
          bnd (GetVolumeFromCacheList env cas path) (\<lambda>(core, err).
          if err \<noteq> None then ret (None, err)
          else case core of
              None \<Rightarrow> ret (None, Some (completed_but cas cmd jobName ''cached volume was not found in cache list''))
            | Some core \<Rightarrow>
                bnd (isDeviceInSystem env (Path core)) (\<lambda>(exists, err).
                if err \<noteq> None then ret (None, err)
                else if \<not> exists then
                  ret (None, Some (completed_but cas cmd jobName ''cached volume was not found in system''))
                else ret (Some core, None))))))"

definition RemoveCore :: "'x env \<Rightarrow> OpenCAS \<Rightarrow> CachedVolume \<Rightarrow> ('x world, error option) io" where
  "RemoveCore env cas v =
     (let cmd = removeCoreCmd (CacheId (CacheOf v)) (CoreId v) in
      bnd (run_casadm env cas cmd) (\<lambda>(jobName, output, err).
      if err \<noteq> None then ret err
      else
        bnd (deref output) (\<lambda>out.
        if ExitCode out \<noteq> 0 \<and>
             \<not> (Contains (Output_String out) ''Cache ID does not exist'' \<or>
                Contains (Output_String out) ''Core ID does not exist'')
        then ret (Some (unexpected_error cas cmd jobName out))
        else
          bnd (GetVolumeFromCacheList env cas (BackendPath v)) (\<lambda>(core, err).
          if err \<noteq> None then ret err
          else if core \<noteq> None then
            ret (Some (completed_but cas cmd jobName ''cached volume still exists in cache list''))
          else
            bnd (isDeviceInSystem env (Path v)) (\<lambda>(exists, err).
            if err \<noteq> None then ret err
            else if exists then ret (Some (completed_but cas cmd jobName ''cached volume still exists in system''))
            else ret None)))))"

definition GetStatistics ::
  "'x env \<Rightarrow> OpenCAS \<Rightarrow> int \<Rightarrow> int \<Rightarrow> ('x world, string gomap \<times> error option) io" where
  "GetStatistics env cas cacheId coreId =
     bnd (run_casadm env cas (statsCmd cacheId coreId)) (\<lambda>(_, output, err).
     if err \<noteq> None then ret (None, err)
     else bnd (deref output) (\<lambda>out. ret (parseStats (StdOut out))))"

definition SetCacheMode ::
  "'x env \<Rightarrow> OpenCAS \<Rightarrow> 'm CacheHeader_scheme \<Rightarrow> CacheMode \<Rightarrow> ('x world, error option) io" where
  "SetCacheMode env cas c mode =
     (let cmd = setCacheModeCmd (CacheId c) mode in
      bnd (run_casadm env cas cmd) (\<lambda>(jobName, output, err).
      if err \<noteq> None then ret err
      else
        bnd (deref output) (\<lambda>out.
        if ExitCode out \<noteq> 0 then ret (Some (unexpected_error cas cmd jobName out))
        else
          bnd (ListCaches env cas) (\<lambda>(caches, err).
          if err \<noteq> None then ret err
          else case List.find (\<lambda>cache. CacheId cache = CacheId c) caches of
              Some cache \<Rightarrow>
                if CacheMode cache = mode then ret None
                else ret (Some (completed_but cas cmd jobName
                  (''cache mode was not changed from '' @ CacheMode cache @ '' to '' @ mode)))
            | None \<Rightarrow> ret (Some (completed_but cas cmd jobName ''cache was not found in cache list''))))))"

definition GetCacheLineSize ::
  "'x env \<Rightarrow> OpenCAS \<Rightarrow> 'm CacheHeader_scheme \<Rightarrow> ('x world, CacheLineSize \<times> error option) io" where
  "GetCacheLineSize env cas c =
     bnd (GetStatistics env cas (CacheId c) (-1)) (\<lambda>(cacheStats, err).
     if err \<noteq> None then ret (0, err)
     else
       (let (num, err) = ParseUint (mgets cacheStats ''Cache line size [KiB]'') 8 in
        if err \<noteq> None then ret (0, err) else ret (word_of_nat num, None)))"

definition GetCacheInstances :: "'x env \<Rightarrow> OpenCAS \<Rightarrow> ('x world, Cache list \<times> error option) io" where
  "GetCacheInstances env cas =
     bnd (ListCaches env cas) (\<lambda>(caches, err).
     if err \<noteq> None then ret ([], err) else ret (caches, None))"

section \<open>Links to backend devices\<close>

definition RemoveByIdLink :: "'x env \<Rightarrow> string \<Rightarrow> ('x world, error option) io" where
  "RemoveByIdLink env linkName =
     bnd (ExecLocalCommand env (''rm -f '' @ CsiDriverByIdDir @ ''/'' @ linkName)) (\<lambda>(_, err). ret err)"

definition GetByIdLinkPathForPv :: "string \<Rightarrow> string" where
  "GetByIdLinkPathForPv pvName = CsiDriverByIdDir @ ''/'' @ pvName"

text \<open>\<^verbatim>\<open>strings.SplitN(s, sep, 2)\<close> with a separator that is not empty has a first element.\<close>

definition ProvideByIdLinkForPv ::
  "'x env \<Rightarrow> string \<Rightarrow> string \<Rightarrow> ('x world, string \<times> error option) io" where
  "ProvideByIdLinkForPv env pvSourceName pvLinkName =
     bnd (ConfiguredKubeletDir env) (\<lambda>dir.
     bnd (ExecLocalCommand env (''find -L '' @ dir @ ''/ -type b -path '' @ [CHR 0x27] @ ''*/'' @ pvSourceName @ ''/*''
            @ [CHR 0x27] @ '' -not -path '' @ [CHR 0x27] @ ''*/publish/*'' @ [CHR 0x27] @ '' -not -path ''
            @ [CHR 0x27] @ ''*/staging/*'' @ [CHR 0x27])) (\<lambda>(output, err).
     if err \<noteq> None then ret ([], err)
     else
       bnd (deref output) (\<lambda>out.
       let devPath = TrimSpace (hd (SplitN2 (StdOut out) [NL]));
           byIdPath = GetByIdLinkPathForPv pvLinkName
       in
       bnd (ExecLocalCommand env (''mkdir -p '' @ CsiDriverByIdDir @ '' && ln -f -s '' @ devPath @ '' '' @ byIdPath))
         (\<lambda>(output, err).
       if err \<noteq> None then ret ([], err)
       else
         bnd (deref output) (\<lambda>out.
         if ExitCode out \<noteq> 0 then
           ret ([], Some (errorf (''failed to create by-id link for PV '' @ fmt_q pvSourceName)))
         else ret (byIdPath, None))))))"

section \<open>Job names are valid\<close>

definition job_char :: "char \<Rightarrow> bool" where
  "job_char c \<longleftrightarrow> (let n = (of_char c :: nat) in n = 45 \<or> n = 46 \<or> (97 \<le> n \<and> n \<le> 122) \<or> (48 \<le> n \<and> n \<le> 57))"

lemma lower_job_char: "name_char c \<Longrightarrow> job_char (lower c)"
proof (cases "65 \<le> (of_char c :: nat) \<and> (of_char c :: nat) \<le> 90")
  case True
  then have "(of_char (lower c) :: nat) = of_char c + 32" by (simp add: lower_def of_char_of)
  with True show ?thesis by (simp add: job_char_def Let_def)
next
  case False
  then have "lower c = c" by (auto simp: lower_def)
  with False show "name_char c \<Longrightarrow> ?thesis" by (auto simp: name_char_def job_char_def Let_def)
qed

lemma name_char_ascii: "name_char c \<Longrightarrow> ascii c"
  by (auto simp: name_char_def ascii_def Let_def)

lemma getJobName_length: "length (getJobName order cas cmd) \<le> 63"
proof -
  have "length (TrimRight (take 63 s) cs) \<le> 63" for s cs
    by (rule le_trans [OF TrimRight_length]) simp
  then show ?thesis by (simp add: getJobName_def Let_def del: take_append)
qed

lemma getJobName_chars:
  assumes "list_all name_char (CasNodeId cas)"
  shows "list_all job_char (getJobName order cas cmd)"
proof -
  have first: "set x \<subseteq> set (Join (x # xs) sep)" for x xs and sep :: string
    by (cases xs) auto
  have "set (hd (Split s sep)) \<subseteq> set s" if "sep \<noteq> []" for s sep
    using first [of "hd (Split s sep)" "tl (Split s sep)" sep] Join_Split [OF that, of s] that by simp
  then have node: "list_all name_char (hd (Split (CasNodeId cas) ''.''))"
    using assms by (fastforce simp: list_all_iff)
  have low: "list_all name_char s \<Longrightarrow> list_all job_char (ToLower s)" for s
    using ToLower_ascii [of s] by (auto simp: list_all_iff lower_job_char name_char_ascii)
  have "list_all job_char (TrimRight (take n s) cs)" if "list_all job_char s" for s n cs
    using that TrimRight_set [of "take n s" cs] set_take_subset [of n s] by (auto simp: list_all_iff)
  moreover have "list_all name_char (hd (Split (CasNodeId cas) ''.'') @ filter name_char cmd')" for cmd'
    using node by (auto simp: list_all_iff)
  ultimately show ?thesis unfolding getJobName_def Let_def using low by (simp del: take_append)
qed

section \<open>The manager on a node whose casadm reports its state\<close>

text \<open>
  \<open>casadm_lists env st\<close>: a job that runs the list command, once it has an output, has printed the
  caches \<open>st\<close> of the world it ended in, then the pool of cores that wait for their cache, if there is one, and no field needs
  quoting. It is an idealisation of a node that works: a list job that completes has printed the whole list, whatever its exit
  status, which the code does not look at.
  A list command that fails and prints nothing is read as a node without caches; \<open>ListCaches_failed_command\<close> below
  is about such a node, and nothing that assumes \<open>casadm_lists\<close> is. \<open>ls_quiet env st\<close>: listing
  a device file with \<^verbatim>\<open>ls\<close> does not change the caches.
\<close>

definition casadm_lists :: "'x env \<Rightarrow> ('x \<Rightarrow> Cache list) \<Rightarrow> bool" where
  "casadm_lists env st \<longleftrightarrow>
     (\<forall>job w out w'. job_argv job = [''casadm'', ''--list-caches'', ''--by-id-path'', ''--output-format'', ''csv''] \<longrightarrow>
        returns (ExecCommandJob env job) w (Some out, None) w' \<longrightarrow>
        list_text (st (outside w')) (StdOut out) \<and>
        list_all cache_ok (st (outside w')) \<and> list_all cache_plain (st (outside w')))"

definition ls_quiet :: "'x env \<Rightarrow> ('x \<Rightarrow> Cache list) \<Rightarrow> bool" where
  "ls_quiet env st \<longleftrightarrow> (\<forall>path x. st (snd (RunShell (host env) (''ls -1 '' @ path) x)) = st x)"

lemma ExecCasadmCommandAsJob_job:
  assumes "returns (ExecCasadmCommandAsJob env cmd node name ns) w r w'"
  obtains job w1 where "returns (ExecCommandJob env job) w1 r w'" "job_argv job = Split cmd '' ''"
    "Name (JobMeta job) = name" "Namespace (JobMeta job) = ns" "node \<noteq> [] \<Longrightarrow> NodeName (JobPodSpec job) = node"
  using assms
  by (force simp: ExecCasadmCommandAsJob_def NewCasadmJob_def returns_simps Let_def job_argv_def
      Container_zero_def PodSpec_zero_def Job_zero_def)

lemma run_casadm_output:
  "returns (run_casadm env cas cmd) w (job, out, None) w' \<Longrightarrow> out \<noteq> None"
  by (auto simp: run_casadm_def returns_simps Let_def elim!: ExecCasadmCommandAsJob_job dest!: ExecCommandJob_output)

lemma ListCaches_lists:
  assumes "casadm_lists env st" and "returns (ListCaches env cas) w (caches, None) w'"
  shows "caches = st (outside w') \<and> list_all cache_ok caches"
proof -
  from assms(2) obtain name out where run: "returns (run_casadm env cas listCachesCmd) w (name, Some out, None) w'"
    and parse: "parseCacheList (StdOut out) = Ret caches"
    by (auto simp: ListCaches_def returns_simps)
  from run obtain w1 where "returns (ExecCasadmCommandAsJob env listCachesCmd (CasNodeId cas) name (CasNamespace cas))
      w1 (Some out, None) w'"
    by (auto simp: run_casadm_def returns_simps Let_def)
  then obtain job w2 where "returns (ExecCommandJob env job) w2 (Some out, None) w'"
    and "job_argv job = Split listCachesCmd '' ''"
    by (rule ExecCasadmCommandAsJob_job)
  then have "list_text (st (outside w')) (StdOut out)" "list_all cache_ok (st (outside w'))"
    "list_all cache_plain (st (outside w'))"
    using assms(1) unfolding casadm_lists_def listCaches_argv by blast+
  with parse parse_list_text [of "st (outside w')"] show ?thesis by simp
qed

lemma GetVolumeFromCacheList_lists:
  assumes "casadm_lists env st" and "returns (GetVolumeFromCacheList env cas p) w (v, None) w'"
  shows "v = find_volume (st (outside w')) p" and "v = Some u \<Longrightarrow> BackendPath u = p"
  using assms ListCaches_lists [OF assms(1)] find_volume_path
  by (fastforce simp: GetVolumeFromCacheList_def returns_simps)+

lemma isDeviceInSystem_quiet:
  assumes "ls_quiet env st" and "returns (isDeviceInSystem env p) w r w'"
  shows "st (outside w') = st (outside w)"
proof -
  have "keeps (same_obs st) (call (RunShell (host env) (''ls -1 '' @ p)))"
    using assms(1) by (intro same_obs_call) (simp add: ls_quiet_def)
  then have "keeps (same_obs st) (isDeviceInSystem env p)"
    unfolding isDeviceInSystem_def ExecLocalCommand_def by (intro keeps_obs keeps_case_proc_result)
  then show ?thesis using assms(2) by (auto simp: same_obs_def dest: keeps_returns)
qed

section \<open>The contract of the manager\<close>

text \<open>
  What the node server relies on when it attaches and detaches a core: a lookup without an error is
  exact, a core that was added is there and was removed is not.
\<close>

locale core_manager =
  fixes lawful :: bool
    and get :: "string \<Rightarrow> ('w, 'v option \<times> error option) io"
    and add :: "'c \<Rightarrow> string \<Rightarrow> ('w, 'v option \<times> error option) io"
    and remove :: "'v \<Rightarrow> ('w, error option) io"
    and attached :: "'w \<Rightarrow> string \<Rightarrow> 'v option"
    and backend :: "'v \<Rightarrow> string"
  assumes get_exact: "lawful \<Longrightarrow> returns (get p) w (v, None) w' \<Longrightarrow> attached w' p = v"
    and get_backend: "lawful \<Longrightarrow> returns (get p) w (Some u, None) w' \<Longrightarrow> backend u = p"
    and add_attaches: "lawful \<Longrightarrow> returns (add c p) w (v, None) w' \<Longrightarrow> v \<noteq> None \<and> attached w' p = v"
    and remove_detaches: "lawful \<Longrightarrow> returns (remove u) w None w' \<Longrightarrow> attached w' (backend u) = None"
begin

text \<open>The two patterns of the node server, with the failures mapped to its own statuses.\<close>

definition attach ::
  "'s \<Rightarrow> ('w, 's + 'c) io \<Rightarrow> (error option \<Rightarrow> 's) \<Rightarrow> string \<Rightarrow> ('w, 's + 'v option) io" where
  "attach cannot_check pick cannot_add p =
     bnd (get p) (\<lambda>(v, err).
     if err \<noteq> None then ret (Inl cannot_check)
     else if v \<noteq> None then ret (Inr v)
     else
       bnd pick (\<lambda>c.
       case c of
         Inl s \<Rightarrow> ret (Inl s)
       | Inr c \<Rightarrow>
           bnd (add c p) (\<lambda>(v, err).
           if err \<noteq> None then ret (Inl (cannot_add err)) else ret (Inr v))))"

definition detach :: "'s \<Rightarrow> 's \<Rightarrow> string \<Rightarrow> ('w, 's + unit) io" where
  "detach cannot_check cannot_remove p =
     bnd (get p) (\<lambda>(v, err).
     if err \<noteq> None then ret (Inl cannot_check)
     else case v of
         None \<Rightarrow> ret (Inr ())
       | Some u \<Rightarrow>
           bnd (remove u) (\<lambda>err.
           if err \<noteq> None then ret (Inl cannot_remove) else ret (Inr ())))"

lemma attach_attached:
  "lawful \<Longrightarrow> returns (attach cc pick ca p) w (Inr v) w' \<Longrightarrow> v \<noteq> None \<and> attached w' p = v"
  by (auto simp: attach_def returns_simps dest: get_exact add_attaches)

lemma detach_detached:
  assumes lawful "returns (detach cc cr p) w (Inr u) w'"
  shows "attached w' p = None"
  using assms(2) get_exact [OF assms(1)] get_backend [OF assms(1)] remove_detaches [OF assms(1)]
  by (fastforce simp: detach_def returns_simps)

end

interpretation cores: core_manager "casadm_lists env st \<and> ls_quiet env st" "GetVolumeFromCacheList env cas"
  "AddCore env cas :: Cache \<Rightarrow> string \<Rightarrow> ('x world, CachedVolume option \<times> error option) io" "RemoveCore env cas"
  "\<lambda>w. find_volume (st (outside w))" BackendPath
  for env :: "'x env" and cas :: OpenCAS and st :: "'x \<Rightarrow> Cache list"
proof (unfold_locales, goal_cases)
  case (1 p w v w')
  then show ?case using GetVolumeFromCacheList_lists(1) by metis
next
  case (2 p w u w')
  then show ?case using GetVolumeFromCacheList_lists(2) by metis
next
  case (3 c p w v w')
  then show ?case
    using GetVolumeFromCacheList_lists(1) [of env st cas p] isDeviceInSystem_quiet [of env st]
    by (fastforce simp: AddCore_def returns_simps Let_def)
next
  case (4 u w w')
  then show ?case
    using GetVolumeFromCacheList_lists(1) [of env st cas "BackendPath u"] isDeviceInSystem_quiet [of env st]
    by (fastforce simp: RemoveCore_def returns_simps Let_def)
qed

lemma casadm_no_panic [no_panic_intros]:
  "no_panic (NewOpenCasManager env n ns)" "no_panic (NewCasadmJob env)" "no_panic (ExecCasadmCommandAsJob env cmd n job ns)"
  "no_panic (range_replace env)" "no_panic (run_casadm env cas cmd)"
proof -
  show manager: "no_panic (NewOpenCasManager env n ns)" unfolding NewOpenCasManager_def by (intro no_panic_intros)
  have job: "no_panic (NewCasadmJob env)" unfolding NewCasadmJob_def by (intro no_panic_intros)
  then show "no_panic (NewCasadmJob env)" .
  have exec: "no_panic (ExecCasadmCommandAsJob env cmd n job ns)" for cmd n job ns
    unfolding ExecCasadmCommandAsJob_def Let_def by (intro no_panic_intros job)
  then show "no_panic (ExecCasadmCommandAsJob env cmd n job ns)" .
  have order: "no_panic (range_replace env)" unfolding range_replace_def by (intro no_panic_intros)
  then show "no_panic (range_replace env)" .
  show "no_panic (run_casadm env cas cmd)"
    unfolding run_casadm_def Let_def by (intro no_panic_intros exec order)
qed

text \<open>
  \<open>lists_readable env\<close>: the parser gets through whatever a completed list job has printed. This is all that is needed to
  read the list without a panic, and a node that reports its caches does it.
\<close>

definition lists_readable :: "'x env \<Rightarrow> bool" where
  "lists_readable env \<longleftrightarrow>
     (\<forall>job w out w'. job_argv job = [''casadm'', ''--list-caches'', ''--by-id-path'', ''--output-format'', ''csv''] \<longrightarrow>
        returns (ExecCommandJob env job) w (Some out, None) w' \<longrightarrow> (\<exists>caches. parseCacheList (StdOut out) = Ret caches))"

lemma casadm_lists_readable: "casadm_lists env st \<Longrightarrow> lists_readable env"
  unfolding casadm_lists_def lists_readable_def using parse_list_text by metis

lemma ListCaches_no_panic:
  assumes "lists_readable env"
  shows "no_panic (ListCaches env cas)"
  unfolding no_panic_def
proof
  fix w
  obtain name out err w1 where run: "returns (run_casadm env cas listCachesCmd) w (name, out, err) w1"
    using no_panic_returns [OF casadm_no_panic(5)] by (metis surj_pair)
  show "\<exists>a w'. returns (ListCaches env cas) w a w'"
  proof (cases err)
    case (Some e)
    then show ?thesis using run by (auto simp: ListCaches_def returns_def bnd_Ret)
  next
    case None
    then obtain o' where o': "out = Some o'" using run_casadm_output run by blast
    from run o' None obtain w0 where "returns (ExecCasadmCommandAsJob env listCachesCmd (CasNodeId cas) name (CasNamespace cas))
        w0 (Some o', None) w1"
      by (auto simp: run_casadm_def returns_simps Let_def)
    then obtain job w2 where "returns (ExecCommandJob env job) w2 (Some o', None) w1"
      and "job_argv job = Split listCachesCmd '' ''"
      by (rule ExecCasadmCommandAsJob_job)
    then obtain caches where "parseCacheList (StdOut o') = Ret caches"
      using assms unfolding lists_readable_def listCaches_argv by blast
    then show ?thesis using run None o' by (auto simp: ListCaches_def returns_def bnd_Ret)
  qed
qed

section \<open>The manager on the reference cluster\<close>

lemma mem_run_casadm:
  assumes "kubeletDir w \<noteq> []"
  shows "\<exists>name. run_casadm (mem_env shell) cas cmd w =
    (let x = (outside w)\<lparr>MemCaches := mem_casadm (Split cmd '' '') (MemCaches (outside w))\<rparr> in
     (Ret (name, Some \<lparr>StdOut = print_cache_list (mem_caches x), ExitCode = 0\<rparr>, None), w\<lparr>outside := x\<rparr>))"
proof -
  have dir: "ConfiguredKubeletDir env w1 = (Ret (kubeletDir w1), w1)" if "kubeletDir w1 \<noteq> []" for env :: "mem env" and w1
    using that by (simp add: ConfiguredKubeletDir_run configured_set)
  show ?thesis
    using assms
    by (simp add: run_casadm_def range_replace_def ExecCasadmCommandAsJob_def NewCasadmJob_def bnd_call bnd_Ret
        dir ExecCommandJob_def ExecCommandJob_collect_def mem_env_def mem_kube_def Let_def job_argv_def
        Container_zero_def PodSpec_zero_def Job_zero_def Pod_zero_def call_def bnd_def)
qed

lemma mem_ListCaches:
  assumes "kubeletDir w \<noteq> []"
  shows "ListCaches (mem_env shell) cas w = (Ret (mem_caches (outside w), None), w)"
proof -
  have "mem_casadm (Split listCachesCmd '' '') cs = cs" for cs
    unfolding listCaches_argv by (simp add: mem_casadm_def)
  then have state: "(outside w)\<lparr>MemCaches := mem_casadm (Split listCachesCmd '' '') (MemCaches (outside w))\<rparr> = outside w"
    by simp
  obtain name where "run_casadm (mem_env shell) cas listCachesCmd w =
      (Ret (name, Some \<lparr>StdOut = print_cache_list (mem_caches (outside w)), ExitCode = 0\<rparr>, None), w)"
    using mem_run_casadm [OF assms, of shell cas listCachesCmd] unfolding state Let_def by auto
  then show ?thesis
    by (simp add: ListCaches_def bnd_Ret parse_print mem_caches_ok)
qed

section \<open>An example node\<close>

definition demo_cache :: Cache where
  "demo_cache = \<lparr>CacheId = 1, DevicePath = ''/dev/nvme0n1'', CacheStatus = ''Running'', CacheMode = ''wt'', CacheVolumes = []\<rparr>"

definition demo_node :: "mem world" where
  "demo_node = \<lparr>kubeletDir = ''/var/lib/kubelet'', protectedNamespace = ''opencas-csi-protected'',
     outside = \<lparr>MemClaims = [],
        MemPods = [((''opencas-csi-protected'', ''node1-pvc-0''),
          Pod_zero\<lparr>PodMeta := ObjectMeta_zero\<lparr>Name := ''node1-pvc-0'', Namespace := ''opencas-csi-protected''\<rparr>\<rparr>)],
        MemClasses = [], MemVolumes = [''pvc-0''],
        MemNodes = [(''node1'', \<lparr>NodeMeta = named ''node1'', Conditions = []\<rparr>)], MemCaches = [demo_cache],
        MemPaths = [''/staging'', ''/dev/disk/by-id/opencas-csi/pvc-0''], MemMounts = [], MemLast = [], MemFinalizers = []\<rparr>\<rparr>"

definition demo_cas :: OpenCAS where
  "demo_cas = \<lparr>CasNodeId = ''node1.example'', CasNamespace = ''opencas-csi-protected''\<rparr>"

definition node_env :: "mem env" where
  "node_env = mem_env (\<lambda>_. Exited ''/dev/sdb'' 0)"

definition demo_path :: string where "demo_path = GetByIdLinkPathForPv ''pvc-0''"

lemma node_laws: "casadm_lists node_env mem_caches" "ls_quiet node_env mem_caches"
proof -
  show "casadm_lists node_env mem_caches"
    unfolding casadm_lists_def node_env_def using mem_job_output mem_caches_ok list_text_print by (metis (no_types))
  show "ls_quiet node_env mem_caches"
    unfolding ls_quiet_def node_env_def by (simp only: mem_shell_ls) simp
qed

definition demo_volume :: CachedVolume where
  "demo_volume = \<lparr>CoreId = 1, BackendPath = demo_path, CoreStatus = ''Active'', Path = ''/dev/cas1-1'',
     CacheOf = CacheHeader.truncate demo_cache\<rparr>"

lemma demo_cache_ok: "cache_ok demo_cache" "cache_plain demo_cache"
  "cache_ok (mem_add_core demo_path demo_cache)" "cache_plain (mem_add_core demo_path demo_cache)"
  by code_simp+

definition demo_attached :: "mem world" where
  "demo_attached = demo_node\<lparr>outside := (outside demo_node)\<lparr>MemCaches := [mem_add_core demo_path demo_cache]\<rparr>\<rparr>"

lemma demo_caches:
  "mem_caches (outside demo_node) = [demo_cache]" "MemCaches (outside demo_node) = [demo_cache]"
  "mem_caches (outside demo_attached) = [mem_add_core demo_path demo_cache]"
  "kubeletDir demo_node = ''/var/lib/kubelet''" "kubeletDir demo_attached = ''/var/lib/kubelet''"
  by (simp_all add: demo_attached_def mem_caches_def demo_node_def demo_cache_ok)

lemma demo_find: "find_volume [mem_add_core demo_path demo_cache] demo_path = Some demo_volume"
  by code_simp

lemma demo_add_argv: "mem_casadm (Split (addCoreCmd (CacheId demo_cache) demo_path (-1)) '' '') [demo_cache] =
    [mem_add_core demo_path demo_cache]"
proof -
  have "no_blank demo_path" by code_simp
  then show ?thesis by (simp add: addCore_argv mem_casadm_def demo_cache_def)
qed

lemma demo_ls: "isDeviceInSystem node_env ''/dev/cas1-1'' demo_attached = (Ret (True, None), demo_attached)"
proof -
  have "mem_devices (outside demo_attached) = [''/dev/cas1-1'']"
    unfolding mem_devices_def demo_caches(3) by code_simp
  then show ?thesis
    by (simp add: isDeviceInSystem_def ExecLocalCommand_def bnd_call bnd_assoc node_env_def mem_env_def mem_host_def)
qed

lemma demo_lists:
  "ListCaches node_env cas demo_node = (Ret ([demo_cache], None), demo_node)"
  "ListCaches node_env cas demo_attached = (Ret ([mem_add_core demo_path demo_cache], None), demo_attached)"
  using mem_ListCaches [of demo_node] mem_ListCaches [of demo_attached] unfolding node_env_def
  by (simp_all add: demo_caches)

lemma demo_gets:
  "GetVolumeFromCacheList node_env cas demo_path demo_node = (Ret (None, None), demo_node)"
  "GetVolumeFromCacheList node_env cas demo_path demo_attached = (Ret (Some demo_volume, None), demo_attached)"
proof -
  have none: "find_volume [demo_cache] demo_path = None" by (simp add: demo_cache_def)
  show "GetVolumeFromCacheList node_env cas demo_path demo_node = (Ret (None, None), demo_node)"
    "GetVolumeFromCacheList node_env cas demo_path demo_attached = (Ret (Some demo_volume, None), demo_attached)"
    by (simp_all add: GetVolumeFromCacheList_def bnd_Ret demo_lists none demo_find del: find_volume.simps)
qed

lemma demo_add_run:
  "returns (AddCore node_env cas demo_cache demo_path) demo_node (Some demo_volume, None) demo_attached"
proof -
  have step: "\<exists>name. run_casadm node_env cas (addCoreCmd (CacheId demo_cache) demo_path (-1)) demo_node =
      (Ret (name, Some \<lparr>StdOut = print_cache_list (mem_caches (outside demo_attached)), ExitCode = 0\<rparr>, None), demo_attached)"
    using mem_run_casadm [of demo_node "\<lambda>_. Exited ''/dev/sdb'' 0" cas "addCoreCmd (CacheId demo_cache) demo_path (-1)"]
    unfolding node_env_def demo_caches(2) demo_add_argv Let_def demo_attached_def by (simp add: demo_caches)
  have "Path demo_volume = ''/dev/cas1-1''" by (simp add: demo_volume_def)
  then show ?thesis
    using step demo_ls by (auto simp: returns_def AddCore_def Let_def bnd_Ret demo_gets)
qed

lemma demo_remove_run: "returns (RemoveCore node_env cas demo_volume) demo_attached None demo_node"
proof -
  have argv: "mem_casadm (Split (removeCoreCmd (CacheId (CacheOf demo_volume)) (CoreId demo_volume)) '' '')
      [mem_add_core demo_path demo_cache] = [demo_cache]"
    unfolding removeCore_argv by code_simp
  have node: "(outside demo_attached)\<lparr>MemCaches := [demo_cache]\<rparr> = outside demo_node"
    "demo_attached\<lparr>outside := outside demo_node\<rparr> = demo_node" "MemCaches (outside demo_attached) = [mem_add_core demo_path demo_cache]"
    by (simp_all add: demo_attached_def demo_node_def)
  have step: "\<exists>name. run_casadm node_env cas (removeCoreCmd (CacheId (CacheOf demo_volume)) (CoreId demo_volume))
      demo_attached = (Ret (name, Some \<lparr>StdOut = print_cache_list (mem_caches (outside demo_node)), ExitCode = 0\<rparr>, None), demo_node)"
    using mem_run_casadm [of demo_attached "\<lambda>_. Exited ''/dev/sdb'' 0" cas
        "removeCoreCmd (CacheId (CacheOf demo_volume)) (CoreId demo_volume)"]
    unfolding node_env_def node(3) argv node(1,2) Let_def by (simp add: demo_caches)
  have path: "BackendPath demo_volume = demo_path" by (simp add: demo_volume_def)
  have "mem_devices (outside demo_node) = []"
    unfolding mem_devices_def demo_caches(1) by (simp add: demo_cache_def)
  then have "isDeviceInSystem node_env (Path demo_volume) demo_node = (Ret (False, None), demo_node)"
    by (simp add: isDeviceInSystem_def ExecLocalCommand_def bnd_call bnd_assoc node_env_def mem_env_def mem_host_def)
  then show ?thesis using step by (auto simp: returns_def RemoveCore_def Let_def bnd_Ret path demo_gets)
qed

section \<open>Properties of the Open CAS manager\<close>

text \<open>
  C13: \<^verbatim>\<open>parseCacheList\<close> reads back what the list command prints: for any list of caches whose cores
  have distinct paths and point to their cache, whose ids fit an \<^verbatim>\<open>int\<close> and whose text fields need no
  quoting, parsing the printed list gives the list again, with every core in its cache.
\<close>

theorem parseCacheList_print:
  assumes "list_all cache_ok caches" and "list_all cache_plain caches"
  shows "parseCacheList (print_cache_list caches) = Ret caches"
  by (rule parse_print [OF assms])

theorem parseCacheList_print_witness:
  "parseCacheList (print_cache_list [demo_cache, mem_add_core demo_path demo_cache]) =
     Ret [demo_cache, mem_add_core demo_path demo_cache]"
  by (rule parseCacheList_print) (simp_all add: demo_cache_ok)

text \<open>
  C26: Whatever text it is given, \<^verbatim>\<open>parseCacheList\<close> terminates, is determined by the records of the
  text alone, and if it does not panic returns well-formed caches only: ids within the range of an \<^verbatim>\<open>int\<close>, one entry per
  core path, every cached volume filed under its own path and pointing to the cache it is filed in.
\<close>

theorem parseCacheList_wellformed:
  "parseCacheList output = parse_rows [] (map fst (csv_all (NewReader output))) \<and>
   (case parseCacheList output of
      Panic p \<Rightarrow> True
    | Ret caches \<Rightarrow> list_all cache_ok caches \<and> length (csv_all (NewReader output)) \<le> length output)"
  using parseCacheList_ok [of "output"] csv_all_bounded [of "NewReader output"]
  by (auto simp: parseCacheList_rows NewReader_def split: outcome.split)

text \<open>
  C27: A job name has at most 63 bytes, the limit of the API server, and for a node name of letters,
  digits, dashes and dots it consists of lower-case letters, digits, dashes and dots, whatever the
  command and whatever the order in which the abbreviations are applied.
\<close>

theorem getJobName_valid:
  assumes "list_all name_char (CasNodeId cas)"
  shows "length (getJobName order cas cmd) \<le> 63 \<and> list_all job_char (getJobName order cas cmd)"
  using getJobName_length getJobName_chars [OF assms] by blast

theorem getJobName_valid_witness:
  "list_all job_char (getJobName replace demo_cas (addCoreCmd 1 demo_path (-1)))"
proof -
  have "list_all name_char (CasNodeId demo_cas)" by code_simp
  from getJobName_valid [OF this] show ?thesis by blast
qed

text \<open>
  C14: When \<^verbatim>\<open>AddCore\<close> succeeds, the volume it returns is what the node lists for the path, and its
  backend path is that path; when \<^verbatim>\<open>RemoveCore\<close> succeeds, the node lists nothing for the path of the
  volume. Both hold in the world in which the call returns.
\<close>

theorem core_operations:
  assumes "casadm_lists env st" "ls_quiet env st"
  shows "(returns (AddCore env cas (c :: Cache) path) w (v, None) w' \<longrightarrow>
      (\<exists>u. v = Some u \<and> find_volume (st (outside w')) path = Some u \<and> BackendPath u = path)) \<and>
    (returns (RemoveCore env cas u) w None w' \<longrightarrow> find_volume (st (outside w')) (BackendPath u) = None)"
proof (intro conjI impI)
  have lawful: "casadm_lists env st \<and> ls_quiet env st" using assms by simp
  assume add: "returns (AddCore env cas c path) w (v, None) w'"
  then have "v \<noteq> None" "find_volume (st (outside w')) path = v"
    using cores.add_attaches [OF lawful] by auto
  moreover from add obtain w1 u w2 where "v = Some u" "returns (GetVolumeFromCacheList env cas path) w1 (Some u, None) w2"
    by (auto simp: AddCore_def returns_simps Let_def)
  ultimately show "\<exists>u. v = Some u \<and> find_volume (st (outside w')) path = Some u \<and> BackendPath u = path"
    using GetVolumeFromCacheList_lists(2) [OF assms(1)] by auto
next
  assume "returns (RemoveCore env cas u) w None w'"
  then show "find_volume (st (outside w')) (BackendPath u) = None"
    using cores.remove_detaches assms by blast
qed

theorem core_operations_witness:
  "find_volume (mem_caches (outside demo_attached)) demo_path = Some demo_volume \<and>
   find_volume (mem_caches (outside demo_node)) demo_path = None"
proof
  show "find_volume (mem_caches (outside demo_attached)) demo_path = Some demo_volume"
    using core_operations [OF node_laws, of demo_cas demo_cache demo_path demo_node "Some demo_volume" demo_attached]
      demo_add_run by blast
  have "BackendPath demo_volume = demo_path" by (simp add: demo_volume_def)
  then show "find_volume (mem_caches (outside demo_node)) demo_path = None"
    using core_operations [OF node_laws, of demo_cas demo_cache demo_path demo_attached None demo_node demo_volume]
      demo_remove_run by auto
qed

lemma find_Some_first:
  "List.find P xs = Some x \<Longrightarrow> x \<in> set xs \<and> P x"
  by (auto simp: find_Some_iff)

lemma StartCache_lists:
  assumes "casadm_lists env st" and "returns (StartCache env cas path mode cls) w (r, None) w'"
  shows "\<exists>c. r = Some c \<and> c \<in> set (st (outside w')) \<and> DevicePath c = path"
  using assms(2)
  by (auto simp: StartCache_def returns_simps Let_def
      dest!: ListCaches_lists [OF assms(1), THEN conjunct1] find_Some_first)

lemma StopCache_lists:
  assumes "casadm_lists env st" and "returns (StopCache env cas (c :: Cache)) w None w'"
  shows "DevicePath c \<notin> DevicePath ` set (st (outside w'))"
  using assms(2)
  by (auto simp: StopCache_def returns_simps Let_def list_ex_iff dest!: ListCaches_lists [OF assms(1), THEN conjunct1])

lemma SetCacheMode_lists:
  assumes "casadm_lists env st" and "returns (SetCacheMode env cas (c :: Cache) mode) w None w'"
  shows "\<exists>c'. List.find (\<lambda>d. CacheId d = CacheId c) (st (outside w')) = Some c' \<and> CacheMode c' = mode"
  using assms(2)
  by (auto simp: SetCacheMode_def returns_simps Let_def dest!: ListCaches_lists [OF assms(1), THEN conjunct1])

text \<open>
  C15: When \<^verbatim>\<open>StartCache\<close> succeeds, the cache it returns is one the node lists, on the requested device.
  When \<^verbatim>\<open>StopCache\<close> succeeds, the node lists no cache on the device of that cache. When \<^verbatim>\<open>SetCacheMode\<close>
  succeeds, the first cache the node lists under that id is in the requested mode. Each holds in the
  world in which the call returns.
\<close>

theorem cache_operations:
  assumes "casadm_lists env st"
  shows "(returns (StartCache env cas path mode cls) w (r, None) w' \<longrightarrow>
      (\<exists>c. r = Some c \<and> c \<in> set (st (outside w')) \<and> DevicePath c = path)) \<and>
    (returns (StopCache env cas (c :: Cache)) w None w' \<longrightarrow>
      DevicePath c \<notin> DevicePath ` set (st (outside w'))) \<and>
    (returns (SetCacheMode env cas c mode) w None w' \<longrightarrow>
      (\<exists>c'. List.find (\<lambda>d. CacheId d = CacheId c) (st (outside w')) = Some c' \<and> CacheMode c' = mode))"
  using StartCache_lists [OF assms] StopCache_lists [OF assms] SetCacheMode_lists [OF assms] by blast

definition demo_stopped :: "mem world" where
  "demo_stopped = demo_node\<lparr>outside := (outside demo_node)\<lparr>MemCaches := []\<rparr>\<rparr>"

lemma demo_stop_run: "returns (StopCache node_env demo_cas demo_cache) demo_node None demo_stopped"
proof -
  have argv: "mem_casadm (Split (stopCacheCmd (CacheId demo_cache)) '' '') [demo_cache] = []"
    unfolding stopCache_argv by code_simp
  have step: "\<exists>name. run_casadm node_env demo_cas (stopCacheCmd (CacheId demo_cache)) demo_node =
      (Ret (name, Some \<lparr>StdOut = print_cache_list (mem_caches (outside demo_stopped)), ExitCode = 0\<rparr>, None), demo_stopped)"
    using mem_run_casadm [of demo_node "\<lambda>_. Exited ''/dev/sdb'' 0" demo_cas "stopCacheCmd (CacheId demo_cache)"]
    unfolding node_env_def demo_caches(2) argv Let_def demo_stopped_def by (simp add: demo_caches)
  have "ListCaches node_env demo_cas demo_stopped = (Ret ([], None), demo_stopped)"
    using mem_ListCaches [of demo_stopped] unfolding node_env_def
    by (simp add: demo_stopped_def demo_node_def mem_caches_def)
  then show ?thesis using step by (auto simp: returns_def StopCache_def Let_def bnd_Ret)
qed

theorem cache_operations_witness:
  "DevicePath demo_cache \<in> DevicePath ` set (mem_caches (outside demo_node)) \<and>
   DevicePath demo_cache \<notin> DevicePath ` set (mem_caches (outside demo_stopped))"
  using cache_operations [OF node_laws(1), where c = demo_cache and w = demo_node and w' = demo_stopped] demo_stop_run
  by (simp add: demo_caches)

text \<open>
  C31: \<^verbatim>\<open>ListCaches\<close> does not look at the exit code of the list command: a job that fails with nothing
  on its standard output is taken for an empty list of caches, without an error, and every
  lookup of a cached volume then says that the volume is not cached.
\<close>

theorem ListCaches_failed_command:
  assumes "returns (run_casadm env cas listCachesCmd) w (name, Some \<lparr>StdOut = [], ExitCode = code\<rparr>, None) w'"
  shows "returns (ListCaches env cas) w ([], None) w' \<and>
    returns (GetVolumeFromCacheList env cas path) w (None, None) w'"
proof -
  have "parseCacheList [] = Ret []"
    by (simp add: parseCacheList_rows NewReader_def csv_all.simps csv_read_def skip_blank.simps)
  then show ?thesis using assms
    by (simp add: returns_def ListCaches_def GetVolumeFromCacheList_def bnd_Ret)
qed

text \<open>The reference cluster with a \<^verbatim>\<open>casadm\<close> that fails and prints nothing.\<close>

definition failing_env :: "mem env" where
  "failing_env = node_env\<lparr>kube := (kube node_env)
     \<lparr>Pods_Logs := (\<lambda>ns n x. (Inl ([], None), x)),
      Pods_List := (\<lambda>ns f l x. (([Pod_zero\<lparr>PodMeta := named ''casadm'', ContainerStatuses := [\<lparr>Terminated = Some 1\<rparr>]\<rparr>], None), x))\<rparr>\<rparr>"

theorem ListCaches_failed_command_witness:
  "\<exists>w'. mem_caches (outside demo_attached) \<noteq> [] \<and>
     returns (GetVolumeFromCacheList failing_env demo_cas demo_path) demo_attached (None, None) w'"
proof -
  have "\<exists>name. run_casadm failing_env demo_cas listCachesCmd demo_attached =
      (Ret (name, Some \<lparr>StdOut = [], ExitCode = 1\<rparr>, None), snd (run_casadm failing_env demo_cas listCachesCmd demo_attached))"
    by (simp add: run_casadm_def range_replace_def ExecCasadmCommandAsJob_def NewCasadmJob_def bnd_call
        ConfiguredKubeletDir_run configured_set demo_caches ExecCommandJob_def ExecCommandJob_collect_def
        failing_env_def node_env_def mem_env_def mem_kube_def Let_def Pod_zero_def call_def bnd_def)
  then show ?thesis
    using ListCaches_failed_command [of failing_env demo_cas demo_attached _ 1] by (auto simp: returns_def demo_caches)
qed

text \<open>
  C28: A cache line size that \<^verbatim>\<open>GetCacheLineSize\<close> returns without an error is the number in the
  statistics, in KiB, unchanged by the conversion to eight bits: a number that does not fit is an
  error, never wrapped.
\<close>

theorem GetCacheLineSize_exact:
  assumes "returns (GetCacheLineSize env cas (c :: Cache)) w (cls, None) w'"
  shows "\<exists>stats. returns (GetStatistics env cas (CacheId c) (-1)) w (stats, None) w' \<and>
    ParseUint (mgets stats ''Cache line size [KiB]'') 8 = (unat cls, None) \<and> unat cls < 256"
proof -
  from assms obtain stats num where get: "returns (GetStatistics env cas (CacheId c) (-1)) w (stats, None) w'"
    and num: "ParseUint (mgets stats ''Cache line size [KiB]'') 8 = (num, None)" "cls = word_of_nat num"
    by (auto simp: GetCacheLineSize_def returns_simps) (metis prod.collapse)
  have "num < 256" using ParseUint_bound [of "mgets stats ''Cache line size [KiB]''" 8] num by simp
  then have "unat cls = num" using num(2) by (simp add: unat_of_nat take_bit_eq_mod)
  then show ?thesis using get num \<open>num < 256\<close> by auto
qed

definition stats_env :: "mem env" where
  "stats_env = node_env\<lparr>kube := (kube node_env)
     \<lparr>Pods_Logs := (\<lambda>ns n x. (Inl (csv_line [''Cache Id'', ''Cache line size [KiB]''] @ csv_line [''1'', ''64''], None), x))\<rparr>\<rparr>"

theorem GetCacheLineSize_exact_witness:
  "\<exists>stats w'. returns (GetStatistics stats_env demo_cas 1 (-1)) demo_node (stats, None) w' \<and>
     ParseUint (mgets stats ''Cache line size [KiB]'') 8 = (64, None)"
proof -
  have stats: "parseStats (csv_line [''Cache Id'', ''Cache line size [KiB]''] @ csv_line [''1'', ''64'']) =
      (Some [(''Cache Id'', ''1''), (''Cache line size [KiB]'', ''64'')], None)"
    by code_simp
  have num: "ParseUint (mgets (Some [(''Cache Id'', ''1''), (''Cache line size [KiB]'', ''64'')]) ''Cache line size [KiB]'') 8 =
      (64, None)"
    by code_simp
  have id: "CacheId demo_cache = 1" by (simp add: demo_cache_def)
  have "\<exists>name. run_casadm stats_env demo_cas (statsCmd 1 (-1)) demo_node = (Ret (name, Some
      \<lparr>StdOut = csv_line [''Cache Id'', ''Cache line size [KiB]''] @ csv_line [''1'', ''64''], ExitCode = 0\<rparr>, None),
      snd (run_casadm stats_env demo_cas (statsCmd 1 (-1)) demo_node))"
    by (simp add: run_casadm_def range_replace_def ExecCasadmCommandAsJob_def NewCasadmJob_def bnd_call
        ConfiguredKubeletDir_run configured_set demo_caches ExecCommandJob_def ExecCommandJob_collect_def
        stats_env_def node_env_def mem_env_def mem_kube_def Let_def Pod_zero_def call_def bnd_def)
  then obtain w' where "returns (GetStatistics stats_env demo_cas 1 (-1)) demo_node
      (Some [(''Cache Id'', ''1''), (''Cache line size [KiB]'', ''64'')], None) w'"
    using stats by (auto simp: GetStatistics_def returns_def bnd_Ret)
  then have "returns (GetCacheLineSize stats_env demo_cas demo_cache) demo_node (64, None) w'"
    using num id by (simp add: GetCacheLineSize_def returns_def bnd_Ret)
  from GetCacheLineSize_exact [OF this] show ?thesis unfolding id by auto
qed

end
