(* ===== verification/Cache_Reconciler.thy ===== *)
theory Cache_Reconciler
  imports Operator_Types Open_Cas
begin

text \<open>
  \<^verbatim>\<open>pkg/csi-operator/internal/controller/cache_controller.go\<close> and the \<^verbatim>\<open>Cache\<close> resource of
  \<^verbatim>\<open>pkg/csi-operator/api/v1alpha1\<close>: the reconciler that brings the cache of a node to the state its
  \<^verbatim>\<open>Cache\<close> resource describes.

  controller-runtime's client is a parameter, the record \<open>cache_client\<close>. Its \<^verbatim>\<open>Get\<close> and \<^verbatim>\<open>Patch\<close> fill
  the object they are given; here they return it. The mutex per node makes a reconciliation one
  step for its node.
\<close>

section \<open>The Cache resource\<close>

record CacheSpec =
  DeviceById :: string
  CacheLizeSize :: int
  SpecCacheMode :: string

record CacheStatusOf =
  StatusReady :: bool
  StatusCacheId :: int

record CacheResource =
  CacheMeta :: ObjectMeta
  Spec :: CacheSpec
  Status_of :: CacheStatusOf

text \<open>The admission webhook of the resource lets everything pass.\<close>

definition ValidateCreate :: "CacheResource \<Rightarrow> string list option \<times> error option" where
  "ValidateCreate r = (None, None)"

definition ValidateUpdate :: "CacheResource \<Rightarrow> 'o \<Rightarrow> string list option \<times> error option" where
  "ValidateUpdate r old = (None, None)"

definition ValidateDelete :: "CacheResource \<Rightarrow> string list option \<times> error option" where
  "ValidateDelete r = (None, None)"

section \<open>The client\<close>

record 'x cache_client =
  Caches_Get :: "key \<Rightarrow> 'x \<Rightarrow> (CacheResource \<times> error option) \<times> 'x"
  Caches_List :: "'x \<Rightarrow> (CacheResource list \<times> error option) \<times> 'x"
  Caches_Patch :: "CacheResource \<Rightarrow> CacheResource \<Rightarrow> 'x \<Rightarrow> (CacheResource \<times> error option) \<times> 'x"
  CNodes_Get :: "key \<Rightarrow> 'x \<Rightarrow> (Node \<times> error option) \<times> 'x"
  CNodes_Patch :: "Node \<Rightarrow> Node \<Rightarrow> 'x \<Rightarrow> (Node \<times> error option) \<times> 'x"
  CacheFinalizers :: finalizer_ops

text \<open>
  The operations on the two objects. A patch is sent as the difference to the copy taken before the
  change; the object is what the client returns.
\<close>

definition Cache_AddFinalizer ::
  "'x cache_client \<Rightarrow> CacheResource \<Rightarrow> ('x world, CacheResource \<times> error option) io" where
  "Cache_AddFinalizer cl c =
     (case AddFinalizerTo (CacheFinalizers cl) (Finalizers (CacheMeta c)) Finalizer of (changed, fs) \<Rightarrow>
      let c' = c\<lparr>CacheMeta := (CacheMeta c)\<lparr>Finalizers := fs\<rparr>\<rparr> in
      if changed then call (Caches_Patch cl c' c) else ret (c', None))"

definition Cache_RemoveFinalizer ::
  "'x cache_client \<Rightarrow> CacheResource \<Rightarrow> ('x world, CacheResource \<times> error option) io" where
  "Cache_RemoveFinalizer cl c =
     (case RemoveFinalizerFrom (CacheFinalizers cl) (Finalizers (CacheMeta c)) Finalizer of (changed, fs) \<Rightarrow>
      let c' = c\<lparr>CacheMeta := (CacheMeta c)\<lparr>Finalizers := fs\<rparr>\<rparr> in
      if changed then call (Caches_Patch cl c' c) else ret (c', None))"

definition SetOperatingCacheLabel ::
  "'x cache_client \<Rightarrow> Node \<Rightarrow> string \<Rightarrow> ('x world, Node \<times> error option) io" where
  "SetOperatingCacheLabel cl n val =
     bnd (of_outcome (mput (Labels (NodeMeta n)) OperatingCacheLabelKey val)) (\<lambda>nodeLabels.
     call (CNodes_Patch cl (n\<lparr>NodeMeta := (NodeMeta n)\<lparr>Labels := nodeLabels\<rparr>\<rparr>) n))"

definition DeleteOperatingCacheLabel ::
  "'x cache_client \<Rightarrow> Node \<Rightarrow> ('x world, Node \<times> error option) io" where
  "DeleteOperatingCacheLabel cl n =
     call (CNodes_Patch cl
       (n\<lparr>NodeMeta := (NodeMeta n)\<lparr>Labels := mdel (Labels (NodeMeta n)) OperatingCacheLabelKey\<rparr>\<rparr>) n)"

section \<open>Reconciliation\<close>

definition targetCls :: "CacheResource \<Rightarrow> CacheLineSize" where
  "targetCls cacheDef =
     (if CacheLizeSize (Spec cacheDef) \<noteq> 0 then word_of_int (CacheLizeSize (Spec cacheDef)) else CLS_4k)"

definition targetMode :: "CacheResource \<Rightarrow> CacheMode" where
  "targetMode cacheDef =
     (if SpecCacheMode (Spec cacheDef) \<noteq> [] then SpecCacheMode (Spec cacheDef) else WriteThrough)"

text \<open>
  Which caches to stop and which to keep: \<open>Inl\<close> is the early return when a cache line size cannot
  be read.
\<close>

fun Reconcile_plan ::
  "'x env \<Rightarrow> OpenCAS \<Rightarrow> CacheResource \<Rightarrow> Cache list \<Rightarrow> Cache list \<times> Cache option
     \<Rightarrow> ('x world, (ctrl_Result \<times> error option) + (Cache list \<times> Cache option)) io" where
  "Reconcile_plan env cas cacheDef [] acc = ret (Inr acc)"
| "Reconcile_plan env cas cacheDef (inst # rest) (removeInstances, modifyInstance) =
     (if DevicePath inst \<noteq> DeviceById (Spec cacheDef) \<or> \<not> not_deleted (CacheMeta cacheDef) then
        Reconcile_plan env cas cacheDef rest (removeInstances @ [inst], modifyInstance)
      else
        bnd (GetCacheLineSize env cas inst) (\<lambda>(cls, err).
        if err \<noteq> None then
          ret (Inl (\<lparr>Requeue = True, RequeueAfter = 0\<rparr>,
            Some (errorf (''failed to get cache line size on node '' @ fmt_q (Name (CacheMeta cacheDef))
              @ [NL] @ ''err: '' @ err_text err))))
        else if cls \<noteq> targetCls cacheDef then
          Reconcile_plan env cas cacheDef rest (removeInstances @ [inst], modifyInstance)
        else Reconcile_plan env cas cacheDef rest (removeInstances, Some inst)))"

text \<open>
  Stopping the caches that are not wanted, with the label read before the loop; the flag says
  whether something is left to be done later.
\<close>

fun Reconcile_remove ::
  "'x env \<Rightarrow> 'x cache_client \<Rightarrow> OpenCAS \<Rightarrow> CacheResource \<Rightarrow> string option \<Rightarrow> Cache list \<Rightarrow> Node \<times> bool
     \<Rightarrow> ('x world, Node \<times> bool) io" where
  "Reconcile_remove env cl cas cacheDef label [] acc = ret acc"
| "Reconcile_remove env cl cas cacheDef label (inst # rest) (node, again) =
     bnd (if label = Some (fmt_int (CacheId inst)) \<and> not_deleted (CacheMeta cacheDef)
          then bnd (SetOperatingCacheLabel cl node '''') (\<lambda>(node', err). ret node')
          else ret node) (\<lambda>node.
     if CacheVolumes inst = [] then
       bnd (StopCache env cas inst) (\<lambda>err.
       Reconcile_remove env cl cas cacheDef label rest (node, again \<or> err \<noteq> None))
     else
       Reconcile_remove env cl cas cacheDef label rest (node, again \<or> not_deleted (CacheMeta cacheDef)))"

text \<open>
  Changing the mode of the cache that is kept, or starting one. \<open>Inl\<close> is the early return when the
  cache cannot be started.
\<close>

definition Reconcile_apply ::
  "'x env \<Rightarrow> 'x cache_client \<Rightarrow> OpenCAS \<Rightarrow> CacheResource \<Rightarrow> Cache option \<Rightarrow> Node \<times> bool
     \<Rightarrow> ('x world, (ctrl_Result \<times> error option) + (Node \<times> bool)) io" where
  "Reconcile_apply env cl cas cacheDef modifyInstance = (\<lambda>(node, again).
     case modifyInstance of
       Some inst \<Rightarrow>
         if CacheMode inst \<noteq> targetMode cacheDef then
           bnd (SetCacheMode env cas inst (targetMode cacheDef)) (\<lambda>err.
           ret (Inr (node, again \<or> err \<noteq> None)))
         else ret (Inr (node, again))
     | None \<Rightarrow>
         if not_deleted (CacheMeta cacheDef) then
           bnd (StartCache env cas (DeviceById (Spec cacheDef)) (SpecCacheMode (Spec cacheDef))
                  (word_of_int (CacheLizeSize (Spec cacheDef)))) (\<lambda>(cache, err).
           if err \<noteq> None then ret (Inl (\<lparr>Requeue = False, RequeueAfter = DefaultRequequeAfter\<rparr>, None))
           else
             bnd (deref cache) (\<lambda>cache.
             bnd (SetOperatingCacheLabel cl node (fmt_int (CacheId cache))) (\<lambda>(node, err).
             ret (Inr (node, again)))))
         else ret (Inr (node, again)))"

definition Reconcile_finish ::
  "'x cache_client \<Rightarrow> CacheResource \<Rightarrow> Node \<times> bool \<Rightarrow> ('x world, ctrl_Result \<times> error option) io" where
  "Reconcile_finish cl cacheDef = (\<lambda>(node, again).
     bnd (if \<not> not_deleted (CacheMeta cacheDef) \<and> \<not> again then
            bnd (Cache_RemoveFinalizer cl cacheDef) (\<lambda>(_, err).
            if err \<noteq> None then ret True
            else bnd (DeleteOperatingCacheLabel cl node) (\<lambda>(_, err). ret (err \<noteq> None)))
          else ret again) (\<lambda>again.
     if again then ret (\<lparr>Requeue = False, RequeueAfter = DefaultRequequeAfter\<rparr>, None)
     else ret (Result_zero, None)))"

text \<open>
  The part of the reconciliation that works on the node, once both objects are known: the phases on
  the instances found, and before them the manager and the list.
\<close>

definition Reconcile_instances ::
  "'x env \<Rightarrow> 'x cache_client \<Rightarrow> OpenCAS \<Rightarrow> CacheResource \<Rightarrow> Node \<Rightarrow> Cache list
     \<Rightarrow> ('x world, ctrl_Result \<times> error option) io" where
  "Reconcile_instances env cl cas cacheDef node instances =
     bnd (Reconcile_plan env cas cacheDef instances ([], None)) (\<lambda>plan.
     case plan of
       Inl r \<Rightarrow> ret r
     | Inr (removeInstances, modifyInstance) \<Rightarrow>
         bnd (Reconcile_remove env cl cas cacheDef (mget (Labels (NodeMeta node)) OperatingCacheLabelKey)
                removeInstances (node, False)) (\<lambda>acc.
         bnd (Reconcile_apply env cl cas cacheDef modifyInstance acc) (\<lambda>applied.
         case applied of
           Inl r \<Rightarrow> ret r
         | Inr acc \<Rightarrow> Reconcile_finish cl cacheDef acc)))"

definition Reconcile_node ::
  "'x env \<Rightarrow> 'x cache_client \<Rightarrow> CacheResource \<Rightarrow> Node \<Rightarrow> ('x world, ctrl_Result \<times> error option) io" where
  "Reconcile_node env cl cacheDef node =
     (if Getenv env CasadmImageEnv = [] then
        ret (\<lparr>Requeue = False, RequeueAfter = LongRequeueAfter\<rparr>,
          Some (errorf ''casadm image not configured, cannot reconcile caches''))
      else
        bnd (NewOpenCasManager env (Name (CacheMeta cacheDef)) (Getenv env OperatorNamespaceEnv)) (\<lambda>(cas, err).
        if err \<noteq> None then
          ret (\<lparr>Requeue = True, RequeueAfter = 0\<rparr>,
            Some (errorf (''cannot create Open-CAS manager on node '' @ fmt_q (Name (CacheMeta cacheDef))
              @ [NL] @ ''err: '' @ err_text err)))
        else
          bnd (deref cas) (\<lambda>cas.
          bnd (GetCacheInstances env cas) (\<lambda>(instances, err).
          if err \<noteq> None then
            ret (\<lparr>Requeue = True, RequeueAfter = 0\<rparr>,
              Some (errorf (''failed to get caches on node '' @ fmt_q (Name (CacheMeta cacheDef))
                @ [NL] @ ''err: '' @ err_text err)))
          else Reconcile_instances env cl cas cacheDef node instances))))"

definition Cache_Reconcile ::
  "'x env \<Rightarrow> 'x cache_client \<Rightarrow> key \<Rightarrow> ('x world, ctrl_Result \<times> error option) io" where
  "Cache_Reconcile env cl req =
     bnd (call (Caches_Get cl req)) (\<lambda>(cacheDef, err).
     if err \<noteq> None then ret (Result_zero, if err_that IsNotFound err then None else err)
     else
       bnd (call (CNodes_Get cl (Namespace (CacheMeta cacheDef), Name (CacheMeta cacheDef)))) (\<lambda>(node, err).
       if err \<noteq> None then ret (Result_zero, if err_that IsNotFound err then None else err)
       else
         bnd (if not_deleted (CacheMeta cacheDef) then bnd (Cache_AddFinalizer cl cacheDef) (\<lambda>(c, err). ret c)
              else ret cacheDef) (\<lambda>cacheDef.
         Reconcile_node env cl cacheDef node)))"

section \<open>Watching the nodes\<close>

text \<open>The requests a change of a node gives rise to, and the updates of a node that count as one.\<close>

definition node_requests :: "'x cache_client \<Rightarrow> Node \<Rightarrow> ('x world, key list option) io" where
  "node_requests cl node =
     bnd (call (Caches_List cl)) (\<lambda>(cacheList, err).
     if err \<noteq> None then ret None
     else ret (Some (map (\<lambda>cache. (Namespace (CacheMeta cache), Name (CacheMeta cache)))
                 (filter (\<lambda>cache. Name (CacheMeta cache) = Name (NodeMeta node)) cacheList))))"

definition NodeReady :: string where "NodeReady = ''Ready''"
definition ConditionTrue :: string where "ConditionTrue = ''True''"

fun node_updated :: "NodeCondition list \<Rightarrow> NodeCondition list \<Rightarrow> bool" where
  "node_updated [] old = False"
| "node_updated (newCond # rest) old =
     (if CondType newCond = NodeReady then
        (case List.find (\<lambda>oldCond. CondType oldCond = NodeReady) old of
           Some oldCond \<Rightarrow> CondStatus oldCond \<noteq> CondStatus newCond \<and> CondStatus newCond = ConditionTrue
         | None \<Rightarrow> node_updated rest old)
      else node_updated rest old)"

section \<open>What a casadm command does to the caches of a node\<close>

text \<open>
  The documented effect of a \<^verbatim>\<open>casadm\<close> command on the list of the caches of the node it runs on. A command
  that fails changes nothing; starting adds a cache without cores on the device, in the
  requested mode; stopping removes the cache with the id; a change of mode changes the mode of the cache
  with the id. Nothing is said here about the commands on cores, which a reconciliation never runs.
\<close>

inductive casadm_step :: "string list \<Rightarrow> Cache list \<Rightarrow> Cache list \<Rightarrow> bool" where
  unchanged: "casadm_step argv cs cs"
| started: "argv ! 1 = ''--start-cache'' \<Longrightarrow> DevicePath c = argv ! 4 \<Longrightarrow> CacheVolumes c = [] \<Longrightarrow>
     CacheMode c = (if 6 < length argv \<and> argv ! 5 = ''--cache-mode'' then argv ! 6 else ''wt'') \<Longrightarrow>
     casadm_step argv cs (cs @ [c])"
| stopped: "argv ! 1 = ''--stop-cache'' \<Longrightarrow>
     casadm_step argv cs (filter (\<lambda>c. fmt_int (CacheId c) \<noteq> argv ! 3) cs)"
| switched: "argv ! 1 = ''--set-cache-mode'' \<Longrightarrow>
     casadm_step argv cs (map (\<lambda>c. if fmt_int (CacheId c) = argv ! 3 then with_mode (argv ! 5) c else c) cs)"
| cored: "argv ! 1 = ''--add-core'' \<or> argv ! 1 = ''--remove-core'' \<Longrightarrow> casadm_step argv cs cs'"

inductive_cases casadm_stepE: "casadm_step argv cs cs'"

text \<open>
  \<open>cache_node env st\<close>: the node of \<open>env\<close> runs \<^verbatim>\<open>casadm\<close>, the list command prints the caches \<open>st\<close>, and nothing but
  jobs changes them. \<open>client_quiet cl obs\<close>: the client leaves the observation \<open>obs\<close> as it is.
\<close>

definition cache_node :: "'x env \<Rightarrow> ('x \<Rightarrow> Cache list) \<Rightarrow> bool" where
  "cache_node env st \<longleftrightarrow>
     casadm_lists env st \<and> reads_quiet env st \<and> (\<forall>m x. st (snd (RangeOrder env m x)) = st x) \<and>
     (\<forall>job w r w'. returns (ExecCommandJob env job) w r w' \<longrightarrow>
        casadm_step (job_argv job) (st (outside w)) (st (outside w')))"

definition client_quiet :: "'x cache_client \<Rightarrow> ('x \<Rightarrow> 'o) \<Rightarrow> bool" where
  "client_quiet cl obs \<longleftrightarrow>
     (\<forall>k x. obs (snd (Caches_Get cl k x)) = obs x \<and> obs (snd (CNodes_Get cl k x)) = obs x) \<and>
     (\<forall>c c' x. obs (snd (Caches_Patch cl c c' x)) = obs x) \<and>
     (\<forall>n n' x. obs (snd (CNodes_Patch cl n n' x)) = obs x)"

lemma client_quiet_calls:
  assumes "client_quiet cl obs"
  shows "keeps (same_obs obs) (call (Caches_Get cl k))" "keeps (same_obs obs) (call (CNodes_Get cl k))"
    "keeps (same_obs obs) (call (Caches_Patch cl c c'))" "keeps (same_obs obs) (call (CNodes_Patch cl n n'))"
  using assms unfolding client_quiet_def by (blast intro: same_obs_call)+

lemma client_quiet_ops:
  assumes "client_quiet cl obs"
  shows "keeps (same_obs obs) (Cache_AddFinalizer cl c)" "keeps (same_obs obs) (Cache_RemoveFinalizer cl c)"
    "keeps (same_obs obs) (SetOperatingCacheLabel cl n v)" "keeps (same_obs obs) (DeleteOperatingCacheLabel cl n)"
  unfolding Cache_AddFinalizer_def Cache_RemoveFinalizer_def SetOperatingCacheLabel_def DeleteOperatingCacheLabel_def
  by (intro keeps_obs client_quiet_calls [OF assms])+

lemma cache_nodeD:
  assumes "cache_node env st"
  shows "casadm_lists env st" and "reads_quiet env st" and "st (snd (RangeOrder env m x)) = st x"
    and "returns (ExecCommandJob env job) w r w' \<Longrightarrow>
      casadm_step (job_argv job) (st (outside w)) (st (outside w'))"
proof -
  note laws = assms [unfolded cache_node_def]
  show "casadm_lists env st" "reads_quiet env st" "st (snd (RangeOrder env m x)) = st x" using laws by simp_all
  show "returns (ExecCommandJob env job) w r w' \<Longrightarrow> casadm_step (job_argv job) (st (outside w)) (st (outside w'))"
    by (rule mp [OF laws [THEN conjunct2, THEN conjunct2, THEN conjunct2, THEN spec, THEN spec, THEN spec, THEN spec]])
qed

text \<open>Building the job does not touch the outside world, so the effect of a command is that of its job.\<close>

lemma ExecCasadmCommandAsJob_outside:
  assumes "returns (ExecCasadmCommandAsJob env cmd node name ns) w r w'"
  shows "\<exists>job w1. returns (ExecCommandJob env job) w1 r w' \<and> job_argv job = Split cmd '' '' \<and> outside w1 = outside w"
  using assms
  by (force simp: ExecCasadmCommandAsJob_def NewCasadmJob_def returns_simps Let_def job_argv_def
      Container_zero_def PodSpec_zero_def Job_zero_def)

lemma run_casadm_step:
  assumes "cache_node env st" and "returns (run_casadm env cas cmd) w r w'"
  shows "casadm_step (Split cmd '' '') (st (outside w)) (st (outside w'))"
proof -
  from assms(2) obtain order name out err w1 where
    order: "returns (range_replace env) w order w1" and
    run: "returns (ExecCasadmCommandAsJob env cmd (CasNodeId cas) name (CasNamespace cas)) w1 (out, err) w'"
    by (auto simp: run_casadm_def returns_simps Let_def)
  from order have same: "st (outside w1) = st (outside w)"
    using cache_nodeD(3) [OF assms(1), of replace "outside w"] by (auto simp: range_replace_def returns_simps)
  from ExecCasadmCommandAsJob_outside [OF run] show ?thesis
    using cache_nodeD(4) [OF assms(1)] same by metis
qed

section \<open>The contract of the manager with the reconciler\<close>

text \<open>
  The caches that serve volumes: their id, device and the backend paths of their cores.
\<close>

definition busy :: "Cache list \<Rightarrow> (int \<times> string \<times> string list) set" where
  "busy cs = (\<lambda>c. (CacheId c, DevicePath c, map fst (CacheVolumes c))) ` {c \<in> set cs. CacheVolumes c \<noteq> []}"

lemma with_mode_simps [simp]:
  "CacheId (with_mode m c) = CacheId c" "DevicePath (with_mode m c) = DevicePath c" "CacheMode (with_mode m c) = m"
  "map fst (CacheVolumes (with_mode m c)) = map fst (CacheVolumes c)" "CacheVolumes (with_mode m c) = [] \<longleftrightarrow> CacheVolumes c = []"
  by (simp_all add: with_mode_def comp_def split_def)

lemma busy_filter:
  "(\<And>c. c \<in> set cs \<Longrightarrow> CacheVolumes c \<noteq> [] \<Longrightarrow> P c) \<Longrightarrow> busy (filter P cs) = busy cs"
  by (auto simp: busy_def image_iff)

lemma busy_idle: "list_all (\<lambda>c. CacheVolumes c = []) new \<Longrightarrow> busy (cs @ new) = busy cs"
  by (auto simp: busy_def list_all_iff)

lemma busy_with_mode: "busy (map (\<lambda>c. if P c then with_mode m c else c) cs) = busy cs"
proof -
  let ?key = "\<lambda>c :: Cache. (CacheId c, DevicePath c, map fst (CacheVolumes c))"
  have "busy cs = ?key ` set (filter (\<lambda>c. CacheVolumes c \<noteq> []) cs)" for cs by (simp add: busy_def)
  moreover have "map ?key (filter (\<lambda>c. CacheVolumes c \<noteq> []) (map (\<lambda>c. if P c then with_mode m c else c) cs)) =
      map ?key (filter (\<lambda>c. CacheVolumes c \<noteq> []) cs)"
    by (induction cs) auto
  ultimately show ?thesis by (metis (no_types, lifting) list.set_map)
qed

locale cache_manager =
  fixes lawful :: bool
    and listed :: "('w, Cache list \<times> error option) io"
    and size_of :: "Cache \<Rightarrow> ('w, CacheLineSize \<times> error option) io"
    and start :: "string \<Rightarrow> CacheMode \<Rightarrow> CacheLineSize \<Rightarrow> ('w, Cache option \<times> error option) io"
    and stop :: "Cache \<Rightarrow> ('w, error option) io"
    and set_mode :: "Cache \<Rightarrow> CacheMode \<Rightarrow> ('w, error option) io"
    and caches :: "'w \<Rightarrow> Cache list"
  assumes listed_exact: "lawful \<Longrightarrow> returns listed w (cs, None) w' \<Longrightarrow> cs = caches w'"
    and listed_quiet: "lawful \<Longrightarrow> returns listed w ls w' \<Longrightarrow> caches w' = caches w"
    and size_quiet: "lawful \<Longrightarrow> returns (size_of c) w s w' \<Longrightarrow> caches w' = caches w"
    and start_adds: "lawful \<Longrightarrow> no_blank p \<Longrightarrow> no_blank m \<Longrightarrow> returns (start p m cls) w (r, err) w' \<Longrightarrow>
      \<exists>new. caches w' = caches w @ new \<and> list_all (\<lambda>c. DevicePath c = p \<and> CacheVolumes c = [] \<and>
        CacheMode c = (if m = [] then ''wt'' else m)) new"
    and start_found: "lawful \<Longrightarrow> returns (start p m cls) w (r, None) w' \<Longrightarrow>
      \<exists>c \<in> set (caches w'). r = Some c \<and> DevicePath c = p"
    and stop_removes: "lawful \<Longrightarrow> returns (stop c) w err w' \<Longrightarrow>
      caches w' = caches w \<or> caches w' = filter (\<lambda>d. CacheId d \<noteq> CacheId c) (caches w)"
    and stop_gone: "lawful \<Longrightarrow> returns (stop c) w None w' \<Longrightarrow> DevicePath c \<notin> DevicePath ` set (caches w')"
    and mode_changes: "lawful \<Longrightarrow> no_blank m \<Longrightarrow> returns (set_mode c m) w err w' \<Longrightarrow>
      caches w' = caches w \<or>
      caches w' = map (\<lambda>d. if CacheId d = CacheId c then with_mode m d else d) (caches w)"
    and mode_set: "lawful \<Longrightarrow> returns (set_mode c m) w None w' \<Longrightarrow>
      \<exists>c'. List.find (\<lambda>d. CacheId d = CacheId c) (caches w') = Some c' \<and> CacheMode c' = m"
begin

text \<open>
  A cache that had no cores when the caches \<open>cs\<close> were listed can be stopped later without touching a
  busy one, as long as no cache has appeared in between. Starting and changing a mode never do.
\<close>

lemma stop_busy:
  assumes lawful and run: "returns (stop c) w err w'" and c: "c \<in> set cs" "CacheVolumes c = []"
    and cs: "distinct (map CacheId cs)" "set (caches w) \<subseteq> set cs"
  shows "busy (caches w') = busy (caches w)"
  using stop_removes [OF assms(1) run]
proof
  assume "caches w' = filter (\<lambda>d. CacheId d \<noteq> CacheId c) (caches w)"
  moreover have "CacheId d \<noteq> CacheId c" if "d \<in> set (caches w)" "CacheVolumes d \<noteq> []" for d
    using that c cs by (metis distinct_map inj_onD subsetD)
  ultimately show ?thesis by (simp add: busy_filter)
qed simp

lemma start_busy:
  assumes lawful "no_blank p" "no_blank m" "returns (start p m cls) w (r, err) w'"
  shows "busy (caches w') = busy (caches w)"
proof -
  from start_adds [OF assms] obtain new where new: "caches w' = caches w @ new"
    "list_all (\<lambda>c. DevicePath c = p \<and> CacheVolumes c = [] \<and> CacheMode c = (if m = [] then ''wt'' else m)) new"
    by blast
  from new(2) have "list_all (\<lambda>c. CacheVolumes c = []) new" by (simp add: list_all_iff)
  then show ?thesis using new(1) by (simp add: busy_idle)
qed

lemma mode_busy:
  assumes lawful "no_blank m" "returns (set_mode c m) w err w'"
  shows "busy (caches w') = busy (caches w)"
  using mode_changes [OF assms] by (auto simp: busy_with_mode)

text \<open>On a node without caches a successful start leaves the new cache alone, in the requested mode.\<close>

lemma start_alone:
  assumes "lawful" "no_blank p" "no_blank m" "returns (start p m cls) w (r, None) w'" "caches w = []"
  shows "\<exists>c. r = Some c \<and> c \<in> set (caches w') \<and>
    (\<forall>d \<in> set (caches w'). DevicePath d = p \<and> CacheMode d = (if m = [] then ''wt'' else m))"
  using start_adds [OF assms(1-4)] start_found [OF assms(1,4)] assms(5) by (auto simp: list_all_iff)

end

text \<open>The effects of the commands the manager runs, by inversion of the step of the job.\<close>

lemma query_step:
  "argv ! 1 \<notin> {''--start-cache'', ''--stop-cache'', ''--set-cache-mode'', ''--add-core'', ''--remove-core''} \<Longrightarrow>
     casadm_step argv cs cs' \<Longrightarrow> cs' = cs"
  by (auto elim: casadm_stepE)

lemma stop_step:
  "casadm_step (Split (stopCacheCmd i) '' '') cs cs' \<Longrightarrow> cs' = cs \<or> cs' = filter (\<lambda>c. CacheId c \<noteq> i) cs"
  unfolding stopCache_argv by (auto elim!: casadm_stepE simp: fmt_int_inj)

lemma mode_step:
  assumes "no_blank m" and "casadm_step (Split (setCacheModeCmd i m) '' '') cs cs'"
  shows "cs' = cs \<or> cs' = map (\<lambda>c. if CacheId c = i then with_mode m c else c) cs"
  using assms(2) unfolding setCacheMode_argv [OF assms(1)] by (auto elim!: casadm_stepE simp: fmt_int_inj)

lemma start_step:
  assumes "no_blank p" "no_blank m" and "casadm_step (Split (startCacheCmd p m cls (-1)) '' '') cs cs'"
  shows "\<exists>new. cs' = cs @ new \<and> list_all (\<lambda>c. DevicePath c = p \<and> CacheVolumes c = [] \<and>
    CacheMode c = (if m = [] then ''wt'' else m)) new"
  using assms(3) unfolding startCache_argv [OF assms(1,2)]
proof (cases rule: casadm_step.cases)
  case unchanged
  then show ?thesis by (intro exI [of _ "[]"]) simp
next
  case (started c)
  then show ?thesis by (intro exI [of _ "[c]"]) (auto split: if_splits)
qed auto

lemma query_argv:
  "Split listCachesCmd '' '' ! 1 = ''--list-caches''" "Split (statsCmd i (-1)) '' '' ! 1 = ''--stats''"
  unfolding listCaches_argv stats_argv by simp_all

lemma ListCaches_st:
  assumes "cache_node env st" and "returns (ListCaches env cas) w r w'"
  shows "st (outside w') = st (outside w)"
proof -
  from assms(2) obtain s where "returns (run_casadm env cas listCachesCmd) w s w'"
    by (auto simp: ListCaches_def returns_simps)
  from run_casadm_step [OF assms(1) this] show ?thesis by (rule query_step [rotated]) (unfold query_argv, simp)
qed

lemma GetCacheLineSize_st:
  assumes "cache_node env st" and "returns (GetCacheLineSize env cas (c :: Cache)) w r w'"
  shows "st (outside w') = st (outside w)"
proof -
  from assms(2) obtain s where "returns (run_casadm env cas (statsCmd (CacheId c) (-1))) w s w'"
    by (auto simp: GetCacheLineSize_def GetStatistics_def returns_simps)
  from run_casadm_step [OF assms(1) this] show ?thesis by (rule query_step [rotated]) (unfold query_argv, simp)
qed

text \<open>Each changing operation runs its command once and then only lists.\<close>

lemma StopCache_st:
  assumes "cache_node env st" and "returns (StopCache env cas (c :: Cache)) w err w'"
  shows "casadm_step (Split (stopCacheCmd (CacheId c)) '' '') (st (outside w)) (st (outside w'))"
  using assms(2) ListCaches_st [OF assms(1)] run_casadm_step [OF assms(1)]
  by (auto simp: StopCache_def returns_simps Let_def)

lemma SetCacheMode_st:
  assumes "cache_node env st" and "returns (SetCacheMode env cas (c :: Cache) m) w err w'"
  shows "casadm_step (Split (setCacheModeCmd (CacheId c) m) '' '') (st (outside w)) (st (outside w'))"
  using assms(2) ListCaches_st [OF assms(1)] run_casadm_step [OF assms(1)]
  by (auto simp: SetCacheMode_def returns_simps Let_def)

lemma StartCache_st:
  assumes "cache_node env st" and "returns (StartCache env cas p m cls) w r w'"
  shows "casadm_step (Split (startCacheCmd p m cls (-1)) '' '') (st (outside w)) (st (outside w'))"
  using assms(2) ListCaches_st [OF assms(1)] run_casadm_step [OF assms(1)]
  by (auto simp: StartCache_def returns_simps Let_def)

interpretation managed: cache_manager "cache_node env st" "ListCaches env cas" "GetCacheLineSize env cas"
  "StartCache env cas" "StopCache env cas" "SetCacheMode env cas" "\<lambda>w. st (outside w)"
  for env :: "'x env" and cas :: OpenCAS and st :: "'x \<Rightarrow> Cache list"
proof (unfold_locales, goal_cases)
  case (1 w cs w')
  then show ?case using ListCaches_lists cache_nodeD(1) by blast
next
  case (2 w ls w')
  then show ?case by (rule ListCaches_st)
next
  case (3 c w s w')
  then show ?case by (rule GetCacheLineSize_st)
next
  case (4 p m cls w r err w')
  then show ?case using StartCache_st start_step by blast
next
  case (5 p m cls w r w')
  then show ?case using StartCache_lists [OF cache_nodeD(1)] by blast
next
  case (6 c w err w')
  then show ?case using StopCache_st stop_step by blast
next
  case (7 c w w')
  then show ?case using StopCache_lists [OF cache_nodeD(1)] by blast
next
  case (8 m c w err w')
  then show ?case using SetCacheMode_st mode_step by blast
next
  case (9 c m w w')
  then show ?case using SetCacheMode_lists [OF cache_nodeD(1)] by blast
qed

section \<open>The phases of a reconciliation\<close>

text \<open>
  Planning leaves the caches as they are and splits the instances into those to remove and those
  that are kept, the last of which may be modified.
\<close>

lemma plan_st:
  assumes "cache_node env st" and "returns (Reconcile_plan env cas cacheDef insts acc) w r w'"
  shows "st (outside w') = st (outside w)"
  using assms(2)
proof (induction insts arbitrary: acc w)
  case Nil
  then show ?case by (auto simp: returns_def)
next
  case (Cons i rest)
  obtain R M where acc: "acc = (R, M)" by (cases acc)
  from Cons.prems consider (ends) s where "returns (GetCacheLineSize env cas i) w s w'"
    | (goes) acc' w1 where "st (outside w1) = st (outside w)" "returns (Reconcile_plan env cas cacheDef rest acc') w1 r w'"
    using managed.size_quiet [OF assms(1)] unfolding acc by (auto simp: returns_simps split: if_splits) blast+
  then show ?case
    using managed.size_quiet [OF assms(1)] Cons.IH by cases metis+
qed

lemma plan_split:
  assumes "returns (Reconcile_plan env cas cacheDef insts (R0, M0)) w (Inr (R, M)) w'"
  shows "\<exists>R' K. R = R0 @ R' \<and> M = (if K = [] then M0 else Some (last K)) \<and> set R' \<union> set K = set insts \<and>
    (distinct insts \<longrightarrow> set R' \<inter> set K = {}) \<and>
    (\<forall>c \<in> set K. DevicePath c = DeviceById (Spec cacheDef) \<and> not_deleted (CacheMeta cacheDef))"
  using assms
proof (induction insts arbitrary: R0 M0 w)
  case Nil
  then show ?case by (auto simp: returns_def)
next
  case (Cons i rest)
  let ?ok = "\<lambda>c. DevicePath c = DeviceById (Spec cacheDef) \<and> not_deleted (CacheMeta cacheDef)"
  from Cons.prems consider
      (remove) w1 where "returns (Reconcile_plan env cas cacheDef rest (R0 @ [i], M0)) w1 (Inr (R, M)) w'"
    | (keep) w1 where "?ok i" "returns (Reconcile_plan env cas cacheDef rest (R0, Some i)) w1 (Inr (R, M)) w'"
    by (auto simp: returns_simps split: if_splits)
  then show ?case
  proof cases
    case remove
    from Cons.IH [OF remove] obtain R' K where "R = (R0 @ [i]) @ R'" "M = (if K = [] then M0 else Some (last K))"
      "set R' \<union> set K = set rest" "distinct rest \<longrightarrow> set R' \<inter> set K = {}" "\<forall>c \<in> set K. ?ok c"
      by blast
    then show ?thesis by (intro exI [of _ "i # R'"] exI [of _ K]) auto
  next
    case keep
    from Cons.IH [OF keep(2)] obtain R' K where "R = R0 @ R'" "M = (if K = [] then Some i else Some (last K))"
      "set R' \<union> set K = set rest" "distinct rest \<longrightarrow> set R' \<inter> set K = {}" "\<forall>c \<in> set K. ?ok c"
      by blast
    then show ?thesis using keep(1) by (intro exI [of _ R'] exI [of _ "i # K"]) auto
  qed
qed

text \<open>
  The removal never starts anything. What it removes are caches of the list it is given that have no
  cores, and if it asks for no further attempt it has removed all of those.
\<close>

lemma remove_step:
  assumes "returns (Reconcile_remove env cl cas cacheDef label (i # R) (node, again)) w (node', again') w'"
    and "client_quiet cl st"
  obtains w1 w2 node1 b where "st (outside w1) = st (outside w)"
    "returns (Reconcile_remove env cl cas cacheDef label R (node1, again \<or> b)) w2 (node', again') w'"
    "if CacheVolumes i = [] then \<exists>err. returns (StopCache env cas i) w1 err w2 \<and> (b \<longleftrightarrow> err \<noteq> None)
     else w2 = w1 \<and> b = not_deleted (CacheMeta cacheDef)"
proof -
  have quiet: "st (outside w1) = st (outside w)"
    if "returns (SetOperatingCacheLabel cl node v) w r w1" for v r w1
    using keeps_returns [OF client_quiet_ops(3) [OF assms(2)] that] by (simp add: same_obs_def)
  show thesis
    using assms(1) that quiet by (auto simp: returns_simps split: if_splits) blast+
qed

lemma remove_again:
  assumes "client_quiet cl st"
    and "returns (Reconcile_remove env cl cas cacheDef label R (node, again)) w (node', again') w'" and again
  shows "again'"
  using assms(2,3)
proof (induction R arbitrary: node again w)
  case (Cons i R)
  from Cons.prems(1) assms(1) show ?case by (rule remove_step) (use Cons in blast)
qed simp

lemma remove_st:
  assumes node: "cache_node env st" "client_quiet cl st"
    and run: "returns (Reconcile_remove env cl cas cacheDef label R (node, again)) w (node', again') w'"
  shows "set (st (outside w')) \<subseteq> set (st (outside w)) \<and>
    (\<forall>c \<in> set (st (outside w)). c \<in> set (st (outside w')) \<or> (\<exists>i \<in> set R. CacheId i = CacheId c \<and> CacheVolumes i = [])) \<and>
    (\<not> again' \<longrightarrow> (\<forall>i \<in> set R. CacheVolumes i = [] \<longrightarrow> DevicePath i \<notin> DevicePath ` set (st (outside w')))) \<and>
    (\<not> again' \<and> not_deleted (CacheMeta cacheDef) \<longrightarrow> list_all (\<lambda>i. CacheVolumes i = []) R)"
  using run
proof (induction R arbitrary: node again w)
  case Nil
  then show ?case by (simp add: returns_def)
next
  case (Cons i R)
  from Cons.prems node(2) obtain w1 w2 node1 b where st1: "st (outside w1) = st (outside w)"
    and rest: "returns (Reconcile_remove env cl cas cacheDef label R (node1, again \<or> b)) w2 (node', again') w'"
    and stop: "if CacheVolumes i = [] then \<exists>err. returns (StopCache env cas i) w1 err w2 \<and> (b \<longleftrightarrow> err \<noteq> None)
      else w2 = w1 \<and> b = not_deleted (CacheMeta cacheDef)"
    by (rule remove_step)
  note IH = Cons.IH [OF rest]
  have b: "\<not> again' \<Longrightarrow> \<not> b" using remove_again [OF node(2) rest] by blast
  show ?case
  proof (cases "CacheVolumes i = []")
    case True
    with stop obtain err where run: "returns (StopCache env cas i) w1 err w2" and err: "b \<longleftrightarrow> err \<noteq> None" by auto
    have st2: "st (outside w2) = st (outside w) \<or> st (outside w2) = filter (\<lambda>d. CacheId d \<noteq> CacheId i) (st (outside w))"
      using managed.stop_removes [OF node(1) run] st1 by simp
    have "DevicePath i \<notin> DevicePath ` set (st (outside w'))" if "\<not> again'"
    proof -
      from that b err have "err = None" by simp
      then have "DevicePath i \<notin> DevicePath ` set (st (outside w2))"
        using managed.stop_gone [OF node(1)] run by blast
      moreover have "set (st (outside w')) \<subseteq> set (st (outside w2))" using IH by blast
      ultimately show ?thesis by blast
    qed
    then show ?thesis using True IH st2 by auto
  next
    case False
    then show ?thesis using stop st1 IH b by auto
  qed
qed

lemma remove_busy:
  assumes node: "cache_node env st" "client_quiet cl st"
    and run: "returns (Reconcile_remove env cl cas cacheDef label R (node, again)) w (node', again') w'"
    and cs: "set R \<subseteq> set cs" "distinct (map CacheId cs)" "set (st (outside w)) \<subseteq> set cs"
  shows "busy (st (outside w')) = busy (st (outside w))"
  using run cs(1,3)
proof (induction R arbitrary: node again w)
  case Nil
  then show ?case by (simp add: returns_def)
next
  case (Cons i R)
  from Cons.prems(1) node(2) obtain w1 w2 node1 b where st1: "st (outside w1) = st (outside w)"
    and rest: "returns (Reconcile_remove env cl cas cacheDef label R (node1, again \<or> b)) w2 (node', again') w'"
    and stop: "if CacheVolumes i = [] then \<exists>err. returns (StopCache env cas i) w1 err w2 \<and> (b \<longleftrightarrow> err \<noteq> None)
      else w2 = w1 \<and> b = not_deleted (CacheMeta cacheDef)"
    by (rule remove_step)
  have "busy (st (outside w2)) = busy (st (outside w)) \<and> set (st (outside w2)) \<subseteq> set cs"
  proof (cases "CacheVolumes i = []")
    case True
    with stop obtain err where run: "returns (StopCache env cas i) w1 err w2" by auto
    have "busy (st (outside w2)) = busy (st (outside w1))"
      using managed.stop_busy [OF node(1) run] True Cons.prems(2,3) cs(2) st1 by auto
    then show ?thesis using managed.stop_removes [OF node(1) run] st1 Cons.prems(3) by auto
  next
    case False
    then show ?thesis using stop st1 Cons.prems(3) by auto
  qed
  then show ?case using Cons.IH [OF rest] Cons.prems(2) by simp
qed

text \<open>A spec as the schema of the resource admits it: neither device nor mode holds a blank.\<close>

definition valid_spec :: "CacheSpec \<Rightarrow> bool" where
  "valid_spec spec \<longleftrightarrow> no_blank (DeviceById spec) \<and> no_blank (SpecCacheMode spec)"

lemma valid_targetMode: "valid_spec (Spec c) \<Longrightarrow> no_blank (targetMode c)"
  by (simp add: valid_spec_def targetMode_def WriteThrough_def no_blank_def)

lemma apply_busy:
  assumes node: "cache_node env st" "client_quiet cl st" and spec: "valid_spec (Spec cacheDef)"
    and run: "returns (Reconcile_apply env cl cas cacheDef M acc) w r w'"
  shows "busy (st (outside w')) = busy (st (outside w))"
proof -
  have label: "st (outside w2) = st (outside w1)" if "returns (SetOperatingCacheLabel cl n v) w1 s w2" for n v w1 s w2
    using keeps_returns [OF client_quiet_ops(3) [OF node(2)] that] by (simp add: same_obs_def)
  have start: "busy (st (outside w2)) = busy (st (outside w1))"
    if "returns (StartCache env cas (DeviceById (Spec cacheDef)) (SpecCacheMode (Spec cacheDef)) cls) w1 s w2" for cls w1 s w2
    using managed.start_busy [OF node(1)] spec that unfolding valid_spec_def by (metis surj_pair)
  have mode: "busy (st (outside w2)) = busy (st (outside w1))"
    if "returns (SetCacheMode env cas i (targetMode cacheDef)) w1 s w2" for i :: Cache and w1 s w2
    using managed.mode_busy [OF node(1) valid_targetMode [OF spec] that] .
  obtain node1 again where acc: "acc = (node1, again)" by (cases acc)
  show ?thesis
  proof (cases M)
    case (Some i)
    then show ?thesis using run mode unfolding Reconcile_apply_def acc by (auto simp: returns_simps split: if_splits)
  next
    case None
    show ?thesis
    proof (cases "not_deleted (CacheMeta cacheDef)")
      case True
      with None run obtain s w1 where started: "returns (StartCache env cas (DeviceById (Spec cacheDef))
          (SpecCacheMode (Spec cacheDef)) (word_of_int (CacheLizeSize (Spec cacheDef)))) w s w1"
        and "w' = w1 \<or> (\<exists>v t. returns (SetOperatingCacheLabel cl node1 v) w1 t w')"
        unfolding Reconcile_apply_def acc by (auto simp: returns_simps) blast
      then show ?thesis using start [OF started] label by metis
    next
      case False
      then show ?thesis using None run unfolding Reconcile_apply_def acc by simp
    qed
  qed
qed

lemma finish_st:
  assumes "client_quiet cl obs" and "returns (Reconcile_finish cl cacheDef acc) w r w'"
  shows "obs (outside w') = obs (outside w)"
proof -
  have "keeps (same_obs obs) (Reconcile_finish cl cacheDef acc)"
    unfolding Reconcile_finish_def by (intro keeps_obs client_quiet_ops [OF assms(1)])
  from keeps_returns [OF this assms(2)] show ?thesis by (simp add: same_obs_def)
qed

lemma finish_clean:
  "returns (Reconcile_finish cl cacheDef (node, again)) w (Result_zero, None) w' \<Longrightarrow> \<not> again"
  by (auto simp: Reconcile_finish_def returns_simps Result_zero_def DefaultRequequeAfter_def time_Second_def)

text \<open>
  A reconciliation of a node either ends before it changes anything, or runs through its phases on
  the caches it has listed.
\<close>

lemma Reconcile_node_phases:
  assumes node: "cache_node env st" "client_quiet cl st"
    and run: "returns (Reconcile_node env cl cacheDef n) w r w'"
  obtains (early) "st (outside w') = st (outside w)" "r \<noteq> (Result_zero, None)"
  | (phases) cas R M w1 w2 acc w3 applied w4 where
      "returns (Reconcile_plan env cas cacheDef (st (outside w)) ([], None)) w1 (Inr (R, M)) w2"
      "st (outside w2) = st (outside w)"
      "returns (Reconcile_remove env cl cas cacheDef (mget (Labels (NodeMeta n)) OperatingCacheLabelKey) R (n, False)) w2 acc w3"
      "returns (Reconcile_apply env cl cas cacheDef M acc) w3 applied w4"
      "case applied of Inl r' \<Rightarrow> r = r' \<and> w' = w4
       | Inr acc' \<Rightarrow> returns (Reconcile_finish cl cacheDef acc') w4 r w'"
proof -
  have manager: "st (outside w2) = st (outside w1)" if "returns (NewOpenCasManager env a b) w1 s w2" for a b w1 s w2
  proof -
    have "keeps (same_obs st) (NewOpenCasManager env a b)"
      unfolding NewOpenCasManager_def by (intro keeps_obs lookups_quiet [OF cache_nodeD(2) [OF node(1)]])
    from keeps_returns [OF this that] show ?thesis by (simp add: same_obs_def)
  qed
  have insts: "st (outside w2) = st (outside w1) \<and> (e = None \<longrightarrow> is = st (outside w2))"
    if "returns (GetCacheInstances env cas) w1 (is, e) w2" for cas w1 "is" e w2
    using that managed.listed_quiet [OF node(1)] managed.listed_exact [OF node(1)]
    by (auto simp: GetCacheInstances_def returns_simps)
  have plan: "snd r' \<noteq> None" if "returns (Reconcile_plan env cas cacheDef is acc) w1 (Inl r') w2" for cas "is" acc w1 r' w2
    using that
  proof (induction "is" arbitrary: acc w1)
    case (Cons i rest)
    then show ?case by (cases acc) (auto simp: returns_simps split: if_splits)
  qed (simp add: returns_def)
  from run consider
      (failed) "r \<noteq> (Result_zero, None)" "st (outside w') = st (outside w)"
    | (listed) cas w1 where "returns (Reconcile_instances env cl cas cacheDef n (st (outside w))) w1 r w'"
        "st (outside w1) = st (outside w)"
    unfolding Reconcile_node_def
    by (auto simp: returns_simps dest!: manager insts split: if_splits)
  then show thesis
  proof cases
    case failed
    then show thesis by (intro early)
  next
    case listed
    from listed(1) obtain planned w2 where plan_run:
      "returns (Reconcile_plan env cas cacheDef (st (outside w)) ([], None)) w1 planned w2"
      by (auto simp: Reconcile_instances_def returns_simps)
    then have st2: "st (outside w2) = st (outside w)" using plan_st [OF node(1)] listed(2) by metis
    show thesis
    proof (cases planned)
      case (Inl r')
      then have "r = r'" "w' = w2" using plan_run listed(1) by (simp_all add: Reconcile_instances_def returns_def bnd_Ret)
      moreover have "snd r' \<noteq> None" using plan plan_run Inl by blast
      ultimately show thesis using early st2 by fastforce
    next
      case (Inr RM)
      obtain R M where RM: "RM = (R, M)" by (cases RM)
      have "returns (bnd (Reconcile_remove env cl cas cacheDef (mget (Labels (NodeMeta n)) OperatingCacheLabelKey) R (n, False))
          (\<lambda>acc. bnd (Reconcile_apply env cl cas cacheDef M acc) (\<lambda>applied.
             case applied of Inl r \<Rightarrow> ret r | Inr acc \<Rightarrow> Reconcile_finish cl cacheDef acc))) w2 r w'"
        using plan_run listed(1) Inr RM by (simp add: Reconcile_instances_def returns_def bnd_Ret)
      then obtain acc w3 applied w4 where
        "returns (Reconcile_remove env cl cas cacheDef (mget (Labels (NodeMeta n)) OperatingCacheLabelKey) R (n, False)) w2 acc w3"
        "returns (Reconcile_apply env cl cas cacheDef M acc) w3 applied w4"
        "returns (case applied of Inl r \<Rightarrow> ret r | Inr acc \<Rightarrow> Reconcile_finish cl cacheDef acc) w4 r w'"
        unfolding returns_bnd by blast
      then show thesis using phases plan_run Inr RM st2 by (cases applied) auto
    qed
  qed
qed

section \<open>A reconciliation of one node\<close>

lemma Reconcile_node_busy:
  assumes node: "cache_node env st" "client_quiet cl st" and spec: "valid_spec (Spec cacheDef)"
    and ids: "distinct (map CacheId (st (outside w)))"
    and run: "returns (Reconcile_node env cl cacheDef n) w r w'"
  shows "busy (st (outside w')) = busy (st (outside w))"
  using node run
proof (cases rule: Reconcile_node_phases)
  case (phases cas R M w1 w2 acc w3 applied w4)
  from plan_split [OF phases(1)] have "set R \<subseteq> set (st (outside w))" by auto
  then have "busy (st (outside w3)) = busy (st (outside w2))"
    using remove_busy [OF node, of cas cacheDef _ R n False w2 "fst acc" "snd acc" w3 "st (outside w)"] phases(2,3) ids
    by simp
  then have "busy (st (outside w4)) = busy (st (outside w))"
    using apply_busy [OF node spec phases(4)] phases(2) by simp
  moreover have "st (outside w') = st (outside w4)"
    using phases(5) finish_st [OF node(2)] by (auto split: sum.splits)
  ultimately show ?thesis by simp
qed simp

text \<open>A clean end: every unwanted cache was idle and is gone.\<close>

lemma Reconcile_node_clean:
  assumes node: "cache_node env st" "client_quiet cl st"
    and run: "returns (Reconcile_node env cl cacheDef n) w (Result_zero, None) w'"
  obtains cas R K n1 w3 n2 w4 where
    "set R \<union> set K = set (st (outside w))" "distinct (st (outside w)) \<longrightarrow> set R \<inter> set K = {}"
    "\<forall>c \<in> set K. DevicePath c = DeviceById (Spec cacheDef) \<and> not_deleted (CacheMeta cacheDef)"
    "set (st (outside w3)) \<subseteq> set (st (outside w))"
    "\<forall>c \<in> set (st (outside w)). c \<in> set (st (outside w3)) \<or> (\<exists>i \<in> set R. CacheId i = CacheId c)"
    "\<forall>i \<in> set R. CacheVolumes i = [] \<longrightarrow> DevicePath i \<notin> DevicePath ` set (st (outside w3))"
    "not_deleted (CacheMeta cacheDef) \<longrightarrow> list_all (\<lambda>i. CacheVolumes i = []) R"
    "returns (Reconcile_apply env cl cas cacheDef (if K = [] then None else Some (last K)) (n1, False)) w3 (Inr (n2, False)) w4"
    "returns (Reconcile_finish cl cacheDef (n2, False)) w4 (Result_zero, None) w'"
    "st (outside w') = st (outside w4)"
  using node run
proof (cases rule: Reconcile_node_phases)
  case (phases cas R M w1 w2 acc w3 applied w4)
  obtain n1 again1 where acc: "acc = (n1, again1)" by (cases acc)
  obtain n2 again2 where ap: "applied = Inr (n2, again2)" and fin: "returns (Reconcile_finish cl cacheDef (n2, again2)) w4 (Result_zero, None) w'"
    using phases(4,5) unfolding Reconcile_apply_def acc
    by (cases applied) (auto simp: returns_simps split: option.splits if_splits)
  have again2: "\<not> again2" by (rule finish_clean [OF fin])
  then have again1: "\<not> again1"
    using phases(4) unfolding ap Reconcile_apply_def acc by (auto simp: returns_simps split: option.splits if_splits)
  obtain K where K: "M = (if K = [] then None else Some (last K))" "set R \<union> set K = set (st (outside w))"
    "distinct (st (outside w)) \<longrightarrow> set R \<inter> set K = {}"
    "\<forall>c \<in> set K. DevicePath c = DeviceById (Spec cacheDef) \<and> not_deleted (CacheMeta cacheDef)"
    using plan_split [OF phases(1)] by auto
  note rem = remove_st [OF node phases(3) [unfolded acc]]
  have kept: "\<forall>c \<in> set (st (outside w)). c \<in> set (st (outside w3)) \<or> (\<exists>i \<in> set R. CacheId i = CacheId c)"
    using rem [THEN conjunct2, THEN conjunct1] unfolding phases(2) by blast
  show thesis
    using that [of R K w3 cas n1 n2 w4] kept K rem [THEN conjunct1] rem [THEN conjunct2, THEN conjunct2] phases(2,4) ap acc again1 again2 fin finish_st [OF node(2) fin]
    by auto
qed simp

lemma Reconcile_node_converges:
  assumes node: "cache_node env st" "client_quiet cl st" and spec: "valid_spec (Spec cacheDef)"
    and live: "not_deleted (CacheMeta cacheDef)" and ids: "distinct (map CacheId (st (outside w)))"
    and run: "returns (Reconcile_node env cl cacheDef n) w (Result_zero, None) w'"
  shows "(\<forall>c \<in> set (st (outside w')). DevicePath c = DeviceById (Spec cacheDef)) \<and>
    (\<exists>c \<in> set (st (outside w')). CacheMode c = targetMode cacheDef)"
  using node run
proof (cases rule: Reconcile_node_clean)
  case (1 cas R K n1 w3 n2 w4)
  have idle: "\<And>i. i \<in> set R \<Longrightarrow> CacheVolumes i = []" using 1(7) live by (simp add: list_all_iff)
  have rest: "set (st (outside w3)) \<subseteq> set K" using 1(1,4,6) idle by blast
  have start: "st (outside w4) = st (outside w5)" if "returns (SetOperatingCacheLabel cl m v) w5 s w4" for m v w5 s
    using keeps_returns [OF client_quiet_ops(3) [OF node(2)] that] by (simp add: same_obs_def)
  show ?thesis
  proof (cases "K = []")
    case True
    then have empty: "st (outside w3) = []" using rest by simp
    from 1(8) True live obtain c w5 s where
      started: "returns (StartCache env cas (DeviceById (Spec cacheDef)) (SpecCacheMode (Spec cacheDef))
        (word_of_int (CacheLizeSize (Spec cacheDef)))) w3 (Some c, None) w5"
      and "returns (SetOperatingCacheLabel cl n1 (fmt_int (CacheId c))) w5 s w4"
      unfolding Reconcile_apply_def by (auto simp: returns_simps)
    then have "st (outside w') = st (outside w5)" using 1(10) start by metis
    then show ?thesis
      using managed.start_alone [OF node(1) _ _ started empty] spec
      by (auto simp: valid_spec_def targetMode_def WriteThrough_def)
  next
    case False
    then have m: "last K \<in> set K" by simp
    have K: "\<forall>c \<in> set (st (outside w3)). DevicePath c = DeviceById (Spec cacheDef)" using rest 1(3) by blast
    have there: "last K \<in> set (st (outside w3))"
    proof -
      have "distinct (st (outside w))" and inj: "inj_on CacheId (set (st (outside w)))"
        using ids by (simp_all add: distinct_map)
      then have "i \<noteq> last K" if "i \<in> set R" for i using 1(2) m that by blast
      then show ?thesis using 1(1,5) m inj by (metis UnI1 UnI2 inj_onD)
    qed
    from 1(8) False consider "CacheMode (last K) = targetMode cacheDef" "w4 = w3"
      | "returns (SetCacheMode env cas (last K) (targetMode cacheDef)) w3 None w4"
      unfolding Reconcile_apply_def by (auto simp: returns_simps split: if_splits)
    then show ?thesis
    proof cases
      case 1
      then show ?thesis using K there \<open>st (outside w') = st (outside w4)\<close> by auto
    next
      case 2
      from managed.mode_set [OF node(1) this] obtain c' where
        "List.find (\<lambda>d. CacheId d = CacheId (last K)) (st (outside w4)) = Some c'" "CacheMode c' = targetMode cacheDef"
        by blast
      moreover have "\<forall>c \<in> set (st (outside w4)). DevicePath c = DeviceById (Spec cacheDef)"
        using managed.mode_changes [OF node(1) valid_targetMode [OF spec] 2] K by auto
      ultimately show ?thesis using \<open>st (outside w') = st (outside w4)\<close> by (auto dest: find_Some_first)
    qed
  qed
qed

text \<open>
  What the reconciler relies on of \<^verbatim>\<open>Patch\<close>: a merge patch changes the fields that differ from the base
  and no others, so one that only touches the metadata leaves the spec alone and does not
  delete the object.
\<close>

definition merge_patch_law :: "'x cache_client \<Rightarrow> bool" where
  "merge_patch_law cl \<longleftrightarrow>
     (\<forall>c base x c' err x'. Caches_Patch cl c base x = ((c', err), x') \<longrightarrow> Spec c = Spec base \<longrightarrow>
        Spec c' = Spec c \<and> DeletionTimestamp (CacheMeta c') = DeletionTimestamp (CacheMeta c))"

lemma Cache_AddFinalizer_spec:
  assumes "merge_patch_law cl" and "returns (Cache_AddFinalizer cl c) w (c', err) w'"
  shows "Spec c' = Spec c \<and> (not_deleted (CacheMeta c') \<longleftrightarrow> not_deleted (CacheMeta c))"
proof -
  obtain changed fs where add: "AddFinalizerTo (CacheFinalizers cl) (Finalizers (CacheMeta c)) Finalizer = (changed, fs)"
    by fastforce
  let ?c = "c\<lparr>CacheMeta := (CacheMeta c)\<lparr>Finalizers := fs\<rparr>\<rparr>"
  from assms(2) add consider "c' = ?c" | x where "Caches_Patch cl ?c c (outside w) = ((c', err), x)"
    by (auto simp: Cache_AddFinalizer_def returns_simps Let_def split: if_splits)
  then show ?thesis
  proof cases
    case 2
    then have "Spec ?c = Spec c \<longrightarrow> Spec c' = Spec ?c \<and> DeletionTimestamp (CacheMeta c') = DeletionTimestamp (CacheMeta ?c)"
      using assms(1) unfolding merge_patch_law_def by blast
    then show ?thesis by (simp add: not_deleted_def)
  qed (simp add: not_deleted_def)
qed

text \<open>A reconciliation that finds both objects continues on the node with the resource it has read.\<close>

lemma Cache_Reconcile_found:
  assumes cl: "client_quiet cl st" "merge_patch_law cl"
    and found: "Caches_Get cl req (outside w) = ((c, None), x1)"
      "CNodes_Get cl (Namespace (CacheMeta c), Name (CacheMeta c)) x1 = ((n, None), x2)"
    and run: "returns (Cache_Reconcile env cl req) w r w'"
  obtains c' w1 where "returns (Reconcile_node env cl c' n) w1 r w'" "Spec c' = Spec c"
    "not_deleted (CacheMeta c') \<longleftrightarrow> not_deleted (CacheMeta c)" "st (outside w1) = st (outside w)"
    "\<not> not_deleted (CacheMeta c) \<longrightarrow> c' = c"
proof -
  let ?w = "w\<lparr>outside := x2\<rparr>"
  have same: "st x2 = st (outside w)"
    using cl(1) found unfolding client_quiet_def by (metis snd_conv)
  from run have "returns (bnd (if not_deleted (CacheMeta c) then bnd (Cache_AddFinalizer cl c) (\<lambda>(c, err). ret c) else ret c)
      (\<lambda>c. Reconcile_node env cl c n)) ?w r w'"
    using found by (simp add: Cache_Reconcile_def returns_def bnd_call)
  then consider (deleted) "\<not> not_deleted (CacheMeta c)" "returns (Reconcile_node env cl c n) ?w r w'"
    | (live) c' err w1 where "not_deleted (CacheMeta c)" "returns (Cache_AddFinalizer cl c) ?w (c', err) w1" "returns (Reconcile_node env cl c' n) w1 r w'"
    by (auto simp: returns_simps split: if_splits)
  then show thesis
  proof cases
    case deleted
    then show thesis using that [of c ?w] same by simp
  next
    case live
    have "st (outside w1) = st x2"
      using keeps_returns [OF client_quiet_ops(1) [OF cl(1)] live(2)] by (simp add: same_obs_def)
    then show thesis using that [OF live(3)] Cache_AddFinalizer_spec [OF cl(2) live(2)] same live(1) by simp
  qed
qed

lemma targetMode_cong: "Spec c' = Spec c \<Longrightarrow> targetMode c' = targetMode c"
  by (simp add: targetMode_def)

section \<open>The caches in use, however a reconciliation ends\<close>

text \<open>
  \<open>served_alike P m cs cs'\<close>: the caches with cores are the same in \<open>cs\<close> and \<open>cs'\<close>, with all that is
  known of them and of their cores, except that those with \<open>P\<close> may have been switched to the mode \<open>m\<close>.
\<close>

definition served_alike :: "(Cache \<Rightarrow> bool) \<Rightarrow> CacheMode \<Rightarrow> Cache list \<Rightarrow> Cache list \<Rightarrow> bool" where
  "served_alike P m cs cs' \<longleftrightarrow>
     (\<forall>c \<in> set cs. CacheVolumes c \<noteq> [] \<longrightarrow> c \<in> set cs' \<or> P c \<and> with_mode m c \<in> set cs') \<and>
     (\<forall>c \<in> set cs'. CacheVolumes c \<noteq> [] \<longrightarrow> c \<in> set cs \<or> (\<exists>d \<in> set cs. P d \<and> c = with_mode m d))"

lemma with_mode_again [simp]: "with_mode m (with_mode k c) = with_mode m c"
  by (simp add: with_mode_def comp_def split_def)

lemma served_alike_refl: "served_alike P m cs cs"
  by (simp add: served_alike_def)

text \<open>The three changes a reconciliation makes, to the caches \<open>cs\<close> it has listed.\<close>

lemma served_alike_stop:
  assumes "distinct (map CacheId cs)" "i \<in> set cs" "CacheVolumes i = []" "served_alike P m cs cs'"
  shows "served_alike P m cs (filter (\<lambda>d. CacheId d \<noteq> CacheId i) cs')"
proof -
  have "CacheId c \<noteq> CacheId i" if "c \<in> set cs" "CacheVolumes c \<noteq> []" for c
    using that assms(1-3) by (metis distinct_map inj_onD)
  then show ?thesis using assms(4) by (auto simp: served_alike_def)
qed

lemma served_alike_start: "list_all (\<lambda>c. CacheVolumes c = []) new \<Longrightarrow> served_alike P m cs cs' \<Longrightarrow> served_alike P m cs (cs' @ new)"
  by (auto simp: served_alike_def list_all_iff)

lemma served_alike_switch:
  assumes ids: "distinct (map CacheId cs)" and i: "i \<in> set cs" "P i" and alike: "served_alike P m cs cs'"
  shows "served_alike P m cs (map (\<lambda>d. if CacheId d = CacheId i then with_mode m d else d) cs')"
proof -
  have same: "c = i" if "c \<in> set cs" "CacheId c = CacheId i" for c
    using that ids i(1) by (metis distinct_map inj_onD)
  define f where "f = (\<lambda>d. if CacheId d = CacheId i then with_mode m d else d)"
  have f: "CacheId d = CacheId i \<Longrightarrow> f d = with_mode m d" "CacheId d \<noteq> CacheId i \<Longrightarrow> f d = d" "CacheVolumes (f d) = [] \<longleftrightarrow> CacheVolumes d = []" for d
    by (simp_all add: f_def)
  have "c \<in> f ` set cs' \<or> P c \<and> with_mode m c \<in> f ` set cs'" if c: "c \<in> set cs" "CacheVolumes c \<noteq> []" for c
  proof -
    consider (as_is) "c \<in> set cs'" | (switched) "P c" "with_mode m c \<in> set cs'"
      using alike c by (auto simp: served_alike_def)
    then show ?thesis
    proof cases
      case as_is
      then have "f c \<in> f ` set cs'" by simp
      then show ?thesis using f(1,2) [of c] same [OF c(1)] i(2) by (cases "CacheId c = CacheId i") auto
    next
      case switched
      then have "f (with_mode m c) \<in> f ` set cs'" by simp
      moreover have "f (with_mode m c) = with_mode m c" by (simp add: f_def)
      ultimately show ?thesis using switched(1) by simp
    qed
  qed
  moreover have "f c \<in> set cs \<or> (\<exists>d \<in> set cs. P d \<and> f c = with_mode m d)" if c: "c \<in> set cs'" "CacheVolumes c \<noteq> []" for c
  proof -
    consider (as_is) "c \<in> set cs" | (switched) d where "d \<in> set cs" "P d" "c = with_mode m d"
      using alike c by (auto simp: served_alike_def)
    then show ?thesis
    proof cases
      case as_is
      then show ?thesis using f(1,2) [of c] same [OF as_is] i by (cases "CacheId c = CacheId i") auto
    next
      case switched
      then have "f c = with_mode m d" by (simp add: f_def)
      then show ?thesis using switched by blast
    qed
  qed
  ultimately show ?thesis unfolding served_alike_def f_def [symmetric] by (simp add: f(3))
qed

text \<open>A predicate on the caches that a run does not break, whatever its outcome.\<close>

definition upholds :: "('x \<Rightarrow> 'o) \<Rightarrow> ('o \<Rightarrow> bool) \<Rightarrow> 'x world \<Rightarrow> 'x world \<Rightarrow> bool" where
  "upholds st Q w w' \<longleftrightarrow> (Q (st (outside w)) \<longrightarrow> Q (st (outside w')))"

lemma upholds_reflp [simp]: "reflp (upholds st Q)"
  by (simp add: upholds_def reflp_def)

lemma upholds_transp [simp]: "transp (upholds st Q)"
  by (auto simp: upholds_def transp_def)

lemmas keeps_upholds = keeps_deref [OF upholds_reflp] keeps_ret [OF upholds_reflp] keeps_panic [OF upholds_reflp]
  keeps_of_outcome [OF upholds_reflp] keeps_bnd [OF upholds_transp] keeps_if keeps_case_prod
  keeps_case_option keeps_case_list keeps_case_sum keeps_Let

lemma upholds_quiet: "keeps (same_obs st) m \<Longrightarrow> keeps (upholds st Q) m"
  by (erule keeps_mono) (simp add: same_obs_def upholds_def)

lemma keeps_bnd_result:
  assumes "transp R" "keeps R m" "\<And>w a w'. returns m w a w' \<Longrightarrow> keeps R (f a)"
  shows "keeps R (bnd m f)"
  unfolding keeps_def
proof
  fix w
  show "R w (snd (bnd m f w))"
  proof (cases "m w")
    case (Pair r w1)
    then have first: "R w w1" using assms(2) by (blast intro: keepsD)
    show ?thesis
    proof (cases r)
      case (Ret a)
      then have "R w1 (snd (f a w1))" using assms(3) [of w a w1] Pair by (simp add: returns_def keeps_def)
      then show ?thesis using first Pair Ret transpD [OF assms(1)] by (simp add: bnd_Ret)
    next
      case (Panic p)
      then show ?thesis using first Pair by (simp add: bnd_Panic)
    qed
  qed
qed

lemma casadm_upholds:
  assumes node: "cache_node env st" and Q: "\<And>cs cs'. casadm_step (Split cmd '' '') cs cs' \<Longrightarrow> Q cs \<Longrightarrow> Q cs'"
  shows "keeps (upholds st Q) (run_casadm env cas cmd)"
proof (rule keepsI [OF casadm_no_panic(5)])
  fix w a w' assume "returns (run_casadm env cas cmd) w a w'"
  then show "upholds st Q w w'" using Q [OF run_casadm_step [OF node]] by (auto simp: upholds_def)
qed

lemma manager_upholds:
  assumes node: "cache_node env st"
  shows "keeps (upholds st Q) (ListCaches env cas)" "keeps (upholds st Q) (GetCacheLineSize env cas (c :: Cache))"
    "(\<And>cs. Q cs \<Longrightarrow> Q (filter (\<lambda>d. CacheId d \<noteq> CacheId c) cs)) \<Longrightarrow> keeps (upholds st Q) (StopCache env cas c)"
    "no_blank m \<Longrightarrow> (\<And>cs. Q cs \<Longrightarrow> Q (map (\<lambda>d. if CacheId d = CacheId c then with_mode m d else d) cs)) \<Longrightarrow>
       keeps (upholds st Q) (SetCacheMode env cas c m)"
    "no_blank p \<Longrightarrow> no_blank k \<Longrightarrow> (\<And>cs new. Q cs \<Longrightarrow> list_all (\<lambda>c. CacheVolumes c = []) new \<Longrightarrow> Q (cs @ new)) \<Longrightarrow>
       keeps (upholds st Q) (StartCache env cas p k cls)"
proof -
  note run = casadm_upholds [OF node, of _ Q]
  have lists: "casadm_step (Split listCachesCmd '' '') cs cs' \<Longrightarrow> cs' = cs" for cs cs'
    using query_step [of "Split listCachesCmd '' ''"] unfolding query_argv by simp
  have query: "keeps (upholds st Q) (run_casadm env cas listCachesCmd)" by (rule run, drule lists, simp)
  show list: "keeps (upholds st Q) (ListCaches env cas)"
    unfolding ListCaches_def by (intro keeps_upholds query)
  have counts: "casadm_step (Split (statsCmd i (-1)) '' '') cs cs' \<Longrightarrow> cs' = cs" for i cs cs'
    using query_step [of "Split (statsCmd i (-1)) '' ''"] unfolding query_argv by simp
  have stats: "keeps (upholds st Q) (run_casadm env cas (statsCmd i (-1)))" for i by (rule run, drule counts, simp)
  show "keeps (upholds st Q) (GetCacheLineSize env cas c)"
    unfolding GetCacheLineSize_def GetStatistics_def Let_def by (intro keeps_upholds stats)
  show "keeps (upholds st Q) (StopCache env cas c)" if "\<And>cs. Q cs \<Longrightarrow> Q (filter (\<lambda>d. CacheId d \<noteq> CacheId c) cs)"
  proof -
    have "keeps (upholds st Q) (run_casadm env cas (stopCacheCmd (CacheId c)))"
      using that by (intro run) (auto dest: stop_step)
    then show ?thesis unfolding StopCache_def Let_def by (intro keeps_upholds list)
  qed
  show "keeps (upholds st Q) (SetCacheMode env cas c m)"
    if "no_blank m" "\<And>cs. Q cs \<Longrightarrow> Q (map (\<lambda>d. if CacheId d = CacheId c then with_mode m d else d) cs)"
  proof -
    have "keeps (upholds st Q) (run_casadm env cas (setCacheModeCmd (CacheId c) m))"
      using that(2) by (intro run) (auto dest: mode_step [OF that(1)])
    then show ?thesis unfolding SetCacheMode_def Let_def by (intro keeps_upholds list)
  qed
  show "keeps (upholds st Q) (StartCache env cas p k cls)"
    if "no_blank p" "no_blank k" "\<And>cs new. Q cs \<Longrightarrow> list_all (\<lambda>c. CacheVolumes c = []) new \<Longrightarrow> Q (cs @ new)"
  proof -
    have "keeps (upholds st Q) (run_casadm env cas (startCacheCmd p k cls (-1)))"
    proof (rule run)
      fix cs cs' assume "casadm_step (Split (startCacheCmd p k cls (-1)) '' '') cs cs'" and "Q cs"
      moreover from start_step [OF that(1,2) this(1)] obtain new where "cs' = cs @ new" "list_all (\<lambda>c. CacheVolumes c = []) new"
        by (auto simp: list_all_iff)
      ultimately show "Q cs'" using that(3) by blast
    qed
    then show ?thesis unfolding StartCache_def Let_def by (intro keeps_upholds list)
  qed
qed

text \<open>The phases on the caches \<open>cs\<close> that were listed.\<close>

lemma plan_upholds:
  assumes "cache_node env st"
  shows "keeps (upholds st Q) (Reconcile_plan env cas cacheDef insts acc)"
proof (induction insts arbitrary: acc)
  case (Cons i rest)
  show ?case by (cases acc) (simp only: Reconcile_plan.simps, intro keeps_upholds manager_upholds(2) [OF assms] Cons.IH)
qed (simp add: keeps_upholds)

lemma remove_upholds:
  assumes node: "cache_node env st" "client_quiet cl st" and cs: "distinct (map CacheId cs)" "set R \<subseteq> set cs"
  shows "keeps (upholds st (served_alike P m cs)) (Reconcile_remove env cl cas cacheDef label R acc)"
  using cs(2)
proof (induction R arbitrary: acc)
  case (Cons i R)
  have stop: "keeps (upholds st (served_alike P m cs)) (StopCache env cas i)" if "CacheVolumes i = []"
    using manager_upholds(3) [OF node(1)] served_alike_stop [OF cs(1) _ that] Cons.prems by simp
  have label: "keeps (upholds st Q) (SetOperatingCacheLabel cl n v)" for Q n v
    by (rule upholds_quiet [OF client_quiet_ops(3) [OF node(2)]])
  have IH: "keeps (upholds st (served_alike P m cs)) (Reconcile_remove env cl cas cacheDef label R acc)" for acc
    using Cons by simp
  show ?case
    by (cases acc; cases "CacheVolumes i = []")
      (simp_all only: Reconcile_remove.simps if_True if_False, (intro keeps_upholds stop label IH; assumption)+)
qed (simp add: keeps_upholds)

lemma apply_upholds:
  assumes node: "cache_node env st" "client_quiet cl st" and cs: "distinct (map CacheId cs)" and spec: "valid_spec (Spec cacheDef)"
    and M: "\<And>i. M = Some i \<Longrightarrow> i \<in> set cs \<and> P i"
  shows "keeps (upholds st (served_alike P (targetMode cacheDef) cs)) (Reconcile_apply env cl cas cacheDef M acc)"
proof -
  let ?Q = "served_alike P (targetMode cacheDef) cs"
  have label: "keeps (upholds st ?Q) (SetOperatingCacheLabel cl n v)" for n v
    by (rule upholds_quiet [OF client_quiet_ops(3) [OF node(2)]])
  have start: "keeps (upholds st ?Q) (StartCache env cas (DeviceById (Spec cacheDef)) (SpecCacheMode (Spec cacheDef)) cls)" for cls
    using spec served_alike_start by (intro manager_upholds(5) [OF node(1)]) (auto simp: valid_spec_def)
  have switch: "keeps (upholds st ?Q) (SetCacheMode env cas i (targetMode cacheDef))" if "M = Some i" for i
    using M [OF that] served_alike_switch [OF cs] by (intro manager_upholds(4) [OF node(1) valid_targetMode [OF spec]]) blast
  show ?thesis
    using switch unfolding Reconcile_apply_def
    by (cases M) (auto intro!: keeps_upholds label start)
qed

lemma instances_upholds:
  assumes node: "cache_node env st" "client_quiet cl st" and cs: "distinct (map CacheId cs)" and spec: "valid_spec (Spec cacheDef)"
    and P: "P = (\<lambda>c. DevicePath c = DeviceById (Spec cacheDef) \<and> not_deleted (CacheMeta cacheDef))"
  shows "keeps (upholds st (served_alike P (targetMode cacheDef) cs)) (Reconcile_instances env cl cas cacheDef n cs)"
  unfolding Reconcile_instances_def
proof (rule keeps_bnd_result [OF upholds_transp plan_upholds [OF node(1)]])
  let ?R = "upholds st (served_alike P (targetMode cacheDef) cs)"
  fix w plan w' assume run: "returns (Reconcile_plan env cas cacheDef cs ([], None)) w plan w'"
  have finish: "keeps ?R (Reconcile_finish cl cacheDef acc)" for acc
    unfolding Reconcile_finish_def by (intro keeps_upholds upholds_quiet [OF client_quiet_ops(2) [OF node(2)]]
        upholds_quiet [OF client_quiet_ops(4) [OF node(2)]])
  show "keeps ?R (case plan of Inl r \<Rightarrow> ret r
     | Inr (removeInstances, modifyInstance) \<Rightarrow>
         bnd (Reconcile_remove env cl cas cacheDef (mget (Labels (NodeMeta n)) OperatingCacheLabelKey)
                removeInstances (n, False)) (\<lambda>acc.
         bnd (Reconcile_apply env cl cas cacheDef modifyInstance acc) (\<lambda>applied.
         case applied of Inl r \<Rightarrow> ret r | Inr acc \<Rightarrow> Reconcile_finish cl cacheDef acc)))"
  proof (cases plan)
    case (Inl r)
    then show ?thesis by (simp add: keeps_upholds)
  next
    case (Inr RM)
    obtain R M where RM: "RM = (R, M)" by (cases RM)
    obtain K where K: "M = (if K = [] then None else Some (last K))" "set R \<union> set K = set cs"
      "\<forall>c \<in> set K. DevicePath c = DeviceById (Spec cacheDef) \<and> not_deleted (CacheMeta cacheDef)"
      using plan_split [OF run [unfolded Inr RM]] by auto
    then have R: "set R \<subseteq> set cs" by blast
    have M: "i \<in> set cs \<and> P i" if "M = Some i" for i
    proof -
      have "i \<in> set K" using that K(1) by (auto split: if_splits)
      then show ?thesis using K(2,3) unfolding P by blast
    qed
    show ?thesis
      unfolding Inr RM sum.case prod.case
      by (intro keeps_upholds finish remove_upholds [OF node cs R] apply_upholds [OF node cs spec M])
  qed
qed

text \<open>What precedes the phases changes nothing, so they work on the caches the node had at the start.\<close>

definition ends :: "('x \<Rightarrow> 'o) \<Rightarrow> ('o \<Rightarrow> bool) \<Rightarrow> ('x world, 'a) io \<Rightarrow> 'x world \<Rightarrow> bool" where
  "ends obs Q m w \<longleftrightarrow> Q (obs (outside (snd (m w))))"

lemma ends_quiet: "keeps (same_obs obs) m \<Longrightarrow> Q (obs (outside w)) \<Longrightarrow> ends obs Q m w"
  by (simp add: ends_def keeps_def same_obs_def)

lemma ends_ret: "Q (obs (outside w)) \<Longrightarrow> ends obs Q (ret a) w"
  by (rule ends_quiet [OF keeps_ret [OF same_obs_reflp]])

lemma ends_bnd:
  assumes "keeps (same_obs obs) m" and "Q (obs (outside w))"
    and "\<And>a w1. returns m w a w1 \<Longrightarrow> obs (outside w1) = obs (outside w) \<Longrightarrow> ends obs Q (f a) w1"
  shows "ends obs Q (bnd m f) w"
proof (cases "m w")
  case (Pair r w1)
  then have same: "obs (outside w1) = obs (outside w)" using assms(1) by (auto simp: same_obs_def dest: keepsD)
  show ?thesis
    using assms(2,3) same Pair by (cases r) (auto simp: ends_def bnd_Ret bnd_Panic returns_def)
qed

lemma Reconcile_node_upholds:
  assumes node: "cache_node env st" "client_quiet cl st" and cs: "distinct (map CacheId (st (outside w)))" and spec: "valid_spec (Spec cacheDef)"
    and P: "P = (\<lambda>c. DevicePath c = DeviceById (Spec cacheDef) \<and> not_deleted (CacheMeta cacheDef))"
  shows "served_alike P (targetMode cacheDef) (st (outside w)) (st (outside (snd (Reconcile_node env cl cacheDef n w))))"
proof -
  let ?T = "served_alike P (targetMode cacheDef) (st (outside w))"
  have manager: "keeps (same_obs st) (NewOpenCasManager env a b)" for a b
    unfolding NewOpenCasManager_def by (intro keeps_obs lookups_quiet [OF cache_nodeD(2) [OF node(1)]])
  have "keeps (upholds st Q) (GetCacheInstances env cas)" for Q cas
    unfolding GetCacheInstances_def by (intro keeps_upholds manager_upholds(1) [OF node(1)])
  then have same: "upholds st (\<lambda>x. x = st (outside w)) w (snd (GetCacheInstances env cas w))" for cas w
    unfolding keeps_def by blast
  have lists: "keeps (same_obs st) (GetCacheInstances env cas)" for cas
    using same by (simp add: keeps_def upholds_def same_obs_def)
  have instances: "ends st ?T (Reconcile_instances env cl cas cacheDef n cs) w2"
    if "returns (GetCacheInstances env cas) w1 (cs, None) w2" "st (outside w2) = st (outside w)" for cas cs w1 w2
  proof -
    have "cs = st (outside w)"
      using that ListCaches_lists [OF cache_nodeD(1) [OF node(1)]] by (auto simp: GetCacheInstances_def returns_simps)
    then show ?thesis
      using instances_upholds [OF node cs spec P, of cas n] that(2) served_alike_refl
      by (simp add: keeps_def upholds_def ends_def)
  qed
  have "ends st ?T (Reconcile_node env cl cacheDef n) w"
  proof (cases "Getenv env CasadmImageEnv = []")
    case True
    then show ?thesis unfolding Reconcile_node_def by (simp add: ends_def served_alike_refl)
  next
    case False
    show ?thesis
      unfolding Reconcile_node_def if_not_P [OF False]
    proof (intro ends_bnd [OF manager] served_alike_refl)
      fix a w1 assume "returns (NewOpenCasManager env (Name (CacheMeta cacheDef)) (Getenv env OperatorNamespaceEnv)) w a w1"
        and st1: "st (outside w1) = st (outside w)"
      obtain cas err where a: "a = (cas, err)" by (cases a)
      have again: "ends st ?T (case b of (instances, err) \<Rightarrow>
          if err \<noteq> None then ret (e instances err) else Reconcile_instances env cl cas' cacheDef n instances) w2"
        if "returns (GetCacheInstances env cas') w1 b w2" "st (outside w2) = st (outside w1)" for cas' b w2 e
        using that st1 instances [of cas' w1 _ w2] ends_ret [of ?T st w2] served_alike_refl by (cases b) auto
      show "ends st ?T (case a of (cas, err) \<Rightarrow>
          if err \<noteq> None then
            ret (\<lparr>Requeue = True, RequeueAfter = 0\<rparr>,
              Some (errorf (''cannot create Open-CAS manager on node '' @ fmt_q (Name (CacheMeta cacheDef))
                @ [NL] @ ''err: '' @ err_text err)))
          else
            bnd (deref cas) (\<lambda>cas.
            bnd (GetCacheInstances env cas) (\<lambda>(instances, err).
            if err \<noteq> None then
              ret (\<lparr>Requeue = True, RequeueAfter = 0\<rparr>,
                Some (errorf (''failed to get caches on node '' @ fmt_q (Name (CacheMeta cacheDef))
                  @ [NL] @ ''err: '' @ err_text err)))
            else Reconcile_instances env cl cas cacheDef n instances))) w1"
      proof (cases err)
        case (Some e)
        then show ?thesis unfolding a using st1 served_alike_refl by (simp add: ends_def)
      next
        case None
        show ?thesis
          unfolding a None prod.case
        proof (simp only: simp_thms if_False, rule ends_bnd [OF keeps_deref [OF same_obs_reflp]], goal_cases)
          case 1
          then show ?case using st1 served_alike_refl by simp
        next
          case (2 cas' w2)
          then have "w2 = w1" by (simp add: returns_simps)
          then show ?case using again st1 served_alike_refl by (intro ends_bnd [OF lists]) simp_all
        qed
      qed
    qed
  qed
  then show ?thesis by (simp add: ends_def)
qed

lemma Cache_Reconcile_upholds:
  assumes node: "cache_node env st" "client_quiet cl st" "merge_patch_law cl" and cs: "distinct (map CacheId (st (outside w)))"
    and get: "Caches_Get cl req (outside w) = ((c, None), x1)" and spec: "valid_spec (Spec c)"
    and P: "P = (\<lambda>d. DevicePath d = DeviceById (Spec c) \<and> not_deleted (CacheMeta c))"
  shows "served_alike P (targetMode c) (st (outside w)) (st (outside (snd (Cache_Reconcile env cl req w))))"
proof -
  let ?T = "served_alike P (targetMode c) (st (outside w))"
  have onward: "ends st ?T (Reconcile_node env cl c' n) w1"
    if "st (outside w1) = st (outside w)" "Spec c' = Spec c" "not_deleted (CacheMeta c') \<longleftrightarrow> not_deleted (CacheMeta c)" for c' n w1
  proof -
    have "targetMode c' = targetMode c" by (rule targetMode_cong [OF that(2)])
    moreover have "P = (\<lambda>d. DevicePath d = DeviceById (Spec c') \<and> not_deleted (CacheMeta c'))"
      using that P by simp
    ultimately show ?thesis using Reconcile_node_upholds [OF node(1,2), of w1 c' P n] that(1,2) cs spec by (simp add: ends_def)
  qed
  have continue: "ends st ?T (bnd (if not_deleted (CacheMeta c) then bnd (Cache_AddFinalizer cl c) (\<lambda>(c, err). ret c) else ret c)
      (\<lambda>c. Reconcile_node env cl c n)) w1" if st1: "st (outside w1) = st (outside w)" for n w1
  proof (rule ends_bnd)
    show "keeps (same_obs st) (if not_deleted (CacheMeta c) then bnd (Cache_AddFinalizer cl c) (\<lambda>(c, err). ret c) else ret c)"
      by (intro keeps_obs client_quiet_ops(1) [OF node(2)])
    show "?T (st (outside w1))" using st1 served_alike_refl by simp
    fix c' w2
    assume run: "returns (if not_deleted (CacheMeta c) then bnd (Cache_AddFinalizer cl c) (\<lambda>(c, err). ret c) else ret c) w1 c' w2"
      and st2: "st (outside w2) = st (outside w1)"
    from run have "Spec c' = Spec c \<and> (not_deleted (CacheMeta c') \<longleftrightarrow> not_deleted (CacheMeta c))"
      using Cache_AddFinalizer_spec [OF node(3)] by (auto simp: returns_simps split: if_splits)
    then show "ends st ?T (Reconcile_node env cl c' n) w2" using onward st1 st2 by simp
  qed
  have first: "st x1 = st (outside w)" using node(2) get unfolding client_quiet_def by (metis snd_conv)
  have nodes: "ends st ?T (bnd (call (CNodes_Get cl k)) (\<lambda>(node, err).
       if err \<noteq> None then ret (Result_zero, if err_that IsNotFound err then None else err)
       else bnd (if not_deleted (CacheMeta c) then bnd (Cache_AddFinalizer cl c) (\<lambda>(c, err). ret c) else ret c)
         (\<lambda>c. Reconcile_node env cl c node))) (w\<lparr>outside := x1\<rparr>)" for k
  proof (rule ends_bnd [OF client_quiet_calls(2) [OF node(2)]], goal_cases)
    case 1
    then show ?case using first served_alike_refl by simp
  next
    case (2 a w1)
    then have st1: "st (outside w1) = st (outside w)" using first by simp
    show ?case
    proof (cases "snd a")
      case None
      then show ?thesis using continue [OF st1] by (simp add: split_beta)
    next
      case (Some e)
      then show ?thesis using st1 served_alike_refl by (simp add: split_beta ends_def)
    qed
  qed
  have "ends st ?T (Cache_Reconcile env cl req) w"
    using nodes unfolding ends_def Cache_Reconcile_def bnd_call get by simp
  then show ?thesis by (simp add: ends_def)
qed

section \<open>Properties of the cache reconciler\<close>

text \<open>
  C7: When a reconciliation of a resource that is not being deleted ends without an error and without
  asking for another run, the node is in the state the resource describes: every cache it lists is
  on the device of the resource, and one of them is in the requested mode (write-through where the
  resource names none).
\<close>

theorem Cache_Reconcile_converges:
  assumes "cache_node env st" "client_quiet cl st" "merge_patch_law cl"
    and "Caches_Get cl req (outside w) = ((c, None), x1)"
      "CNodes_Get cl (Namespace (CacheMeta c), Name (CacheMeta c)) x1 = ((n, None), x2)"
    and "not_deleted (CacheMeta c)" "valid_spec (Spec c)" "distinct (map CacheId (st (outside w)))"
    and "returns (Cache_Reconcile env cl req) w (Result_zero, None) w'"
  shows "(\<forall>d \<in> set (st (outside w')). DevicePath d = DeviceById (Spec c)) \<and>
    (\<exists>d \<in> set (st (outside w')). CacheMode d = targetMode c)"
proof -
  from assms(2-5,9) obtain c' w1 where run: "returns (Reconcile_node env cl c' n) w1 (Result_zero, None) w'"
    and spec: "Spec c' = Spec c" "not_deleted (CacheMeta c')" and st: "st (outside w1) = st (outside w)"
    using assms(6) by (metis Cache_Reconcile_found)
  show ?thesis
    using Reconcile_node_converges [OF assms(1,2) _ spec(2) _ run] assms(7,8) spec(1) st targetMode_cong by metis
qed

text \<open>
  C8: However a reconciliation ends, with whatever answer or with a panic, the caches that serve volumes go on
  serving them: the node has the same caches with cores as before, and all that is known of them and of their cores is
  unchanged, except that a cache on the device of a resource that is not being deleted may have been
  switched to the requested mode.
\<close>

theorem Cache_Reconcile_keeps_volumes:
  assumes "cache_node env st" "client_quiet cl st" "merge_patch_law cl"
    and "Caches_Get cl req (outside w) = ((c, None), x)"
    and "valid_spec (Spec c)" "distinct (map CacheId (st (outside w)))"
    and "Cache_Reconcile env cl req w = (outcome, w')"
    and "switched = (\<lambda>d. DevicePath d = DeviceById (Spec c) \<and> not_deleted (CacheMeta c))"
  shows "(\<forall>d \<in> set (st (outside w)). CacheVolumes d \<noteq> [] \<longrightarrow>
      d \<in> set (st (outside w')) \<or> switched d \<and> with_mode (targetMode c) d \<in> set (st (outside w'))) \<and>
    (\<forall>d \<in> set (st (outside w')). CacheVolumes d \<noteq> [] \<longrightarrow>
      d \<in> set (st (outside w)) \<or> (\<exists>d0 \<in> set (st (outside w)). switched d0 \<and> d = with_mode (targetMode c) d0))"
  using Cache_Reconcile_upholds [OF assms(1-3,6,4,5,8)] assms(7) by (simp add: served_alike_def)

text \<open>
  What is stored of the finalizers of the resources: a successful patch stores the list it sends, and a
  patch of a node does not change it.
\<close>

definition finalizers_stored :: "'x cache_client \<Rightarrow> ('x \<Rightarrow> string \<Rightarrow> string list) \<Rightarrow> bool" where
  "finalizers_stored cl fins \<longleftrightarrow>
     (\<forall>c base x c' x'. Caches_Patch cl c base x = ((c', None), x') \<longrightarrow>
        fins x' (Name (CacheMeta c)) = Finalizers (CacheMeta c)) \<and>
     (\<forall>n base x. fins (snd (CNodes_Patch cl n base x)) = fins x)"

lemma finish_finalizer:
  assumes laws: "finalizers_stored cl fins" "finalizer_laws (CacheFinalizers cl)"
    and c: "\<not> not_deleted (CacheMeta c)" "Finalizer \<in> set (Finalizers (CacheMeta c))"
    and run: "returns (Reconcile_finish cl c (n, False)) w (Result_zero, None) w'"
  shows "Finalizer \<notin> set (fins (outside w') (Name (CacheMeta c)))"
proof -
  let ?c = "c\<lparr>CacheMeta := (CacheMeta c)\<lparr>Finalizers := filter (\<lambda>g. g \<noteq> Finalizer) (Finalizers (CacheMeta c))\<rparr>\<rparr>"
  from run c obtain c' w1 s w2 where "returns (Cache_RemoveFinalizer cl c) w (c', None) w1"
    and node: "returns (DeleteOperatingCacheLabel cl n) w1 s w2" and "w' = w2"
    by (auto simp: Reconcile_finish_def returns_simps Result_zero_def DefaultRequequeAfter_def time_Second_def split: if_splits)
  then obtain x where patch: "Caches_Patch cl ?c c (outside w) = ((c', None), x)" "outside w1 = x"
    using laws(2) c(2) by (auto simp: Cache_RemoveFinalizer_def finalizer_laws_def returns_simps Let_def)
  have "fins x (Name (CacheMeta ?c)) = Finalizers (CacheMeta ?c)"
    using laws(1) patch(1) unfolding finalizers_stored_def by blast
  moreover have "fins (outside w2) = fins (outside w1)"
    using laws(1) node unfolding finalizers_stored_def DeleteOperatingCacheLabel_def
    by (auto simp: returns_simps) (metis snd_conv)
  ultimately show ?thesis using patch(2) \<open>w' = w2\<close> by simp
qed

text \<open>
  C33: When a reconciliation of a resource that is being deleted ends cleanly, the idle caches of the
  node are stopped and the finalizer is gone, so the resource disappears, although the caches that serve
  volumes are all still running: nothing is left that would stop them later.
\<close>

theorem Cache_Reconcile_deletion:
  assumes "cache_node env st" "client_quiet cl st" "merge_patch_law cl"
    and laws: "finalizers_stored cl fins" "finalizer_laws (CacheFinalizers cl)"
    and "Caches_Get cl req (outside w) = ((c, None), x1)"
      "CNodes_Get cl (Namespace (CacheMeta c), Name (CacheMeta c)) x1 = ((n, None), x2)"
    and c: "\<not> not_deleted (CacheMeta c)" "Finalizer \<in> set (Finalizers (CacheMeta c))" "valid_spec (Spec c)"
    and ids: "distinct (map CacheId (st (outside w)))"
    and "returns (Cache_Reconcile env cl req) w (Result_zero, None) w'"
  shows "(\<forall>d \<in> set (st (outside w')). CacheVolumes d \<noteq> []) \<and> busy (st (outside w')) = busy (st (outside w)) \<and>
    Finalizer \<notin> set (fins (outside w') (Name (CacheMeta c)))"
proof -
  from assms(2,3,6,7,12) obtain w1 where run: "returns (Reconcile_node env cl c n) w1 (Result_zero, None) w'"
    and st: "st (outside w1) = st (outside w)"
    using c(1) by (metis Cache_Reconcile_found)
  have busy: "busy (st (outside w')) = busy (st (outside w))"
    using Reconcile_node_busy [OF assms(1,2) c(3) _ run] ids st by simp
  from assms(1,2) run show ?thesis
  proof (cases rule: Reconcile_node_clean)
    case (1 cas R K n1 w3 n2 w4)
    have K: "K = []" using 1(3) c(1) by (cases K) auto
    then have "w4 = w3" using 1(8) c(1) by (simp add: Reconcile_apply_def)
    then have "\<forall>d \<in> set (st (outside w')). CacheVolumes d \<noteq> []"
      using 1(1,4,6,10) K by auto
    then show ?thesis using busy finish_finalizer [OF laws c(1,2) 1(9)] by blast
  qed
qed

text \<open>
  C34: A node in the desired state is left alone. If the node has one cache, on the device and in the mode
  of the resource and with its line size, then a reconciliation runs no command but the list and
  the statistics and patches no object, whatever the label of the node says: the world it ends in is the
  one after the statistics were read.
\<close>

theorem Cache_Reconcile_stable:
  assumes "Caches_Get cl req (outside w) = ((c, None), x1)"
      "CNodes_Get cl (Namespace (CacheMeta c), Name (CacheMeta c)) x1 = ((n, None), x2)"
    and "not_deleted (CacheMeta c)" "Finalizer \<in> set (Finalizers (CacheMeta c))" "finalizer_laws (CacheFinalizers cl)"
    and "Getenv env CasadmImageEnv \<noteq> []"
    and "NewOpenCasManager env (Name (CacheMeta c)) (Getenv env OperatorNamespaceEnv) (w\<lparr>outside := x2\<rparr>) = (Ret (Some cas, None), w1)"
    and "GetCacheInstances env cas w1 = (Ret ([d], None), w2)"
    and "DevicePath d = DeviceById (Spec c)" "CacheMode d = targetMode c"
    and "GetCacheLineSize env cas d w2 = (Ret (targetCls c, None), w3)"
  shows "Cache_Reconcile env cl req w = (Ret (Result_zero, None), w3)"
proof -
  have "c\<lparr>CacheMeta := CacheMeta c\<lparr>Finalizers := Finalizers (CacheMeta c)\<rparr>\<rparr> = c" by simp
  then have "Cache_AddFinalizer cl c = ret (c, None)"
    using assms(4,5) by (simp add: Cache_AddFinalizer_def finalizer_laws_def)
  then show ?thesis
    using assms
    by (simp add: Cache_Reconcile_def bnd_call Reconcile_node_def bnd_Ret Reconcile_instances_def
        Reconcile_apply_def Reconcile_finish_def)
qed

text \<open>
  C35: An update of a node leads to a reconciliation exactly when the node has become ready: both versions
  have a condition \<^verbatim>\<open>Ready\<close>, it is true in the new one and was not in the old. The requests are then the keys of
  all listed resources with the name of the node, in the order of the list.
\<close>

theorem node_watch:
  "(node_updated new old \<longleftrightarrow>
     (\<exists>n. List.find (\<lambda>c. CondType c = NodeReady) new = Some n \<and> CondStatus n = ConditionTrue \<and>
        (\<exists>o'. List.find (\<lambda>c. CondType c = NodeReady) old = Some o' \<and> CondStatus o' \<noteq> ConditionTrue))) \<and>
   (returns (node_requests cl node) w (Some reqs) w' \<longleftrightarrow>
     (\<exists>caches. returns (call (Caches_List cl)) w (caches, None) w' \<and>
        reqs = [(Namespace (CacheMeta c), Name (CacheMeta c)). c \<leftarrow> caches, Name (CacheMeta c) = Name (NodeMeta node)]))"
proof
  have none: "node_updated new old = False" if "List.find (\<lambda>c. CondType c = NodeReady) old = None" for new
    using that by (induction new) auto
  show "node_updated new old \<longleftrightarrow>
     (\<exists>n. List.find (\<lambda>c. CondType c = NodeReady) new = Some n \<and> CondStatus n = ConditionTrue \<and>
        (\<exists>o'. List.find (\<lambda>c. CondType c = NodeReady) old = Some o' \<and> CondStatus o' \<noteq> ConditionTrue))"
    by (cases "List.find (\<lambda>c. CondType c = NodeReady) old") (simp add: none, induction new, auto)
  have "map f (filter P xs) = concat (map (\<lambda>x. if P x then [f x] else []) xs)" for f :: "CacheResource \<Rightarrow> key" and P xs
    by (induction xs) auto
  then show "returns (node_requests cl node) w (Some reqs) w' \<longleftrightarrow>
     (\<exists>caches. returns (call (Caches_List cl)) w (caches, None) w' \<and>
        reqs = [(Namespace (CacheMeta c), Name (CacheMeta c)). c \<leftarrow> caches, Name (CacheMeta c) = Name (NodeMeta node)])"
    by (auto simp: node_requests_def returns_simps)
qed

end
