(* ===== verification/Operator_Cluster.thy ===== *)
theory Operator_Cluster
  imports Cache_Reconciler
begin

text \<open>
  The reference cluster as the operator sees it: the log of a job shows the statistics after the
  statistics command and the list of the caches after every other one, and a client for the \<^verbatim>\<open>Cache\<close> resource
  and the nodes. The laws the properties of the cache reconciler assume are proved of it, and the
  properties are run on it.
\<close>

section \<open>The cluster\<close>

definition mem_log :: "mem \<Rightarrow> string" where
  "mem_log x =
     (if MemLast x ! 1 = ''--stats''
      then csv_line [''Cache Id'', ''Cache line size [KiB]''] @ csv_line [''1'', ''4'']
      else print_cache_list (mem_caches x))"

definition operator_env :: "mem env" where
  "operator_env = (mem_env (\<lambda>_. Exited [] 0))
     \<lparr>Getenv := (\<lambda>_. ''registry/casadm''),
      kube := mem_kube
        \<lparr>Jobs_Create := (\<lambda>ns job x. ((job, None),
           x\<lparr>MemCaches := mem_casadm (job_argv job) (mem_caches x), MemLast := job_argv job\<rparr>)),
         Pods_Logs := (\<lambda>ns n x. (Inl (mem_log x, None), x))\<rparr>\<rparr>"

definition operator_client :: "CacheResource \<Rightarrow> mem cache_client" where
  "operator_client c =
     \<lparr>Caches_Get = (\<lambda>k x. ((c, None), x)),
      Caches_List = (\<lambda>x. (([c], None), x)),
      Caches_Patch = (\<lambda>c base x. ((c, None),
        x\<lparr>MemFinalizers := AList.update (Name (CacheMeta c)) (Finalizers (CacheMeta c)) (MemFinalizers x)\<rparr>)),
      CNodes_Get = (\<lambda>k x. Nodes_Get mem_kube (snd k) x),
      CNodes_Patch = (\<lambda>n base x. ((n, None), x\<lparr>MemNodes := AList.update (Name (NodeMeta n)) n (MemNodes x)\<rparr>)),
      CacheFinalizers = controllerutil\<rparr>"

definition mem_finalizers :: "mem \<Rightarrow> string \<Rightarrow> string list" where
  "mem_finalizers x n = (case map_of (MemFinalizers x) n of None \<Rightarrow> [] | Some fs \<Rightarrow> fs)"

section \<open>Its laws\<close>

lemma mem_casadm_step:
  assumes "list_all (\<lambda>c. cache_ok c \<and> cache_plain c) cs"
  shows "casadm_step argv cs (filter (\<lambda>c. cache_ok c \<and> cache_plain c) (mem_casadm argv cs))"
proof -
  let ?ok = "\<lambda>c. cache_ok c \<and> cache_plain c"
  have id: "filter ?ok cs = cs" using assms by (simp add: filter_id_conv list_all_iff)
  have ok_mode: "?ok (with_mode m c)" if "?ok c" "plain_field m" for m c
    using that by (auto simp: cache_ok_def cache_plain_def with_mode_def list_all_iff CacheHeader.defs comp_def split_def)
  have rest: "mem_casadm argv cs = cs"
    if "\<not> (argv ! 1 = ''--start-cache'' \<and> 4 < length argv)" "\<not> (argv ! 1 = ''--stop-cache'' \<and> 4 \<le> length argv)"
      "argv ! 1 \<noteq> ''--add-core''" "argv ! 1 \<noteq> ''--remove-core''"
      "\<not> (argv ! 1 = ''--set-cache-mode'' \<and> 5 < length argv \<and> plain_field (argv ! 5))"
    using that by (auto simp: mem_casadm_def Let_def)
  consider (few) "length argv < 4" | (start) "argv ! 1 = ''--start-cache''" "4 < length argv"
    | (stop) "argv ! 1 = ''--stop-cache''" "4 \<le> length argv" | (core) "argv ! 1 = ''--add-core'' \<or> argv ! 1 = ''--remove-core''"
    | (mode) "argv ! 1 = ''--set-cache-mode''" "5 < length argv" "plain_field (argv ! 5)" | (other) "mem_casadm argv cs = cs"
    using rest by blast
  then show ?thesis
  proof cases
    case few
    then show ?thesis by (simp add: mem_casadm_def id unchanged)
  next
    case start
    let ?c = "\<lparr>CacheId = int (length cs) + 1, DevicePath = argv ! 4, CacheStatus = ''Running'',
          CacheMode = (if 6 < length argv \<and> argv ! 5 = ''--cache-mode'' then argv ! 6 else ''wt''), CacheVolumes = []\<rparr>"
    have "mem_casadm argv cs = cs @ [?c]" using start by (simp add: mem_casadm_def Let_def)
    then show ?thesis using started [OF start(1), of ?c cs] id unchanged by simp
  next
    case stop
    then have "filter ?ok (mem_casadm argv cs) = filter (\<lambda>c. fmt_int (CacheId c) \<noteq> argv ! 3) (filter ?ok cs)"
      by (simp add: mem_casadm_def Let_def conj_commute conj_left_commute)
    then show ?thesis unfolding id by (simp only: stopped [OF stop(1)])
  next
    case core
    then show ?thesis by (rule cored)
  next
    case mode
    let ?cs = "map (\<lambda>c. if fmt_int (CacheId c) = argv ! 3 then with_mode (argv ! 5) c else c) cs"
    have "mem_casadm argv cs = ?cs" using mode by (simp add: mem_casadm_def Let_def)
    moreover have "filter ?ok ?cs = ?cs" using assms ok_mode mode(3) by (auto simp: filter_id_conv list_all_iff)
    ultimately show ?thesis by (simp only: switched [OF mode(1)])
  next
    case other
    then show ?thesis by (simp add: id unchanged)
  qed
qed

lemma operator_job:
  assumes "returns (ExecCommandJob operator_env job) w r w'"
  shows "outside w' = (outside w)\<lparr>MemCaches := mem_casadm (job_argv job) (mem_caches (outside w)), MemLast := job_argv job\<rparr>"
    and "r = (Some \<lparr>StdOut = mem_log (outside w'), ExitCode = 0\<rparr>, None)"
  using assms
  by (auto simp: ExecCommandJob_def ExecCommandJob_collect_def returns_simps operator_env_def mem_env_def mem_kube_def
      Let_def Pod_zero_def split: prod.splits)

lemma operator_cache_node: "cache_node operator_env mem_caches"
  unfolding cache_node_def casadm_lists_def
proof (intro conjI allI impI)
  fix job w out w'
  assume argv: "job_argv job = [''casadm'', ''--list-caches'', ''--by-id-path'', ''--output-format'', ''csv'']"
    and run: "returns (ExecCommandJob operator_env job) w (Some out, None) w'"
  have "MemLast (outside w') ! 1 = ''--list-caches''" using operator_job(1) [OF run] argv by simp
  then show "list_text (mem_caches (outside w')) (StdOut out)"
    using operator_job(2) [OF run] by (simp add: mem_log_def list_text_print)
  show "list_all cache_ok (mem_caches (outside w'))" "list_all cache_plain (mem_caches (outside w'))"
    by (rule mem_caches_ok)+
next
  show "reads_quiet operator_env mem_caches"
    using mem_quiet [of "\<lambda>_. Exited [] 0" mem_caches] by (simp add: reads_quiet_def operator_env_def mem_env_def)
next
  fix m x show "mem_caches (snd (RangeOrder operator_env m x)) = mem_caches x"
    by (simp add: operator_env_def mem_env_def)
next
  fix job w r w'
  assume run: "returns (ExecCommandJob operator_env job) w r w'"
  have ok: "list_all (\<lambda>c. cache_ok c \<and> cache_plain c) (mem_caches (outside w))"
    by (simp add: mem_caches_def list_all_iff)
  have "mem_caches (outside w') = filter (\<lambda>c. cache_ok c \<and> cache_plain c) (mem_casadm (job_argv job) (mem_caches (outside w)))"
    using operator_job(1) [OF run] by (simp add: mem_caches_def)
  then show "casadm_step (job_argv job) (mem_caches (outside w)) (mem_caches (outside w'))"
    using mem_casadm_step [OF ok] by simp
qed

lemma operator_client_laws:
  "client_quiet (operator_client c) mem_caches" "merge_patch_law (operator_client c)"
  "finalizers_stored (operator_client c) mem_finalizers" "finalizer_laws (CacheFinalizers (operator_client c))"
proof -
  show "client_quiet (operator_client c) mem_caches"
    by (auto simp: client_quiet_def operator_client_def mem_kube_def mem_caches_def split: option.split)
  show "merge_patch_law (operator_client c)" by (auto simp: merge_patch_law_def operator_client_def)
  show "finalizers_stored (operator_client c) mem_finalizers"
    by (auto simp: finalizers_stored_def operator_client_def mem_finalizers_def fun_eq_iff update_conv')
  show "finalizer_laws (CacheFinalizers (operator_client c))"
    by (simp add: operator_client_def controllerutil_laws)
qed

section \<open>Running the manager on it\<close>

definition op_exec :: "string list \<Rightarrow> mem \<Rightarrow> mem" where
  "op_exec argv x = x\<lparr>MemCaches := mem_casadm argv (mem_caches x), MemLast := argv\<rparr>"

abbreviation op_listed :: "mem world \<Rightarrow> mem world" where
  "op_listed w \<equiv> w\<lparr>outside := op_exec (Split listCachesCmd '' '') (outside w)\<rparr>"

lemma op_exec_listed: "mem_caches (op_exec (Split listCachesCmd '' '') x) = mem_caches x"
  unfolding listCaches_argv by (simp add: op_exec_def mem_caches_def mem_casadm_def)

lemma op_run:
  assumes "kubeletDir w \<noteq> []"
  shows "\<exists>name. run_casadm operator_env cas cmd w =
    (Ret (name, Some \<lparr>StdOut = mem_log (op_exec (Split cmd '' '') (outside w)), ExitCode = 0\<rparr>, None),
     w\<lparr>outside := op_exec (Split cmd '' '') (outside w)\<rparr>)"
proof -
  have dir: "ConfiguredKubeletDir env w1 = (Ret (kubeletDir w1), w1)" if "kubeletDir w1 \<noteq> []" for env :: "mem env" and w1
    using that by (simp add: ConfiguredKubeletDir_run configured_set)
  show ?thesis
    using assms
    by (simp add: run_casadm_def range_replace_def ExecCasadmCommandAsJob_def NewCasadmJob_def bnd_call bnd_Ret
        dir ExecCommandJob_def ExecCommandJob_collect_def operator_env_def mem_env_def mem_kube_def Let_def job_argv_def
        Container_zero_def PodSpec_zero_def Job_zero_def Pod_zero_def call_def bnd_def op_exec_def)
qed

lemma op_list:
  assumes "kubeletDir w \<noteq> []"
  shows "ListCaches operator_env cas w = (Ret (mem_caches (outside w), None), op_listed w)"
proof -
  have "mem_log (op_exec (Split listCachesCmd '' '') (outside w)) = print_cache_list (mem_caches (outside w))"
  proof -
    have "MemLast (op_exec (Split listCachesCmd '' '') (outside w)) ! 1 = ''--list-caches''"
      unfolding listCaches_argv by (simp add: op_exec_def)
    then show ?thesis by (simp add: mem_log_def op_exec_listed)
  qed
  then show ?thesis
    using op_run [OF assms, of cas listCachesCmd] by (auto simp: ListCaches_def bnd_Ret parse_print mem_caches_ok)
qed

lemma op_stop:
  fixes c :: Cache and w :: "mem world"
  defines "x \<equiv> op_exec (Split (stopCacheCmd (CacheId c)) '' '') (outside w)"
  assumes "kubeletDir w \<noteq> []" and "DevicePath c \<notin> DevicePath ` set (mem_caches x)"
  shows "StopCache operator_env cas c w = (Ret None, op_listed (w\<lparr>outside := x\<rparr>))"
  using op_run [OF assms(2), of cas "stopCacheCmd (CacheId c)"] assms(2,3) unfolding x_def [symmetric]
  by (auto simp: StopCache_def Let_def bnd_Ret op_list list_ex_iff) (metis imageI)

lemma op_start:
  fixes w :: "mem world" and p :: string and m :: CacheMode and cls :: CacheLineSize
  defines "x \<equiv> op_exec (Split (startCacheCmd p m cls (-1)) '' '') (outside w)"
  assumes "kubeletDir w \<noteq> []" and "List.find (\<lambda>c. DevicePath c = p) (mem_caches x) = Some c"
  shows "StartCache operator_env cas p m cls w = (Ret (Some c, None), op_listed (w\<lparr>outside := x\<rparr>))"
  using op_run [OF assms(2), of cas "startCacheCmd p m cls (-1)"] assms(2,3) unfolding x_def [symmetric]
  by (auto simp: StartCache_def Let_def bnd_Ret op_list)

lemma op_manager:
  assumes "kubeletDir w \<noteq> []" "protectedNamespace w \<noteq> []"
  shows "NewOpenCasManager operator_env n ns w = (Ret (Some \<lparr>CasNodeId = n, CasNamespace = ns\<rparr>, None), w)"
proof -
  have "kubeletDir w \<noteq> [] \<Longrightarrow> ConfiguredKubeletDir operator_env w = (Ret (kubeletDir w), w)"
    "protectedNamespace w \<noteq> [] \<Longrightarrow> ConfiguredProtectedNamespace operator_env w = (Ret (protectedNamespace w), w)"
    by (simp_all add: ConfiguredKubeletDir_run ConfiguredProtectedNamespace_run configured_set)
  then show ?thesis using assms
    by (simp add: NewOpenCasManager_def NewK8sUtils_def operator_env_def mem_env_def mem_kube_def bnd_call bnd_Ret bnd_assoc)
qed

section \<open>An example node\<close>

definition op_resource :: CacheResource where
  "op_resource = \<lparr>CacheMeta = named ''node1'',
     Spec = \<lparr>DeviceById = ''/dev/disk/by-id/nvme1'', CacheLizeSize = 0, SpecCacheMode = ''wa''\<rparr>,
     Status_of = \<lparr>StatusReady = False, StatusCacheId = 0\<rparr>\<rparr>"

definition op_node :: Node where
  "op_node = \<lparr>NodeMeta = (named ''node1'')\<lparr>Labels := Some [(OperatingCacheLabelKey, ''1'')]\<rparr>, Conditions = []\<rparr>"

definition op_world :: "Cache list \<Rightarrow> mem world" where
  "op_world cs = \<lparr>kubeletDir = ''/var/lib/kubelet'', protectedNamespace = ''opencas-csi-protected'',
     outside = \<lparr>MemClaims = [], MemPods = [], MemClasses = [], MemVolumes = [],
        MemNodes = [(''node1'', op_node)], MemCaches = cs, MemPaths = [], MemMounts = [], MemLast = [],
        MemFinalizers = []\<rparr>\<rparr>"

definition op_req :: key where "op_req = ([], ''node1'')"

definition op_cas :: OpenCAS where
  "op_cas = \<lparr>CasNodeId = ''node1'', CasNamespace = ''registry/casadm''\<rparr>"

definition busy_cache :: Cache where "busy_cache = mem_add_core demo_path demo_cache"

definition new_cache :: "int \<Rightarrow> Cache" where
  "new_cache i = \<lparr>CacheId = i, DevicePath = ''/dev/disk/by-id/nvme1'', CacheStatus = ''Running'', CacheMode = ''wa'', CacheVolumes = []\<rparr>"

lemma op_caches_ok:
  "cache_ok (new_cache 1)" "cache_plain (new_cache 1)" "cache_ok (new_cache 2)" "cache_plain (new_cache 2)"
  "cache_ok busy_cache" "cache_plain busy_cache"
  by code_simp+

lemma op_start_argv:
  "mem_casadm (Split (startCacheCmd ''/dev/disk/by-id/nvme1'' ''wa'' 0 (-1)) '' '') [] = [new_cache 1]"
  "mem_casadm (Split (startCacheCmd ''/dev/disk/by-id/nvme1'' ''wa'' 0 (-1)) '' '') [busy_cache] = [busy_cache, new_cache 2]"
proof -
  have "no_blank ''/dev/disk/by-id/nvme1''" "no_blank ''wa''" by code_simp+
  then show "mem_casadm (Split (startCacheCmd ''/dev/disk/by-id/nvme1'' ''wa'' 0 (-1)) '' '') [] = [new_cache 1]"
    "mem_casadm (Split (startCacheCmd ''/dev/disk/by-id/nvme1'' ''wa'' 0 (-1)) '' '') [busy_cache] = [busy_cache, new_cache 2]"
    by (simp_all add: startCache_argv mem_casadm_def new_cache_def)
qed

lemma op_stop_argv: "mem_casadm (Split (stopCacheCmd (CacheId demo_cache)) '' '') [demo_cache] = []"
  unfolding stopCache_argv by code_simp

lemma op_world_simps [simp]:
  "kubeletDir (op_world cs) = ''/var/lib/kubelet''" "protectedNamespace (op_world cs) = ''opencas-csi-protected''"
  "MemCaches (outside (op_world cs)) = cs" "MemNodes (outside (op_world cs)) = [(''node1'', op_node)]"
  "MemFinalizers (outside (op_world cs)) = []"
  by (simp_all add: op_world_def)

lemma op_found:
  "Caches_Get (operator_client c) op_req (outside (op_world cs)) = ((c, None), outside (op_world cs))"
  "CNodes_Get (operator_client c) (ns, ''node1'') (outside (op_world cs)) = ((op_node, None), outside (op_world cs))"
  by (simp_all add: operator_client_def mem_kube_def)

lemma op_resource_simps [simp]:
  "Name (CacheMeta op_resource) = ''node1''" "not_deleted (CacheMeta op_resource)" "Finalizers (CacheMeta op_resource) = []"
  "DeviceById (Spec op_resource) = ''/dev/disk/by-id/nvme1''" "SpecCacheMode (Spec op_resource) = ''wa''"
  "CacheLizeSize (Spec op_resource) = 0" "Namespace (CacheMeta op_resource) = []"
  by (simp_all add: op_resource_def named_def not_deleted_def)

lemma op_spec: "valid_spec (Spec op_resource)"
  unfolding valid_spec_def op_resource_simps by code_simp

lemma op_set_label:
  assumes "Labels (NodeMeta n) = Some ls"
  shows "SetOperatingCacheLabel (operator_client c) n v w =
    (let n' = n\<lparr>NodeMeta := (NodeMeta n)\<lparr>Labels := Some (AList.update OperatingCacheLabelKey v ls)\<rparr>\<rparr> in
     (Ret (n', None), w\<lparr>outside := (outside w)\<lparr>MemNodes := AList.update (Name (NodeMeta n)) n' (MemNodes (outside w))\<rparr>\<rparr>))"
  using assms by (simp add: SetOperatingCacheLabel_def mput_def of_outcome_Ret operator_client_def call_def Let_def)

lemma op_add_finalizer:
  "Cache_AddFinalizer (operator_client c) op_resource w =
     (let c' = op_resource\<lparr>CacheMeta := (CacheMeta op_resource)\<lparr>Finalizers := [Finalizer]\<rparr>\<rparr> in
      (Ret (c', None), w\<lparr>outside := (outside w)\<lparr>MemFinalizers := AList.update ''node1'' [Finalizer] (MemFinalizers (outside w))\<rparr>\<rparr>))"
  by (simp add: Cache_AddFinalizer_def operator_client_def controllerutil_def call_def)

lemma op_mem_caches [simp]:
  "mem_caches (x\<lparr>MemNodes := ns\<rparr>) = mem_caches x" "mem_caches (x\<lparr>MemFinalizers := fs\<rparr>) = mem_caches x"
  by (simp_all add: mem_caches_def)

lemma op_mem_exec: "mem_caches (op_exec argv x) = filter (\<lambda>c. cache_ok c \<and> cache_plain c) (mem_casadm argv (mem_caches x))"
  by (simp add: op_exec_def mem_caches_def)

lemma op_exec_stop:
  "mem_caches x = [demo_cache] \<Longrightarrow> mem_caches (op_exec (Split (stopCacheCmd (CacheId demo_cache)) '' '') x) = []"
  by (simp add: op_mem_exec op_stop_argv)

lemma op_exec_start:
  "mem_caches x = [] \<Longrightarrow>
     mem_caches (op_exec (Split (startCacheCmd ''/dev/disk/by-id/nvme1'' ''wa'' 0 (-1)) '' '') x) = [new_cache 1]"
  "mem_caches x = [busy_cache] \<Longrightarrow>
     mem_caches (op_exec (Split (startCacheCmd ''/dev/disk/by-id/nvme1'' ''wa'' 0 (-1)) '' '') x) = [busy_cache, new_cache 2]"
  by (simp_all add: op_mem_exec op_start_argv op_caches_ok)

lemma op_world_caches:
  "mem_caches (outside (op_world [demo_cache])) = [demo_cache]" "mem_caches (outside (op_world [busy_cache])) = [busy_cache]"
  by (simp_all add: mem_caches_def demo_cache_ok op_caches_ok)

lemma op_exec_nodes [simp]: "MemNodes (op_exec argv x) = MemNodes x" "MemFinalizers (op_exec argv x) = MemFinalizers x"
  by (simp_all add: op_exec_def)

lemma op_node_labels: "Labels (NodeMeta op_node) = Some [(OperatingCacheLabelKey, ''1'')]" "Name (NodeMeta op_node) = ''node1''"
  by (simp_all add: op_node_def named_def)

lemma not_deleted_finalizers: "not_deleted (m\<lparr>Finalizers := fs\<rparr>) \<longleftrightarrow> not_deleted m"
  by (simp add: not_deleted_def)

lemma op_env_image: "Getenv operator_env v = ''registry/casadm''"
  by (simp add: operator_env_def)

text \<open>The node with an idle cache on another device: the cache is stopped and the requested one started.\<close>

lemma op_reconcile_start:
  "Cache_Reconcile operator_env (operator_client op_resource) op_req (op_world cs) =
   Reconcile_instances operator_env (operator_client op_resource) op_cas
     (op_resource\<lparr>CacheMeta := (CacheMeta op_resource)\<lparr>Finalizers := [Finalizer]\<rparr>\<rparr>) op_node (mem_caches (outside (op_world cs)))
     (op_listed ((op_world cs)\<lparr>outside := (outside (op_world cs))\<lparr>MemFinalizers := [(''node1'', [Finalizer])]\<rparr>\<rparr>))"
  by (simp add: Cache_Reconcile_def bnd_call op_found bnd_Ret op_add_finalizer Let_def Reconcile_node_def op_env_image
      op_manager GetCacheInstances_def op_list op_cas_def)

lemma op_converge_run:
  "\<exists>w'. returns (Cache_Reconcile operator_env (operator_client op_resource) op_req) (op_world [demo_cache]) (Result_zero, None) w'"
proof -
  have dev: "DevicePath demo_cache \<noteq> ''/dev/disk/by-id/nvme1''" "CacheVolumes demo_cache = []" "fmt_int (CacheId demo_cache) = ''1''"
    by code_simp+
  have device: "DevicePath (new_cache i) = ''/dev/disk/by-id/nvme1''" for i by (simp add: new_cache_def)
  show ?thesis
    unfolding returns_def op_reconcile_start
    by (simp add: Reconcile_instances_def op_world_caches dev bnd_Ret bnd_assoc Reconcile_apply_def op_node_labels not_deleted_finalizers Reconcile_finish_def
        op_set_label Let_def op_stop op_start op_exec_listed op_exec_stop op_exec_start device)
qed

text \<open>The node whose cache serves a volume: the requested cache is started beside it, and the reconciler asks to be run again.\<close>

lemma busy_cache_fields:
  "DevicePath busy_cache \<noteq> ''/dev/disk/by-id/nvme1''" "CacheVolumes busy_cache \<noteq> []" "fmt_int (CacheId busy_cache) = ''1''"
  "CacheId busy_cache = 1" "map fst (CacheVolumes busy_cache) = [demo_path]" "DevicePath busy_cache = ''/dev/nvme0n1''"
  by code_simp+

lemma op_busy_run:
  "\<exists>w'. returns (Cache_Reconcile operator_env (operator_client op_resource) op_req) (op_world [busy_cache])
     (\<lparr>Requeue = False, RequeueAfter = DefaultRequequeAfter\<rparr>, None) w'"
proof -
  have device: "DevicePath (new_cache i) = ''/dev/disk/by-id/nvme1''" for i by (simp add: new_cache_def)
  show ?thesis
    unfolding returns_def op_reconcile_start
    by (simp add: Reconcile_instances_def op_world_caches busy_cache_fields(1-3) bnd_Ret bnd_assoc Reconcile_apply_def op_node_labels
        not_deleted_finalizers Reconcile_finish_def op_set_label Let_def op_start op_exec_listed op_exec_start device)
qed

text \<open>The same node when the resource is being deleted.\<close>

definition op_deleted :: CacheResource where
  "op_deleted = op_resource\<lparr>CacheMeta := (CacheMeta op_resource)\<lparr>Finalizers := [Finalizer], DeletionTimestamp := Some 1\<rparr>\<rparr>"

lemma op_deleted_simps [simp]:
  "Name (CacheMeta op_deleted) = ''node1''" "\<not> not_deleted (CacheMeta op_deleted)" "Finalizers (CacheMeta op_deleted) = [Finalizer]"
  "Spec op_deleted = Spec op_resource" "Namespace (CacheMeta op_deleted) = []"
  by (simp_all add: op_deleted_def not_deleted_def)

lemma op_deletion_run:
  "\<exists>w'. returns (Cache_Reconcile operator_env (operator_client op_deleted) op_req) (op_world [busy_cache]) (Result_zero, None) w'"
proof -
  have start: "Cache_Reconcile operator_env (operator_client op_deleted) op_req (op_world [busy_cache]) =
     Reconcile_instances operator_env (operator_client op_deleted) op_cas op_deleted op_node [busy_cache] (op_listed (op_world [busy_cache]))"
    by (simp add: Cache_Reconcile_def bnd_call op_found bnd_Ret Reconcile_node_def op_env_image
      op_manager GetCacheInstances_def op_list op_cas_def op_world_caches)
  show ?thesis
    unfolding returns_def start
    by (simp add: Reconcile_instances_def busy_cache_fields(1-3) bnd_Ret bnd_assoc Reconcile_apply_def Reconcile_finish_def
        Cache_RemoveFinalizer_def DeleteOperatingCacheLabel_def operator_client_def controllerutil_def Let_def call_def bnd_def)
qed

lemma op_found_node:
  "CNodes_Get (operator_client c) (Namespace (CacheMeta op_resource), Name (CacheMeta op_resource)) (outside (op_world cs)) =
     ((op_node, None), outside (op_world cs))"
  "CNodes_Get (operator_client c) (Namespace (CacheMeta op_deleted), Name (CacheMeta op_deleted)) (outside (op_world cs)) =
     ((op_node, None), outside (op_world cs))"
  by (simp_all add: op_found)

section \<open>The properties on the example node\<close>

theorem Cache_Reconcile_converges_witness:
  "\<exists>w'. returns (Cache_Reconcile operator_env (operator_client op_resource) op_req) (op_world [demo_cache]) (Result_zero, None) w' \<and>
     (\<forall>d \<in> set (mem_caches (outside w')). DevicePath d = ''/dev/disk/by-id/nvme1'') \<and> mem_caches (outside w') \<noteq> []"
proof -
  obtain w' where run: "returns (Cache_Reconcile operator_env (operator_client op_resource) op_req) (op_world [demo_cache]) (Result_zero, None) w'"
    using op_converge_run by blast
  have ids: "distinct (map CacheId (mem_caches (outside (op_world [demo_cache]))))" by (simp add: op_world_caches)
  show ?thesis
    using Cache_Reconcile_converges [OF operator_cache_node operator_client_laws(1,2) op_found(1) op_found_node(1)
      op_resource_simps(2) op_spec ids run] run by auto
qed

theorem Cache_Reconcile_keeps_volumes_witness:
  "\<exists>r w'. returns (Cache_Reconcile operator_env (operator_client op_resource) op_req) (op_world [busy_cache]) r w' \<and>
     busy_cache \<in> set (mem_caches (outside w')) \<and> CacheVolumes busy_cache \<noteq> []"
proof -
  obtain r w' where run: "returns (Cache_Reconcile operator_env (operator_client op_resource) op_req) (op_world [busy_cache]) r w'"
    using op_busy_run by blast
  have ids: "distinct (map CacheId (mem_caches (outside (op_world [busy_cache]))))" by (simp add: op_world_caches)
  have "DevicePath busy_cache \<noteq> DeviceById (Spec op_resource)" using busy_cache_fields(1) by (simp add: op_resource_def)
  then have "busy_cache \<in> set (mem_caches (outside w'))"
    using Cache_Reconcile_keeps_volumes [OF operator_cache_node operator_client_laws(1,2) op_found(1)
      op_spec ids run [unfolded returns_def] refl] busy_cache_fields(2) by (simp add: op_world_caches)
  then show ?thesis using run busy_cache_fields(2) by blast
qed

theorem Cache_Reconcile_deletion_witness:
  "\<exists>w'. returns (Cache_Reconcile operator_env (operator_client op_deleted) op_req) (op_world [busy_cache]) (Result_zero, None) w' \<and>
     busy (mem_caches (outside w')) = {(1, ''/dev/nvme0n1'', [demo_path])} \<and> Finalizer \<notin> set (mem_finalizers (outside w') ''node1'')"
proof -
  obtain w' where run: "returns (Cache_Reconcile operator_env (operator_client op_deleted) op_req) (op_world [busy_cache]) (Result_zero, None) w'"
    using op_deletion_run by blast
  have ids: "distinct (map CacheId (mem_caches (outside (op_world [busy_cache]))))" by (simp add: op_world_caches)
  have c: "Finalizer \<in> set (Finalizers (CacheMeta op_deleted))" "valid_spec (Spec op_deleted)" by (simp_all add: op_spec)
  have "busy (mem_caches (outside (op_world [busy_cache]))) = {(1, ''/dev/nvme0n1'', [demo_path])}"
    using busy_cache_fields by (auto simp: busy_def op_world_caches)
  then show ?thesis
    using Cache_Reconcile_deletion [OF operator_cache_node operator_client_laws op_found(1) op_found_node(2)
      op_deleted_simps(2) c ids run] run by auto
qed

text \<open>The node in the desired state, with a label that names no cache.\<close>

definition op_current :: CacheResource where
  "op_current = op_resource\<lparr>CacheMeta := (CacheMeta op_resource)\<lparr>Finalizers := [Finalizer]\<rparr>\<rparr>"

lemma op_current_simps [simp]:
  "Name (CacheMeta op_current) = ''node1''" "not_deleted (CacheMeta op_current)" "Finalizers (CacheMeta op_current) = [Finalizer]"
  "Spec op_current = Spec op_resource" "Namespace (CacheMeta op_current) = []"
  by (simp_all add: op_current_def not_deleted_finalizers)

lemma op_line_size:
  assumes "kubeletDir w \<noteq> []"
  shows "GetCacheLineSize operator_env cas (c :: Cache) w =
    (Ret (4, None), w\<lparr>outside := op_exec (Split (statsCmd (CacheId c) (-1)) '' '') (outside w)\<rparr>)"
proof -
  have stats: "parseStats (csv_line [''Cache Id'', ''Cache line size [KiB]''] @ csv_line [''1'', ''4'']) =
      (Some [(''Cache Id'', ''1''), (''Cache line size [KiB]'', ''4'')], None)"
    by code_simp
  have num: "ParseUint (mgets (Some [(''Cache Id'', ''1''), (''Cache line size [KiB]'', ''4'')]) ''Cache line size [KiB]'') 8 = (4, None)"
    by code_simp
  have log: "mem_log (op_exec (Split (statsCmd (CacheId c) (-1)) '' '') x) =
      csv_line [''Cache Id'', ''Cache line size [KiB]''] @ csv_line [''1'', ''4'']" for x
    unfolding stats_argv by (simp add: mem_log_def op_exec_def)
  show ?thesis
    using op_run [OF assms, of cas "statsCmd (CacheId c) (-1)"] unfolding log
    by (auto simp: GetCacheLineSize_def GetStatistics_def bnd_Ret bnd_assoc stats num)
qed

theorem Cache_Reconcile_stable_witness:
  "\<exists>w'. Cache_Reconcile operator_env (operator_client op_current) op_req (op_world [new_cache 1]) = (Ret (Result_zero, None), w') \<and>
     MemNodes (outside w') = MemNodes (outside (op_world [new_cache 1]))"
proof -
  let ?w = "op_world [new_cache 1]"
  have caches: "mem_caches (outside ?w) = [new_cache 1]" by (simp add: mem_caches_def op_caches_ok)
  have node: "CNodes_Get (operator_client op_current) (Namespace (CacheMeta op_current), Name (CacheMeta op_current)) (outside ?w) =
      ((op_node, None), outside ?w)" by (simp add: op_found)
  have manager: "NewOpenCasManager operator_env (Name (CacheMeta op_current)) (Getenv operator_env OperatorNamespaceEnv)
      (?w\<lparr>outside := outside ?w\<rparr>) = (Ret (Some op_cas, None), ?w)"
    by (simp add: op_manager op_env_image op_cas_def)
  have insts: "GetCacheInstances operator_env op_cas ?w = (Ret ([new_cache 1], None), op_listed ?w)"
    by (simp add: GetCacheInstances_def bnd_Ret op_list caches)
  have size: "GetCacheLineSize operator_env op_cas (new_cache 1) (op_listed ?w) = (Ret (targetCls op_current, None),
      (op_listed ?w)\<lparr>outside := op_exec (Split (statsCmd (CacheId (new_cache 1)) (-1)) '' '') (outside (op_listed ?w))\<rparr>)"
    by (simp add: op_line_size targetCls_def CLS_4k_def)
  have fin: "Finalizer \<in> set (Finalizers (CacheMeta op_current))" and image: "Getenv operator_env CasadmImageEnv \<noteq> []"
    and dev: "DevicePath (new_cache 1) = DeviceById (Spec op_current)" "CacheMode (new_cache 1) = targetMode op_current"
    by (simp_all add: op_env_image new_cache_def targetMode_def)
  from Cache_Reconcile_stable [OF op_found(1) node op_current_simps(2) fin operator_client_laws(4) image manager insts dev size]
  show ?thesis by simp
qed

end
