(* ===== verification/Driver_Helpers.thy ===== *)
theory Driver_Helpers
  imports Operator_Types
begin

text \<open>
  \<^verbatim>\<open>pkg/csi-operator/api/v1alpha1/driverinstance_types.go\<close> and
  \<^verbatim>\<open>pkg/csi-operator/internal/helpers/helpers.go\<close>: the \<^verbatim>\<open>DriverInstance\<close> resource and the objects the
  operator derives from it, namespace, service account, roles and bindings, the \<^verbatim>\<open>CSIDriver\<close> object, the
  config map, the deployment of the controller plugin and the daemon set of the node plugin.

  An API object is its metadata, its type and the part that is specific to the type. An
  \<^verbatim>\<open>APIVersion\<close> is kept as the pair of group and version it is made of.
\<close>

section \<open>The DriverInstance resource\<close>

record DriverConf =
  DriverImage :: string
  ConfCasadmImage :: string
  WebhookImage :: string
  DriverNamespace :: string
  ConfProtectedNamespace :: string
  ControllerReplicas :: "32 word"

record DriverInstanceSpec =
  LogLevel :: "16 word"
  SpecNodeSelector :: "string gomap"
  SpecLabels :: "string gomap"
  BuildArgs :: "string gomap"
  DriverConfig :: DriverConf

record DriverInstance =
  DiMeta :: ObjectMeta
  DiSpec :: DriverInstanceSpec

definition GetDefaultLabels :: "DriverInstance \<Rightarrow> (string \<times> string) list" where
  "GetDefaultLabels di =
     AList.update ''app.kubernetes.io/managed-by'' ''opencas-csi-operator''
     (AList.update ''app.kubernetes.io/part-of'' ''opencas-csi-driver''
     (AList.update ''app.kubernetes.io/name'' (Name (DiMeta di)) []))"

section \<open>Objects\<close>

record TypeMeta =
  TypeKind :: string
  APIVersion :: "string \<times> string"

record PolicyRule =
  APIGroups :: "string list"
  Resources :: "string list"
  Verbs :: "string list"

record RoleRef =
  RefGroup :: string
  RefKind :: string
  RefName :: string

record Subject =
  SubjectKind :: string
  SubjectName :: string
  SubjectNamespace :: string

record CSIDriverSpec =
  AttachRequired :: "bool option"
  FSGroupPolicy :: "string option"
  PodInfoOnMount :: "bool option"
  VolumeLifecycleModes :: "string list"

record Workload =
  Replicas :: "32 word option"
  MatchLabels :: "string gomap"
  TemplateLabels :: "string gomap"
  TemplateSpec :: PodSpec

datatype object_body =
    NamespaceBody
  | ServiceAccountBody
  | RoleBody "PolicyRule list"
  | RoleBindingBody RoleRef "Subject list"
  | ClusterRoleBody "PolicyRule list"
  | ClusterRoleBindingBody RoleRef "Subject list"
  | CSIDriverBody CSIDriverSpec
  | ConfigMapBody "string gomap"
  | DeploymentBody Workload
  | DaemonSetBody Workload

record client_Object =
  ObjMeta :: ObjectMeta
  ObjType :: TypeMeta
  ObjBody :: object_body

definition corev1 :: "string \<times> string" where "corev1 = ('''', ''v1'')"
definition appsv1 :: "string \<times> string" where "appsv1 = (''apps'', ''v1'')"
definition rbacv1 :: "string \<times> string" where "rbacv1 = (''rbac.authorization.k8s.io'', ''v1'')"
definition storagev1 :: "string \<times> string" where "storagev1 = (''storage.k8s.io'', ''v1'')"

definition Workload_zero :: Workload where
  "Workload_zero = \<lparr>Replicas = None, MatchLabels = None, TemplateLabels = None, TemplateSpec = PodSpec_zero\<rparr>"

definition CSIDriverSpec_zero :: CSIDriverSpec where
  "CSIDriverSpec_zero = \<lparr>AttachRequired = None, FSGroupPolicy = None, PodInfoOnMount = None, VolumeLifecycleModes = []\<rparr>"

text \<open>The zero body of each type.\<close>

fun zero_body :: "object_body \<Rightarrow> object_body" where
  "zero_body NamespaceBody = NamespaceBody"
| "zero_body ServiceAccountBody = ServiceAccountBody"
| "zero_body (RoleBody rules) = RoleBody []"
| "zero_body (RoleBindingBody ref subjects) = RoleBindingBody \<lparr>RefGroup = [], RefKind = [], RefName = []\<rparr> []"
| "zero_body (ClusterRoleBody rules) = ClusterRoleBody []"
| "zero_body (ClusterRoleBindingBody ref subjects) = ClusterRoleBindingBody \<lparr>RefGroup = [], RefKind = [], RefName = []\<rparr> []"
| "zero_body (CSIDriverBody spec) = CSIDriverBody CSIDriverSpec_zero"
| "zero_body (ConfigMapBody data) = ConfigMapBody None"
| "zero_body (DeploymentBody spec) = DeploymentBody Workload_zero"
| "zero_body (DaemonSetBody spec) = DaemonSetBody Workload_zero"

definition GetNewObject :: "client_Object \<Rightarrow> client_Object" where
  "GetNewObject obj = \<lparr>ObjMeta = ObjectMeta_zero, ObjType = \<lparr>TypeKind = [], APIVersion = ([], [])\<rparr>,
     ObjBody = zero_body (ObjBody obj)\<rparr>"

section \<open>Names\<close>

definition the_ServiceAccountName :: string where "the_ServiceAccountName = ''opencas-csi-driver-sa''"
definition ConfigMapName :: string where "ConfigMapName = ''opencas-csi-driver-config-map''"
definition ControllerPluginName :: string where "ControllerPluginName = ''opencas-csi-controller-plugin''"
definition NodePluginName :: string where "NodePluginName = ''opencas-csi-node-plugin''"

text \<open>
  The labels of an object: the default ones, the component, and the labels of the resource over them.
\<close>

definition componentKey :: string where "componentKey = ''app.kubernetes.io/component''"
definition partOfKey :: string where "partOfKey = ''app.kubernetes.io/part-of''"

definition object_labels :: "DriverInstance \<Rightarrow> string \<Rightarrow> (string \<times> string) list" where
  "object_labels di component =
     fold (\<lambda>(k, v) labels. AList.update k v labels) (mentries (SpecLabels (DiSpec di)))
       (AList.update componentKey component (GetDefaultLabels di))"

definition object :: "string \<Rightarrow> string \<Rightarrow> (string \<times> string) list \<Rightarrow> string \<Rightarrow> string \<times> string \<Rightarrow> object_body \<Rightarrow> client_Object" where
  "object name ns labels kind version body =
     \<lparr>ObjMeta = ObjectMeta_zero\<lparr>Name := name, Namespace := ns, Labels := Some labels\<rparr>,
      ObjType = \<lparr>TypeKind = kind, APIVersion = version\<rparr>, ObjBody = body\<rparr>"

definition driver_namespace :: "DriverInstance \<Rightarrow> string" where
  "driver_namespace di = DriverNamespace (DriverConfig (DiSpec di))"

section \<open>Configurations\<close>

definition GetNamespaceConfiguration :: "DriverInstance \<Rightarrow> client_Object" where
  "GetNamespaceConfiguration di =
     object (driver_namespace di) [] (object_labels di ''namespace'') ''Namespace'' corev1 NamespaceBody"

definition GetServiceAccountConfiguration :: "DriverInstance \<Rightarrow> client_Object" where
  "GetServiceAccountConfiguration di =
     object the_ServiceAccountName (driver_namespace di) (object_labels di ''service-account'') ''ServiceAccount'' corev1
       ServiceAccountBody"

definition policy :: "string \<Rightarrow> string \<Rightarrow> string list \<Rightarrow> PolicyRule" where
  "policy grp resource verbs = \<lparr>APIGroups = [grp], Resources = [resource], Verbs = verbs\<rparr>"

definition GetRolesConfiguration :: "DriverInstance \<Rightarrow> client_Object list" where
  "GetRolesConfiguration di =
     [object ''pod-executioner'' (driver_namespace di) (object_labels di ''role'') ''Role'' rbacv1
        (RoleBody
          [policy '''' ''pods'' [''get'', ''list'', ''watch'', ''create'', ''delete'', ''update''],
           policy '''' ''pods/exec'' [''create'']])]"

definition role_ref :: "client_Object \<Rightarrow> RoleRef" where
  "role_ref role = \<lparr>RefGroup = fst (APIVersion (ObjType role)), RefKind = TypeKind (ObjType role), RefName = Name (ObjMeta role)\<rparr>"

definition GetRoleBindingsConfiguration :: "DriverInstance \<Rightarrow> client_Object list" where
  "GetRoleBindingsConfiguration di =
     (let sa = GetServiceAccountConfiguration di in
      map (\<lambda>role. object (the_ServiceAccountName @ ''-'' @ Name (ObjMeta role)) (driver_namespace di)
             (object_labels di ''role-binding'') ''RoleBinding'' rbacv1
             (RoleBindingBody (role_ref role)
               [\<lparr>SubjectKind = TypeKind (ObjType sa), SubjectName = Name (ObjMeta sa), SubjectNamespace = []\<rparr>]))
        (GetRolesConfiguration di))"

definition GetClusterRolesConfiguration :: "DriverInstance \<Rightarrow> client_Object list" where
  "GetClusterRolesConfiguration di =
     (let read = [''get'', ''list'', ''watch''];
          manage = [''get'', ''list'', ''watch'', ''create'', ''delete'', ''update''];
          cluster_role = (\<lambda>name rules. object name [] (object_labels di ''cluster-role'') ''ClusterRole'' rbacv1 (ClusterRoleBody rules))
      in
      [cluster_role ''external-provisioner-runner''
         [policy '''' ''persistentvolumes'' manage,
          policy '''' ''persistentvolumeclaims'' manage,
          policy '''' ''nodes'' read,
          policy '''' ''configmaps'' read,
          policy ''storage.k8s.io'' ''storageclasses'' read,
          policy ''storage.k8s.io'' ''volumeattachments'' read,
          policy ''storage.k8s.io'' ''csinodes'' read,
          policy '''' ''events'' [''list'', ''watch'', ''create'', ''update'', ''patch''],
          policy ''snapshot.storage.k8s.io'' ''volumesnapshotcontents'' [''get'', ''list'']],
       cluster_role ''external-attacher-runner''
         [policy '''' ''persistentvolumes'' (read @ [''patch'']),
          policy ''storage.k8s.io'' ''volumeattachments'' (read @ [''patch'']),
          policy ''storage.k8s.io'' ''volumeattachments/status'' [''patch''],
          policy ''storage.k8s.io'' ''csinodes'' read]])"

definition GetClusterRoleBindingsConfiguration :: "DriverInstance \<Rightarrow> client_Object list" where
  "GetClusterRoleBindingsConfiguration di =
     (let sa = GetServiceAccountConfiguration di in
      map (\<lambda>clusterRole. object (the_ServiceAccountName @ ''-'' @ Name (ObjMeta clusterRole)) []
             (object_labels di ''cluster-role-binding'') ''ClusterRoleBinding'' rbacv1
             (ClusterRoleBindingBody (role_ref clusterRole)
               [\<lparr>SubjectKind = TypeKind (ObjType sa), SubjectName = Name (ObjMeta sa), SubjectNamespace = Namespace (ObjMeta sa)\<rparr>]))
        (GetClusterRolesConfiguration di))"

definition GetCSIDriverConfiguration :: "DriverInstance \<Rightarrow> client_Object" where
  "GetCSIDriverConfiguration di =
     object (Name (DiMeta di)) [] (object_labels di ''csi-driver'') ''CSIDriver'' storagev1
       (CSIDriverBody \<lparr>AttachRequired = Some True, FSGroupPolicy = Some ''File'', PodInfoOnMount = Some True,
          VolumeLifecycleModes = [''Persistent'']\<rparr>)"

definition GetConfigMapConfiguration :: "'x env \<Rightarrow> DriverInstance \<Rightarrow> ('x world, client_Object) io" where
  "GetConfigMapConfiguration env di =
     (let conf = DriverConfig (DiSpec di) in
      bnd (ConfiguredKubeletDir env) (\<lambda>dir.
      ret (object ConfigMapName (driver_namespace di) (object_labels di ''config-map'') ''ConfigMap'' corev1
        (ConfigMapBody (Some
          [(CasadmImageEnv, ConfCasadmImage conf), (KubeletDirEnv, dir),
           (ProtectedNamespaceEnv, ConfProtectedNamespace conf), (WebhookImageEnv, WebhookImage conf)])))))"

section \<open>The plugins\<close>

definition mount_at :: "string \<Rightarrow> string \<Rightarrow> VolumeMount" where
  "mount_at name path = \<lparr>MountName = name, MountPath = path, MountPropagation = None\<rparr>"

definition mount_bidirectional :: "string \<Rightarrow> string \<Rightarrow> VolumeMount" where
  "mount_bidirectional name path = \<lparr>MountName = name, MountPath = path, MountPropagation = Some ''Bidirectional''\<rparr>"

definition kube_node_name :: EnvVar where
  "kube_node_name = \<lparr>EnvName = ''KUBE_NODE_NAME'', FieldRef = (''v1'', ''spec.nodeName'')\<rparr>"

definition driver_namespace_var :: EnvVar where
  "driver_namespace_var = \<lparr>EnvName = ''DRIVER_NAMESPACE'', FieldRef = (''v1'', ''metadata.namespace'')\<rparr>"

definition verbosity :: "DriverInstance \<Rightarrow> string" where
  "verbosity di = ''--v='' @ fmt_int (uint (LogLevel (DiSpec di)))"

text \<open>The container of the driver itself, which differs between the plugins in name, server flag and mounts.\<close>

definition plugin_container :: "DriverInstance \<Rightarrow> string \<Rightarrow> string \<Rightarrow> VolumeMount list \<Rightarrow> Container" where
  "plugin_container di name server mounts = Container_zero
     \<lparr>ContainerName := name,
      Image := DriverImage (DriverConfig (DiSpec di)),
      ImagePullPolicy := ''Always'',
      Args := [''--drivername='' @ Name (DiMeta di), verbosity di, ''--nodeid=$(KUBE_NODE_NAME)'',
        ''--endpoint=unix:///csi/csi.sock'', server],
      Env := [kube_node_name, driver_namespace_var],
      EnvFrom := [ConfigMapName],
      Privileged := Some True,
      Ports := [\<lparr>PortName = ''healthz'', PortNumber = 9898, PortProtocol = ''TCP''\<rparr>],
      LivenessProbe := Some \<lparr>FailureThreshold = 5, HttpPath = ''/healthz'', HttpPort = ''healthz'',
        InitialDelaySeconds = 10, TimeoutSeconds = 3, PeriodSeconds = 2\<rparr>,
      VolumeMounts := mounts\<rparr>"

definition liveness_container :: "VolumeMount \<Rightarrow> Container" where
  "liveness_container socketDirMount = Container_zero
     \<lparr>ContainerName := ''liveness-probe'',
      Image := ''registry.k8s.io/sig-storage/livenessprobe:v2.11.0'',
      VolumeMounts := [socketDirMount],
      Args := [''--csi-address=/csi/csi.sock'', ''--health-port=9898'']\<rparr>"

text \<open>The helper containers of the two plugins, and a volume of the node plugin, named after its mount.\<close>

definition provisioner_container :: "DriverInstance \<Rightarrow> VolumeMount \<Rightarrow> Container" where
  "provisioner_container di socketDirMount = Container_zero
     \<lparr>ContainerName := ''csi-provisioner'',
      Image := ''registry.k8s.io/sig-storage/csi-provisioner:v3.6.0'',
      Args := [verbosity di, ''--csi-address=/csi/csi.sock'', ''--leader-election=true''],
      Privileged := Some True, VolumeMounts := [socketDirMount]\<rparr>"

definition attacher_container :: "DriverInstance \<Rightarrow> VolumeMount \<Rightarrow> Container" where
  "attacher_container di socketDirMount = Container_zero
     \<lparr>ContainerName := ''csi-attacher'',
      Image := ''registry.k8s.io/sig-storage/csi-attacher:v4.4.0'',
      Args := [verbosity di, ''--csi-address=/csi/csi.sock'', ''--leader-election=true'', ''--http-endpoint=:8080''],
      VolumeMounts := [socketDirMount]\<rparr>"

definition registrar_container :: "DriverInstance \<Rightarrow> string \<Rightarrow> VolumeMount list \<Rightarrow> Container" where
  "registrar_container di dir mounts = Container_zero
     \<lparr>ContainerName := ''node-driver-registrar'',
      Image := ''registry.k8s.io/sig-storage/csi-node-driver-registrar:v2.9.0'',
      Args := [verbosity di, ''--csi-address=/csi/csi.sock'',
        ''--kubelet-registration-path='' @ dir @ ''/plugins/'' @ Name (DiMeta di) @ ''/csi.sock''],
      Privileged := Some True,
      Env := [kube_node_name],
      VolumeMounts := mounts\<rparr>"

definition host_volume :: "VolumeMount \<Rightarrow> string \<Rightarrow> string \<Rightarrow> Volume" where
  "host_volume mount path kind = \<lparr>VolName = MountName mount, VolSource = HostPath path kind\<rparr>"

definition GetControllerDeploymentConfiguration :: "DriverInstance \<Rightarrow> client_Object" where
  "GetControllerDeploymentConfiguration di =
     (let labels = object_labels di ''controller-plugin'';
          socketDirMount = mount_at ''socket-dir'' ''/csi'';
          wanted = ControllerReplicas (DriverConfig (DiSpec di));
          replicas = (if wanted = 0 then 1 else wanted);
          spec = PodSpec_zero
            \<lparr>NodeSelector := Some [(''node-role.kubernetes.io/control-plane'', '''')],
             PodAntiAffinity :=
               [\<lparr>MatchExpressions =
                   [\<lparr>ReqKey = partOfKey, ReqOperator = ''In'', ReqValues = [mgets (Some labels) partOfKey]\<rparr>,
                    \<lparr>ReqKey = componentKey, ReqOperator = ''In'', ReqValues = [mgets (Some labels) componentKey]\<rparr>],
                 TopologyKey = ''kubernetes.io/hostname''\<rparr>],
             ServiceAccountName := the_ServiceAccountName,
             Containers :=
               [plugin_container di ControllerPluginName ''--controllerserver'' [socketDirMount],
                liveness_container socketDirMount,
                provisioner_container di socketDirMount,
                attacher_container di socketDirMount],
             PriorityClassName := ''system-cluster-critical'',
             Volumes := [\<lparr>VolName = MountName socketDirMount, VolSource = EmptyDir\<rparr>]\<rparr>
      in object ControllerPluginName (driver_namespace di) labels ''Deployment'' appsv1
           (DeploymentBody \<lparr>Replicas = Some replicas, MatchLabels = Some labels, TemplateLabels = Some labels,
              TemplateSpec = spec\<rparr>))"

definition GetNodeDaemonSetConfiguration :: "'x env \<Rightarrow> DriverInstance \<Rightarrow> ('x world, client_Object) io" where
  "GetNodeDaemonSetConfiguration env di =
     (let labels = object_labels di ''node-plugin'';
          socketDirMount = mount_at ''socket-dir'' ''/csi'' in
      bnd (ConfiguredKubeletDir env) (\<lambda>dir1.
      let mountpointDirMount = mount_bidirectional ''mountpoint-dir'' (dir1 @ ''/pods'') in
      bnd (ConfiguredKubeletDir env) (\<lambda>dir2.
      let pluginsDirMount = mount_bidirectional ''plugins-dir'' (dir2 @ ''/plugins'');
          devDirMount = mount_at ''dev-dir'' ''/dev'';
          registrationDirMount = mount_at ''registration-dir'' ''/registration'' in
      bnd (ConfiguredKubeletDir env) (\<lambda>dir3.
      bnd (ConfiguredKubeletDir env) (\<lambda>dir4.
      bnd (ConfiguredKubeletDir env) (\<lambda>dir5.
      bnd (ConfiguredKubeletDir env) (\<lambda>dir6.
      bnd (ConfiguredKubeletDir env) (\<lambda>dir7.
      let spec = PodSpec_zero
            \<lparr>NodeSelector := SpecNodeSelector (DiSpec di),
             ServiceAccountName := the_ServiceAccountName,
             Containers :=
               [plugin_container di NodePluginName ''--nodeserver''
                  [socketDirMount, mountpointDirMount, pluginsDirMount, devDirMount],
                liveness_container socketDirMount,
                registrar_container di dir3 [socketDirMount, registrationDirMount]],
             PriorityClassName := ''system-node-critical'',
             Volumes :=
               [host_volume socketDirMount (dir4 @ ''/plugins/'' @ Name (DiMeta di)) ''DirectoryOrCreate'',
                host_volume pluginsDirMount (dir5 @ ''/plugins'') ''DirectoryOrCreate'',
                host_volume registrationDirMount (dir6 @ ''/plugins_registry'') ''Directory'',
                host_volume mountpointDirMount (dir7 @ ''/pods'') ''DirectoryOrCreate'',
                host_volume devDirMount ''/dev'' ''Directory'']\<rparr>
      in ret (object NodePluginName (driver_namespace di) labels ''DaemonSet'' appsv1
           (DaemonSetBody \<lparr>Replicas = None, MatchLabels = Some labels, TemplateLabels = Some labels, TemplateSpec = spec\<rparr>))))))))))"

section \<open>Labels and names\<close>

lemma map_of_fold_update:
  assumes "distinct (map fst us)"
  shows "map_of (fold (\<lambda>(k, v) m. AList.update k v m) us xs) k =
    (case map_of us k of Some v \<Rightarrow> Some v | None \<Rightarrow> map_of xs k)"
  using assms
proof (induction us arbitrary: xs)
  case (Cons u us)
  obtain a b where u: "u = (a, b)" by (cases u)
  from Cons.prems u have "a \<notin> fst ` set us" and us: "distinct (map fst us)" by simp_all
  then have a: "map_of us a = None" by (simp add: map_of_eq_None_iff)
  show ?case unfolding u using Cons.IH [OF us] a by (auto simp: update_conv' split: option.splits)
qed simp

text \<open>The labels of the resource as a Go map: every key once.\<close>

definition wf_labels :: "DriverInstance \<Rightarrow> bool" where
  "wf_labels di \<longleftrightarrow> distinct (map fst (mentries (SpecLabels (DiSpec di))))"

lemma object_labels_lookup:
  assumes "wf_labels di"
  shows "map_of (object_labels di component) k =
    (case mget (SpecLabels (DiSpec di)) k of
       Some v \<Rightarrow> Some v
     | None \<Rightarrow>
         if k = componentKey then Some component
         else if k = ''app.kubernetes.io/name'' then Some (Name (DiMeta di))
         else if k = partOfKey then Some ''opencas-csi-driver''
         else if k = ''app.kubernetes.io/managed-by'' then Some ''opencas-csi-operator''
         else None)"
  using assms unfolding object_labels_def wf_labels_def mget_def
  by (simp add: map_of_fold_update update_conv' GetDefaultLabels_def componentKey_def partOfKey_def split: option.split)

lemma object_simps [simp]:
  "Name (ObjMeta (object name ns labels kind version body)) = name"
  "Namespace (ObjMeta (object name ns labels kind version body)) = ns"
  "Labels (ObjMeta (object name ns labels kind version body)) = Some labels"
  "Finalizers (ObjMeta (object name ns labels kind version body)) = []"
  "ObjType (object name ns labels kind version body) = \<lparr>TypeKind = kind, APIVersion = version\<rparr>"
  "ObjBody (object name ns labels kind version body) = body"
  by (simp_all add: object_def)

text \<open>The identity of an object in the cluster: its type, its namespace and its name.\<close>

definition obj_key :: "client_Object \<Rightarrow> object_body \<times> string \<times> string" where
  "obj_key obj = (zero_body (ObjBody obj), Namespace (ObjMeta obj), Name (ObjMeta obj))"

lemma zero_body_idem [simp]: "zero_body (zero_body b) = zero_body b"
  by (cases b) (simp_all add: Workload_zero_def CSIDriverSpec_zero_def)

lemma config_map_run:
  "\<exists>obj w'. GetConfigMapConfiguration env di w = (Ret obj, w') \<and> outside w' = outside w \<and>
     Name (ObjMeta obj) = ConfigMapName \<and> Namespace (ObjMeta obj) = driver_namespace di \<and>
     ObjBody obj = ConfigMapBody (Some
          [(CasadmImageEnv, ConfCasadmImage (DriverConfig (DiSpec di))), (KubeletDirEnv, configured_kubelet_dir env w),
           (ProtectedNamespaceEnv, ConfProtectedNamespace (DriverConfig (DiSpec di))), (WebhookImageEnv, WebhookImage (DriverConfig (DiSpec di)))]) \<and>
     Labels (ObjMeta obj) = Some (object_labels di ''config-map'') \<and> Finalizers (ObjMeta obj) = []"
  by (simp add: GetConfigMapConfiguration_def Let_def bnd_Ret ConfiguredKubeletDir_run)

lemma daemon_set_run:
  "\<exists>obj w' body. GetNodeDaemonSetConfiguration env di w = (Ret obj, w') \<and> outside w' = outside w \<and>
     Name (ObjMeta obj) = NodePluginName \<and> Namespace (ObjMeta obj) = driver_namespace di \<and> ObjBody obj = DaemonSetBody body \<and>
     MatchLabels body = Some (object_labels di ''node-plugin'') \<and> TemplateLabels body = MatchLabels body \<and>
     Labels (ObjMeta obj) = Some (object_labels di ''node-plugin'') \<and> Finalizers (ObjMeta obj) = []"
  by (simp add: GetNodeDaemonSetConfiguration_def Let_def bnd_Ret ConfiguredKubeletDir_run)

section \<open>Properties of the objects\<close>

text \<open>Whether a label selector takes a pod with the given labels.\<close>

definition selects :: "string gomap \<Rightarrow> string gomap \<Rightarrow> bool" where
  "selects sel ls \<longleftrightarrow> (\<forall>k v. mget sel k = Some v \<longrightarrow> mget ls k = Some v)"

lemma selects_refl: "selects ls ls"
  by (simp add: selects_def)

text \<open>
  C36: The deployment and the daemon set of an instance each select the pods of their own template. They do
  not select the pods of each other as long as the resource does not set the label that names the
  component; if it does, the two selectors are the same and each workload takes the other's pods for its own.
\<close>

theorem plugin_selectors:
  assumes "wf_labels di" and "GetNodeDaemonSetConfiguration env di w = (Ret ds, w')"
    and "ObjBody ds = DaemonSetBody node" and "ObjBody (GetControllerDeploymentConfiguration di) = DeploymentBody ctrl"
  shows "selects (MatchLabels node) (TemplateLabels node) \<and> selects (MatchLabels ctrl) (TemplateLabels ctrl) \<and>
    (selects (MatchLabels ctrl) (TemplateLabels node) \<longleftrightarrow> mget (SpecLabels (DiSpec di)) componentKey \<noteq> None) \<and>
    (selects (MatchLabels node) (TemplateLabels ctrl) \<longleftrightarrow> mget (SpecLabels (DiSpec di)) componentKey \<noteq> None)"
proof -
  have node: "MatchLabels node = Some (object_labels di ''node-plugin'')" "TemplateLabels node = MatchLabels node"
    using daemon_set_run [of env di w] assms(2,3) by auto
  have ctrl: "MatchLabels ctrl = Some (object_labels di ''controller-plugin'')" "TemplateLabels ctrl = MatchLabels ctrl"
    using assms(4) by (auto simp: GetControllerDeploymentConfiguration_def Let_def)
  have differ: "selects (Some (object_labels di a)) (Some (object_labels di b)) \<longleftrightarrow> mget (SpecLabels (DiSpec di)) componentKey \<noteq> None"
    if "a \<noteq> b" for a b
  proof
    assume "selects (Some (object_labels di a)) (Some (object_labels di b))"
    then have "map_of (object_labels di a) componentKey = Some v \<Longrightarrow> map_of (object_labels di b) componentKey = Some v" for v
      by (simp add: selects_def)
    from this [of a] show "mget (SpecLabels (DiSpec di)) componentKey \<noteq> None"
      using that by (cases "mget (SpecLabels (DiSpec di)) componentKey") (simp_all add: object_labels_lookup [OF assms(1)])
  next
    assume "mget (SpecLabels (DiSpec di)) componentKey \<noteq> None"
    then have "map_of (object_labels di a) k = map_of (object_labels di b) k" for k
      by (auto simp: object_labels_lookup [OF assms(1)] split: option.split)
    then show "selects (Some (object_labels di a)) (Some (object_labels di b))" by (simp add: selects_def)
  qed
  show ?thesis unfolding node ctrl using differ [of "''controller-plugin''" "''node-plugin''"] differ [of "''node-plugin''" "''controller-plugin''"]
    by (simp add: selects_refl)
qed

definition demo_instance :: DriverInstance where
  "demo_instance = \<lparr>DiMeta = ObjectMeta_zero\<lparr>Name := ''csi.open-cas.com''\<rparr>,
     DiSpec = \<lparr>LogLevel = 3, SpecNodeSelector = Some [(''opencas'', ''true'')], SpecLabels = Some [(''team'', ''storage'')], BuildArgs = None,
       DriverConfig = \<lparr>DriverImage = ''registry/driver'', ConfCasadmImage = ''registry/casadm'', WebhookImage = ''registry/webhook'',
         DriverNamespace = ''opencas'', ConfProtectedNamespace = [], ControllerReplicas = 0\<rparr>\<rparr>\<rparr>"

definition relabelled_instance :: DriverInstance where
  "relabelled_instance = demo_instance\<lparr>DiSpec := (DiSpec demo_instance)\<lparr>SpecLabels := Some [(componentKey, ''cas'')]\<rparr>\<rparr>"

theorem plugin_selectors_witness:
  "\<exists>env w ds w' node ctrl. GetNodeDaemonSetConfiguration (env :: unit env) relabelled_instance w = (Ret ds, w') \<and>
     ObjBody ds = DaemonSetBody node \<and> ObjBody (GetControllerDeploymentConfiguration relabelled_instance) = DeploymentBody ctrl \<and>
     selects (MatchLabels ctrl) (TemplateLabels node)"
proof -
  fix env :: "unit env" and w
  have wf: "wf_labels relabelled_instance" by (simp add: wf_labels_def relabelled_instance_def)
  have "mget (SpecLabels (DiSpec relabelled_instance)) componentKey \<noteq> None" by (simp add: relabelled_instance_def)
  moreover obtain ds w' node where ds: "GetNodeDaemonSetConfiguration env relabelled_instance w = (Ret ds, w')" "ObjBody ds = DaemonSetBody node"
    using daemon_set_run [of env relabelled_instance w] by blast
  moreover obtain ctrl where ctrl: "ObjBody (GetControllerDeploymentConfiguration relabelled_instance) = DeploymentBody ctrl"
    by (simp add: GetControllerDeploymentConfiguration_def Let_def)
  ultimately show ?thesis using plugin_selectors [OF wf ds ctrl] by blast
qed

text \<open>
  C37: The driver runs with the configuration of its resource. In a process whose environment is filled
  from the config map the operator writes, the driver uses the protected namespace of the resource,
  or the default one where the resource names none, the kubelet directory the operator is configured with, and
  the images of the resource.
\<close>

theorem config_map_configures:
  assumes "GetConfigMapConfiguration env di w = (Ret obj, w1)" and "ObjBody obj = ConfigMapBody data"
    and "Getenv denv = (\<lambda>k. mgets data k)" and "kubeletDir v = []" "protectedNamespace v = []"
  shows "fst (ConfiguredProtectedNamespace denv v) =
      Ret (if ConfProtectedNamespace (DriverConfig (DiSpec di)) = [] then defaultProtectedNamespace
           else ConfProtectedNamespace (DriverConfig (DiSpec di))) \<and>
    fst (ConfiguredKubeletDir denv v) = fst (ConfiguredKubeletDir env w) \<and>
    Getenv denv CasadmImageEnv = ConfCasadmImage (DriverConfig (DiSpec di)) \<and>
    Getenv denv WebhookImageEnv = WebhookImage (DriverConfig (DiSpec di))"
proof -
  let ?conf = "DriverConfig (DiSpec di)"
  have data: "data = Some [(CasadmImageEnv, ConfCasadmImage ?conf), (KubeletDirEnv, configured_kubelet_dir env w),
      (ProtectedNamespaceEnv, ConfProtectedNamespace ?conf), (WebhookImageEnv, WebhookImage ?conf)]"
    using config_map_run [of env di w] assms(1,2) by auto
  have keys: "distinct [CasadmImageEnv, KubeletDirEnv, ProtectedNamespaceEnv, WebhookImageEnv]" by code_simp
  have "Getenv denv CasadmImageEnv = ConfCasadmImage ?conf" "Getenv denv KubeletDirEnv = configured_kubelet_dir env w"
    "Getenv denv ProtectedNamespaceEnv = ConfProtectedNamespace ?conf" "Getenv denv WebhookImageEnv = WebhookImage ?conf"
    using keys unfolding assms(3) data by (auto simp: mgets_def)
  moreover have "configured_kubelet_dir env w \<noteq> []"
    by (simp add: configured_kubelet_dir_def defaultKubeletDir_def)
  ultimately show ?thesis
    using assms(4,5)
    by (simp add: ConfiguredProtectedNamespace_run ConfiguredKubeletDir_run configured_namespace_def configured_kubelet_dir_def)
qed

theorem config_map_configures_witness:
  "\<exists>(denv :: unit env) v. fst (ConfiguredProtectedNamespace denv v) = Ret defaultProtectedNamespace \<and>
     Getenv denv CasadmImageEnv = ''registry/casadm''"
proof -
  fix env :: "unit env" and w :: "unit world"
  obtain obj w1 data where obj: "GetConfigMapConfiguration env demo_instance w = (Ret obj, w1)" "ObjBody obj = ConfigMapBody data"
    using config_map_run [of env demo_instance w] by blast
  let ?env = "env\<lparr>Getenv := \<lambda>k. mgets data k\<rparr>" and ?v = "w\<lparr>kubeletDir := [], protectedNamespace := []\<rparr>"
  have "Getenv ?env = (\<lambda>k. mgets data k)" "kubeletDir ?v = []" "protectedNamespace ?v = []" by simp_all
  from config_map_configures [OF obj this] show ?thesis by (auto simp: demo_instance_def)
qed

end
