(* ===== verification/Driver_Reconciler.thy ===== *)
theory Driver_Reconciler
  imports Driver_Helpers
begin

text \<open>
  \<^verbatim>\<open>pkg/csi-operator/internal/controller/driverinstance_controller.go\<close>: the reconciler that deploys the
  driver. It creates or updates the objects of a \<^verbatim>\<open>DriverInstance\<close> one after the other, and when the
  resource is being deleted releases them in the opposite order.

  controller-runtime's client and \<^verbatim>\<open>SetControllerReference\<close> are parameters, the record
  \<open>driver_client\<close>. The mutex of the reconciler makes a reconciliation one step.
\<close>

section \<open>The client\<close>

record 'x driver_client =
  DI_Get :: "key \<Rightarrow> 'x \<Rightarrow> (DriverInstance \<times> error option) \<times> 'x"
  DI_Patch :: "DriverInstance \<Rightarrow> DriverInstance \<Rightarrow> 'x \<Rightarrow> (DriverInstance \<times> error option) \<times> 'x"
  Obj_Get :: "client_Object \<Rightarrow> key \<Rightarrow> 'x \<Rightarrow> (client_Object \<times> error option) \<times> 'x"
  Obj_Create :: "client_Object \<Rightarrow> 'x \<Rightarrow> error option \<times> 'x"
  Obj_Update :: "client_Object \<Rightarrow> 'x \<Rightarrow> error option \<times> 'x"
  Obj_Patch :: "client_Object \<Rightarrow> client_Object \<Rightarrow> 'x \<Rightarrow> error option \<times> 'x"
  SetControllerReference :: "DriverInstance \<Rightarrow> client_Object \<Rightarrow> client_Object \<times> error option"
  DriverFinalizers :: finalizer_ops

definition Driver_AddFinalizer ::
  "'x driver_client \<Rightarrow> DriverInstance \<Rightarrow> ('x world, DriverInstance \<times> error option) io" where
  "Driver_AddFinalizer cl di =
     (case AddFinalizerTo (DriverFinalizers cl) (Finalizers (DiMeta di)) Finalizer of (changed, fs) \<Rightarrow>
      let di' = di\<lparr>DiMeta := (DiMeta di)\<lparr>Finalizers := fs\<rparr>\<rparr> in
      if changed then call (DI_Patch cl di' di) else ret (di', None))"

definition Driver_RemoveFinalizer ::
  "'x driver_client \<Rightarrow> DriverInstance \<Rightarrow> ('x world, DriverInstance \<times> error option) io" where
  "Driver_RemoveFinalizer cl di =
     (case RemoveFinalizerFrom (DriverFinalizers cl) (Finalizers (DiMeta di)) Finalizer of (changed, fs) \<Rightarrow>
      let di' = di\<lparr>DiMeta := (DiMeta di)\<lparr>Finalizers := fs\<rparr>\<rparr> in
      if changed then call (DI_Patch cl di' di) else ret (di', None))"

section \<open>One object\<close>

text \<open>\<^verbatim>\<open>case *appsv1.DaemonSet, *appsv1.Deployment\<close>\<close>

fun is_workload :: "object_body \<Rightarrow> bool" where
  "is_workload (DeploymentBody spec) = True"
| "is_workload (DaemonSetBody spec) = True"
| "is_workload body = False"

definition set_finalizers :: "client_Object \<Rightarrow> string list \<Rightarrow> client_Object" where
  "set_finalizers obj fs = obj\<lparr>ObjMeta := (ObjMeta obj)\<lparr>Finalizers := fs\<rparr>\<rparr>"

text \<open>Creating, releasing or patching the object, depending on what is stored, and the whole handler.\<close>

definition handleObject_apply ::
  "'x driver_client \<Rightarrow> DriverInstance \<Rightarrow> client_Object \<Rightarrow> client_Object \<times> error option \<Rightarrow> ('x world, error option) io" where
  "handleObject_apply cl di obj = (\<lambda>(getObj, err).
     let isDeleted = (\<not> not_deleted (DiMeta di)) in
     case err of
       Some e \<Rightarrow>
         if IsNotFound e then
           if isDeleted then ret None else call (Obj_Create cl obj)
         else ret err
     | None \<Rightarrow>
         if isDeleted then
           if is_workload (ObjBody obj) then ret None
           else
             (case RemoveFinalizerFrom (DriverFinalizers cl) (Finalizers (ObjMeta getObj)) Finalizer of (changed, fs) \<Rightarrow>
              if changed then call (Obj_Update cl (set_finalizers getObj fs)) else ret None)
         else
           call (Obj_Patch cl (obj\<lparr>ObjMeta := (ObjMeta obj)\<lparr>ResourceVersion := ResourceVersion (ObjMeta getObj)\<rparr>\<rparr>) getObj))"

definition handleObject ::
  "'x driver_client \<Rightarrow> DriverInstance \<Rightarrow> client_Object \<Rightarrow> ('x world, error option) io" where
  "handleObject cl di obj =
     (let (obj, err) = SetControllerReference cl di obj in
      if err \<noteq> None then ret err
      else
        (let obj = (if is_workload (ObjBody obj) then obj
                    else set_finalizers obj (snd (AddFinalizerTo (DriverFinalizers cl) (Finalizers (ObjMeta obj)) Finalizer))) in
         bnd (call (Obj_Get cl (GetNewObject obj) (Namespace (ObjMeta obj), Name (ObjMeta obj))))
           (handleObject_apply cl di obj)))"

section \<open>All objects\<close>

definition getObjectsList :: "'x env \<Rightarrow> DriverInstance \<Rightarrow> ('x world, client_Object list) io" where
  "getObjectsList env di =
     (let objects = [GetNamespaceConfiguration di, GetServiceAccountConfiguration di]
            @ GetRolesConfiguration di @ GetRoleBindingsConfiguration di
            @ GetClusterRolesConfiguration di @ GetClusterRoleBindingsConfiguration di
            @ [GetCSIDriverConfiguration di] in
      bnd (GetConfigMapConfiguration env di) (\<lambda>configMap.
      let objects = objects @ [configMap, GetControllerDeploymentConfiguration di] in
      bnd (GetNodeDaemonSetConfiguration env di) (\<lambda>daemonSet.
      ret (objects @ [daemonSet]))))"

text \<open>The objects in order, up to the first that fails.\<close>

fun Reconcile_objects ::
  "'x driver_client \<Rightarrow> DriverInstance \<Rightarrow> client_Object list \<Rightarrow> ('x world, error option) io" where
  "Reconcile_objects cl di [] = ret None"
| "Reconcile_objects cl di (obj # rest) =
     bnd (handleObject cl di obj) (\<lambda>err.
     if err \<noteq> None then ret err else Reconcile_objects cl di rest)"

text \<open>The reconciliation after the resource was read, with the flag set then.\<close>

definition Driver_Reconcile_instance ::
  "'x env \<Rightarrow> 'x driver_client \<Rightarrow> bool \<Rightarrow> DriverInstance \<Rightarrow> ('x world, ctrl_Result \<times> error option) io" where
  "Driver_Reconcile_instance env cl isDeleted di =
     bnd (getObjectsList env di) (\<lambda>objects.
     bnd (Reconcile_objects cl di (if isDeleted then rev objects else objects)) (\<lambda>err.
     if err \<noteq> None then ret (\<lparr>Requeue = True, RequeueAfter = 0\<rparr>, err)
     else if isDeleted then
       bnd (Driver_RemoveFinalizer cl di) (\<lambda>(_, err).
       if err \<noteq> None then ret (\<lparr>Requeue = False, RequeueAfter = DefaultRequequeAfter\<rparr>, err)
       else ret (Result_zero, None))
     else ret (Result_zero, None)))"

definition Driver_Reconcile ::
  "'x env \<Rightarrow> 'x driver_client \<Rightarrow> key \<Rightarrow> ('x world, ctrl_Result \<times> error option) io" where
  "Driver_Reconcile env cl req =
     bnd (call (DI_Get cl req)) (\<lambda>(di, err).
     if err \<noteq> None then ret (Result_zero, if err_that IsNotFound err then None else err)
     else
       (let isDeleted = (\<not> not_deleted (DiMeta di)) in
        bnd (if \<not> isDeleted then bnd (Driver_AddFinalizer cl di) (\<lambda>(di, err). ret di) else ret di)
          (Driver_Reconcile_instance env cl isDeleted)))"

text \<open>
  The creation events that lead to a reconciliation: those of the resource itself, not of the objects it owns.
\<close>

definition CreateFunc :: "DriverInstance + client_Object \<Rightarrow> bool" where
  "CreateFunc ob = (case ob of Inl di \<Rightarrow> True | Inr obj \<Rightarrow> False)"

section \<open>The list of objects\<close>

lemma getObjectsList_run:
  "\<exists>cm ds wl w'. getObjectsList env di w = (Ret ([GetNamespaceConfiguration di, GetServiceAccountConfiguration di]
       @ GetRolesConfiguration di @ GetRoleBindingsConfiguration di @ GetClusterRolesConfiguration di
       @ GetClusterRoleBindingsConfiguration di
       @ [GetCSIDriverConfiguration di, cm, GetControllerDeploymentConfiguration di, ds]), w') \<and>
     outside w' = outside w \<and>
     ObjBody ds = DaemonSetBody wl \<and> Name (ObjMeta ds) = NodePluginName \<and> Namespace (ObjMeta ds) = driver_namespace di \<and>
     Labels (ObjMeta ds) = Some (object_labels di ''node-plugin'') \<and>
     (\<exists>data. ObjBody cm = ConfigMapBody data) \<and> Name (ObjMeta cm) = ConfigMapName \<and>
     Namespace (ObjMeta cm) = driver_namespace di \<and> Labels (ObjMeta cm) = Some (object_labels di ''config-map'')"
proof -
  obtain cm w1 where cm: "GetConfigMapConfiguration env di w = (Ret cm, w1)" "outside w1 = outside w"
    "Name (ObjMeta cm) = ConfigMapName" "Namespace (ObjMeta cm) = driver_namespace di" "\<exists>data. ObjBody cm = ConfigMapBody data"
    "Labels (ObjMeta cm) = Some (object_labels di ''config-map'')"
    using config_map_run [of env di w] by blast
  obtain ds w2 wl where ds: "GetNodeDaemonSetConfiguration env di w1 = (Ret ds, w2)" "outside w2 = outside w1"
    "Name (ObjMeta ds) = NodePluginName" "Namespace (ObjMeta ds) = driver_namespace di" "ObjBody ds = DaemonSetBody wl"
    "Labels (ObjMeta ds) = Some (object_labels di ''node-plugin'')"
    using daemon_set_run [of env di w1] by blast
  have "getObjectsList env di w = (Ret ([GetNamespaceConfiguration di, GetServiceAccountConfiguration di]
       @ GetRolesConfiguration di @ GetRoleBindingsConfiguration di @ GetClusterRolesConfiguration di
       @ GetClusterRoleBindingsConfiguration di
       @ [GetCSIDriverConfiguration di, cm, GetControllerDeploymentConfiguration di, ds]), w2)"
    using cm(1) ds(1) by (simp add: getObjectsList_def Let_def bnd_Ret)
  then show ?thesis using cm(2-6) ds(2-6) by auto
qed

lemma getObjectsList_keys:
  assumes "returns (getObjectsList env di) w objects w'"
  shows "distinct (map obj_key objects)" and "hd objects = GetNamespaceConfiguration di" and "objects \<noteq> []"
    and "outside w' = outside w" and "length objects = 12"
proof -
  from getObjectsList_run [of env di w] obtain cm ds wl data where
    objects: "objects = [GetNamespaceConfiguration di, GetServiceAccountConfiguration di]
       @ GetRolesConfiguration di @ GetRoleBindingsConfiguration di @ GetClusterRolesConfiguration di
       @ GetClusterRoleBindingsConfiguration di
       @ [GetCSIDriverConfiguration di, cm, GetControllerDeploymentConfiguration di, ds]"
    and out: "outside w' = outside w" and ds: "ObjBody ds = DaemonSetBody wl" and cm: "ObjBody cm = ConfigMapBody data"
    using assms by (auto simp: returns_def)
  show "distinct (map obj_key objects)"
    using ds cm unfolding objects
    by (simp add: obj_key_def GetNamespaceConfiguration_def GetServiceAccountConfiguration_def GetRolesConfiguration_def
        GetRoleBindingsConfiguration_def GetClusterRolesConfiguration_def GetClusterRoleBindingsConfiguration_def
        GetCSIDriverConfiguration_def GetControllerDeploymentConfiguration_def Let_def)
  show "hd objects = GetNamespaceConfiguration di" "objects \<noteq> []" "outside w' = outside w" "length objects = 12"
    using out unfolding objects
    by (simp_all add: GetRolesConfiguration_def GetRoleBindingsConfiguration_def GetClusterRolesConfiguration_def
        GetClusterRoleBindingsConfiguration_def Let_def)
qed

section \<open>The store of objects\<close>

text \<open>
  What the reconciler relies on: the client reads what is stored, and a successful write is
  stored under the identity of the object and touches no other. The API server may fill in
  defaults, so a stored body \<open>agrees\<close> with the one sent; labels and finalizers are stored as sent. An
  update of an object without finalizers that is being deleted may remove it.
  \<^verbatim>\<open>SetControllerReference\<close> changes the owner references only.
\<close>

definition stored_as :: "(object_body \<Rightarrow> object_body \<Rightarrow> bool) \<Rightarrow> client_Object \<Rightarrow> client_Object \<Rightarrow> bool" where
  "stored_as agrees obj s \<longleftrightarrow> agrees (ObjBody obj) (ObjBody s) \<and> Labels (ObjMeta s) = Labels (ObjMeta obj) \<and>
     Finalizers (ObjMeta s) = Finalizers (ObjMeta obj)"

definition object_laws ::
  "'x driver_client \<Rightarrow> (object_body \<Rightarrow> object_body \<Rightarrow> bool) \<Rightarrow>
     ('x \<Rightarrow> object_body \<times> string \<times> string \<Rightarrow> client_Object option) \<Rightarrow> bool" where
  "object_laws cl agrees objs \<longleftrightarrow>
     (\<forall>z ns n x g err x'. Obj_Get cl z (ns, n) x = ((g, err), x') \<longrightarrow> objs x' = objs x \<and>
        (err = None \<longrightarrow> obj_key g = (ObjBody z, ns, n) \<and> objs x (obj_key g) = Some g) \<and>
        (err_that IsNotFound err \<longrightarrow> objs x (ObjBody z, ns, n) = None)) \<and>
     (\<forall>obj x err x'. Obj_Create cl obj x = (err, x') \<longrightarrow> (\<forall>k. k \<noteq> obj_key obj \<longrightarrow> objs x' k = objs x k) \<and>
        (err = None \<longrightarrow> (\<exists>s. objs x' (obj_key obj) = Some s \<and> stored_as agrees obj s))) \<and>
     (\<forall>obj base x err x'. Obj_Patch cl obj base x = (err, x') \<longrightarrow> (\<forall>k. k \<noteq> obj_key obj \<longrightarrow> objs x' k = objs x k) \<and>
        (err = None \<longrightarrow> (\<exists>s. objs x' (obj_key obj) = Some s \<and> stored_as agrees obj s))) \<and>
     (\<forall>obj x err x'. Obj_Update cl obj x = (err, x') \<longrightarrow> (\<forall>k. k \<noteq> obj_key obj \<longrightarrow> objs x' k = objs x k) \<and>
        (err = None \<longrightarrow> (case objs x' (obj_key obj) of None \<Rightarrow> True | Some s \<Rightarrow> Finalizers (ObjMeta s) = Finalizers (ObjMeta obj)))) \<and>
     (\<forall>di obj obj' err. SetControllerReference cl di obj = (obj', err) \<longrightarrow>
        (\<exists>refs. obj' = obj\<lparr>ObjMeta := (ObjMeta obj)\<lparr>OwnerReferences := refs\<rparr>\<rparr>))"

lemma object_lawsD:
  assumes "object_laws cl agrees objs"
  shows "Obj_Get cl z (ns, n) x = ((g, err), x') \<Longrightarrow> objs x' = objs x \<and>
        (err = None \<longrightarrow> obj_key g = (ObjBody z, ns, n) \<and> objs x (obj_key g) = Some g) \<and>
        (err_that IsNotFound err \<longrightarrow> objs x (ObjBody z, ns, n) = None)"
    and "Obj_Create cl obj x = (err, x') \<Longrightarrow> (\<forall>k. k \<noteq> obj_key obj \<longrightarrow> objs x' k = objs x k) \<and>
        (err = None \<longrightarrow> (\<exists>s. objs x' (obj_key obj) = Some s \<and> stored_as agrees obj s))"
    and "Obj_Patch cl obj base x = (err, x') \<Longrightarrow> (\<forall>k. k \<noteq> obj_key obj \<longrightarrow> objs x' k = objs x k) \<and>
        (err = None \<longrightarrow> (\<exists>s. objs x' (obj_key obj) = Some s \<and> stored_as agrees obj s))"
    and "Obj_Update cl obj x = (err, x') \<Longrightarrow> (\<forall>k. k \<noteq> obj_key obj \<longrightarrow> objs x' k = objs x k) \<and>
        (err = None \<longrightarrow> (case objs x' (obj_key obj) of None \<Rightarrow> True | Some s \<Rightarrow> Finalizers (ObjMeta s) = Finalizers (ObjMeta obj)))"
    and "SetControllerReference cl di obj = (obj', err) \<Longrightarrow>
        \<exists>refs. obj' = obj\<lparr>ObjMeta := (ObjMeta obj)\<lparr>OwnerReferences := refs\<rparr>\<rparr>"
proof -
  note laws = assms [unfolded object_laws_def]
  note l1 = laws [THEN conjunct1] and l2 = laws [THEN conjunct2, THEN conjunct1]
    and l3 = laws [THEN conjunct2, THEN conjunct2, THEN conjunct1]
    and l4 = laws [THEN conjunct2, THEN conjunct2, THEN conjunct2, THEN conjunct1]
    and l5 = laws [THEN conjunct2, THEN conjunct2, THEN conjunct2, THEN conjunct2]
  show "Obj_Get cl z (ns, n) x = ((g, err), x') \<Longrightarrow> objs x' = objs x \<and>
        (err = None \<longrightarrow> obj_key g = (ObjBody z, ns, n) \<and> objs x (obj_key g) = Some g) \<and>
        (err_that IsNotFound err \<longrightarrow> objs x (ObjBody z, ns, n) = None)"
    by (rule mp [OF l1 [THEN spec, THEN spec, THEN spec, THEN spec, THEN spec, THEN spec, THEN spec]])
  show "Obj_Create cl obj x = (err, x') \<Longrightarrow> (\<forall>k. k \<noteq> obj_key obj \<longrightarrow> objs x' k = objs x k) \<and>
        (err = None \<longrightarrow> (\<exists>s. objs x' (obj_key obj) = Some s \<and> stored_as agrees obj s))"
    by (rule mp [OF l2 [THEN spec, THEN spec, THEN spec, THEN spec]])
  show "Obj_Patch cl obj base x = (err, x') \<Longrightarrow> (\<forall>k. k \<noteq> obj_key obj \<longrightarrow> objs x' k = objs x k) \<and>
        (err = None \<longrightarrow> (\<exists>s. objs x' (obj_key obj) = Some s \<and> stored_as agrees obj s))"
    by (rule mp [OF l3 [THEN spec, THEN spec, THEN spec, THEN spec, THEN spec]])
  show "Obj_Update cl obj x = (err, x') \<Longrightarrow> (\<forall>k. k \<noteq> obj_key obj \<longrightarrow> objs x' k = objs x k) \<and>
        (err = None \<longrightarrow> (case objs x' (obj_key obj) of None \<Rightarrow> True | Some s \<Rightarrow> Finalizers (ObjMeta s) = Finalizers (ObjMeta obj)))"
    by (rule mp [OF l4 [THEN spec, THEN spec, THEN spec, THEN spec]])
  show "SetControllerReference cl di obj = (obj', err) \<Longrightarrow>
        \<exists>refs. obj' = obj\<lparr>ObjMeta := (ObjMeta obj)\<lparr>OwnerReferences := refs\<rparr>\<rparr>"
    by (rule mp [OF l5 [THEN spec, THEN spec, THEN spec, THEN spec]])
qed

section \<open>Sweeping over the objects\<close>

text \<open>
  A handler of single objects, each of which settles the object it is given and touches no other,
  lifted to a list: a sweep that succeeds has settled every object, and one that fails
  has settled the objects before the one that failed and not touched those after it.
\<close>

locale object_sweep =
  fixes lawful :: bool
    and handle :: "'o \<Rightarrow> ('w, error option) io"
    and key_of :: "'o \<Rightarrow> 'k"
    and held :: "'w \<Rightarrow> 'k \<Rightarrow> 's"
    and settled :: "'o \<Rightarrow> 's \<Rightarrow> bool"
  assumes handle_frame: "lawful \<Longrightarrow> returns (handle ob) w err w' \<Longrightarrow> k \<noteq> key_of ob \<Longrightarrow> held w' k = held w k"
    and handle_settles: "lawful \<Longrightarrow> returns (handle ob) w None w' \<Longrightarrow> settled ob (held w' (key_of ob))"
begin

primrec sweep :: "'o list \<Rightarrow> ('w, error option) io" where
  "sweep [] = ret None"
| "sweep (ob # obs) = bnd (handle ob) (\<lambda>err. if err \<noteq> None then ret err else sweep obs)"

lemma sweep_Cons:
  assumes "returns (sweep (ob # obs)) w err w'"
  obtains (fails) e where "err = Some e" "returns (handle ob) w (Some e) w'"
  | (goes) w1 where "returns (handle ob) w None w1" "returns (sweep obs) w1 err w'"
  using assms by (auto simp: returns_simps)

lemma sweep_frame:
  assumes "lawful" "returns (sweep obs) w err w'" "k \<notin> key_of ` set obs"
  shows "held w' k = held w k"
  using assms(2,3)
proof (induction obs arbitrary: w)
  case Nil
  then show ?case by (simp add: returns_def)
next
  case (Cons ob obs)
  have k: "k \<noteq> key_of ob" "k \<notin> key_of ` set obs" using Cons.prems(2) by auto
  from Cons.prems(1) show ?case
  proof (cases rule: sweep_Cons)
    case (fails e)
    then show ?thesis using handle_frame [OF assms(1) _ k(1)] by blast
  next
    case (goes w1)
    then show ?thesis using handle_frame [OF assms(1) goes(1) k(1)] Cons.IH [OF goes(2) k(2)] by simp
  qed
qed

lemma sweep_settles:
  assumes "lawful" "returns (sweep obs) w None w'" "distinct (map key_of obs)"
  shows "\<forall>ob \<in> set obs. settled ob (held w' (key_of ob))"
  using assms(2,3)
proof (induction obs arbitrary: w)
  case (Cons ob obs)
  from Cons.prems(1) obtain w1 where run: "returns (handle ob) w None w1" "returns (sweep obs) w1 None w'"
    by (cases rule: sweep_Cons) auto
  have "settled ob (held w1 (key_of ob))" using handle_settles [OF assms(1) run(1)] .
  moreover have "held w' (key_of ob) = held w1 (key_of ob)"
    using sweep_frame [OF assms(1) run(2)] Cons.prems(2) by simp
  ultimately show ?case using Cons.IH [OF run(2)] Cons.prems(2) by simp
qed simp

lemma sweep_stops:
  assumes "lawful" "returns (sweep obs) w (Some e) w'"
  shows "\<exists>pre ob post w1. obs = pre @ ob # post \<and> returns (sweep pre) w None w1 \<and> returns (handle ob) w1 (Some e) w'"
  using assms(2)
proof (induction obs arbitrary: w)
  case Nil
  then show ?case by (simp add: returns_def)
next
  case (Cons ob obs)
  from Cons.prems show ?case
  proof (cases rule: sweep_Cons)
    case (fails e')
    then show ?thesis by (intro exI [of _ "[]"] exI [of _ ob] exI [of _ obs] exI [of _ w]) (simp add: returns_def)
  next
    case (goes w1)
    from Cons.IH [OF goes(2)] obtain pre ob' post w2 where "obs = pre @ ob' # post" "returns (sweep pre) w1 None w2"
      "returns (handle ob') w2 (Some e) w'" by blast
    then show ?thesis using goes(1)
      by (intro exI [of _ "ob # pre"] exI [of _ ob'] exI [of _ post] exI [of _ w2]) (auto simp: returns_bnd)
  qed
qed

lemma sweep_failure:
  assumes "lawful" "returns (sweep obs) w (Some e) w'" "distinct (map key_of obs)"
  shows "\<exists>pre ob post w1. obs = pre @ ob # post \<and> returns (sweep pre) w None w1 \<and> returns (handle ob) w1 (Some e) w' \<and>
    (\<forall>p \<in> set pre. settled p (held w' (key_of p))) \<and> (\<forall>p \<in> set post. held w' (key_of p) = held w (key_of p))"
proof -
  obtain pre ob post w1 where split: "obs = pre @ ob # post" "returns (sweep pre) w None w1" "returns (handle ob) w1 (Some e) w'"
    using sweep_stops [OF assms(1,2)] by blast
  have pre: "settled p (held w' (key_of p))" if "p \<in> set pre" for p
  proof -
    have "distinct (map key_of pre)" "key_of p \<noteq> key_of ob"
      using assms(3) that unfolding split(1) by (auto, metis imageI)
    then show ?thesis
      using sweep_settles [OF assms(1) split(2)] handle_frame [OF assms(1) split(3)] that by metis
  qed
  have "held w' (key_of p) = held w (key_of p)" if "p \<in> set post" for p
  proof -
    have "key_of p \<notin> key_of ` set pre" "key_of p \<noteq> key_of ob" using assms(3) that unfolding split(1) by (auto, metis imageI)
    then show ?thesis using sweep_frame [OF assms(1) split(2)] handle_frame [OF assms(1) split(3)] by metis
  qed
  then show ?thesis using split pre by blast
qed

end

section \<open>One object\<close>

text \<open>The object as it is sent: with its owner, and with the finalizer unless it is a workload.\<close>

lemma handleObject_cases:
  assumes laws: "object_laws cl agrees objs" "finalizer_laws (DriverFinalizers cl)"
    and run: "returns (handleObject cl di obj) w err w'"
  obtains (owner) "w' = w" "err \<noteq> None"
  | (read) sent g gerr x where "ObjBody sent = ObjBody obj" "Labels (ObjMeta sent) = Labels (ObjMeta obj)"
      "Name (ObjMeta sent) = Name (ObjMeta obj)" "Namespace (ObjMeta sent) = Namespace (ObjMeta obj)"
      "\<not> is_workload (ObjBody obj) \<Longrightarrow> Finalizer \<in> set (Finalizers (ObjMeta sent))"
      "Obj_Get cl (GetNewObject sent) (Namespace (ObjMeta obj), Name (ObjMeta obj)) (outside w) = ((g, gerr), x)"
      "returns (handleObject_apply cl di sent (g, gerr)) (w\<lparr>outside := x\<rparr>) err w'"
proof -
  obtain obj1 e1 where set: "SetControllerReference cl di obj = (obj1, e1)" by fastforce
  then obtain refs where obj1: "obj1 = obj\<lparr>ObjMeta := (ObjMeta obj)\<lparr>OwnerReferences := refs\<rparr>\<rparr>"
    using object_lawsD(5) [OF laws(1)] by blast
  define sent where "sent = (if is_workload (ObjBody obj1) then obj1
    else set_finalizers obj1 (snd (AddFinalizerTo (DriverFinalizers cl) (Finalizers (ObjMeta obj1)) Finalizer)))"
  have sent: "ObjBody sent = ObjBody obj" "Labels (ObjMeta sent) = Labels (ObjMeta obj)"
      "Name (ObjMeta sent) = Name (ObjMeta obj)" "Namespace (ObjMeta sent) = Namespace (ObjMeta obj)"
      "\<not> is_workload (ObjBody obj) \<Longrightarrow> Finalizer \<in> set (Finalizers (ObjMeta sent))"
    using laws(2) by (auto simp: sent_def obj1 set_finalizers_def finalizer_laws_def)
  show thesis
  proof (cases "e1 = None")
    case False
    then show thesis using run owner by (simp add: handleObject_def set)
  next
    case True
    obtain g gerr x where get: "Obj_Get cl (GetNewObject sent) (Namespace (ObjMeta obj), Name (ObjMeta obj)) (outside w) = ((g, gerr), x)"
      by (metis surj_pair)
    have "handleObject cl di obj = bnd (call (Obj_Get cl (GetNewObject sent) (Namespace (ObjMeta sent), Name (ObjMeta sent))))
        (handleObject_apply cl di sent)"
      using True by (simp add: handleObject_def set Let_def sent_def)
    then show thesis
      using read [OF sent get] run get sent(3,4) by (simp add: returns_def bnd_call)
  qed
qed

lemma GetNewObject_body [simp]: "ObjBody (GetNewObject obj) = zero_body (ObjBody obj)"
  by (simp add: GetNewObject_def)

text \<open>Settled on a live resource: stored with the body, the labels and the finalizer. Settled on one that is being
  deleted: without the finalizer, or gone.\<close>

definition deployed :: "(object_body \<Rightarrow> object_body \<Rightarrow> bool) \<Rightarrow> client_Object \<Rightarrow> client_Object option \<Rightarrow> bool" where
  "deployed agrees obj held \<longleftrightarrow> (\<exists>s. held = Some s \<and> agrees (ObjBody obj) (ObjBody s) \<and> Labels (ObjMeta s) = Labels (ObjMeta obj) \<and>
     (\<not> is_workload (ObjBody obj) \<longrightarrow> Finalizer \<in> set (Finalizers (ObjMeta s))))"

definition released :: "client_Object \<Rightarrow> client_Object option \<Rightarrow> bool" where
  "released obj held \<longleftrightarrow> is_workload (ObjBody obj) \<or>
     (case held of None \<Rightarrow> True | Some s \<Rightarrow> Finalizer \<notin> set (Finalizers (ObjMeta s)))"

lemma handleObject_live:
  assumes laws: "object_laws cl agrees objs" "finalizer_laws (DriverFinalizers cl)" and live: "not_deleted (DiMeta di)"
    and run: "returns (handleObject cl di obj) w err w'"
  shows "(k \<noteq> obj_key obj \<longrightarrow> objs (outside w') k = objs (outside w) k) \<and>
    (err = None \<longrightarrow> deployed agrees obj (objs (outside w') (obj_key obj)))"
  using laws run
proof (cases rule: handleObject_cases)
  case (read sent g gerr x)
  note get = object_lawsD(1) [OF laws(1) read(6)]
  have key: "obj_key sent = obj_key obj" using read(1,3,4) by (simp add: obj_key_def)
  let ?patched = "sent\<lparr>ObjMeta := (ObjMeta sent)\<lparr>ResourceVersion := ResourceVersion (ObjMeta g)\<rparr>\<rparr>"
  have patched: "obj_key ?patched = obj_key obj" using key by (simp add: obj_key_def)
  have wrote: ?thesis if "(\<forall>k. k \<noteq> obj_key obj \<longrightarrow> objs x' k = objs x k) \<and>
      (err = None \<longrightarrow> (\<exists>s. objs x' (obj_key obj) = Some s \<and> stored_as agrees ob s))" "w' = w\<lparr>outside := x'\<rparr>"
      "ObjBody ob = ObjBody sent" "Labels (ObjMeta ob) = Labels (ObjMeta sent)" "Finalizers (ObjMeta ob) = Finalizers (ObjMeta sent)" for x' ob
  proof -
    have "k \<noteq> obj_key obj \<longrightarrow> objs x' k = objs (outside w) k" using that(1) get by metis
    moreover have "err = None \<longrightarrow> deployed agrees obj (objs x' (obj_key obj))"
      using that read(1,2,5) by (fastforce simp: deployed_def stored_as_def)
    ultimately show ?thesis using that(2) by simp
  qed
  from read(7) live consider "w' = w\<lparr>outside := x\<rparr>" "err \<noteq> None"
    | x' where "Obj_Create cl sent x = (err, x')" "w' = w\<lparr>outside := x'\<rparr>"
    | x' where "Obj_Patch cl ?patched g x = (err, x')" "w' = w\<lparr>outside := x'\<rparr>"
    by (auto simp: handleObject_apply_def returns_simps split: if_splits)
  then show ?thesis
  proof cases
    case 1
    then show ?thesis using get by auto
  next
    case 2
    show ?thesis using wrote [OF object_lawsD(2) [OF laws(1) 2(1), unfolded key] 2(2)] by simp
  next
    case 3
    show ?thesis using wrote [OF object_lawsD(3) [OF laws(1) 3(1), unfolded patched] 3(2)] by simp
  qed
qed auto

lemma handleObject_deleted:
  assumes laws: "object_laws cl agrees objs" "finalizer_laws (DriverFinalizers cl)" and deleted: "\<not> not_deleted (DiMeta di)"
    and run: "returns (handleObject cl di obj) w err w'"
  shows "(k \<noteq> obj_key obj \<or> is_workload (ObjBody obj) \<longrightarrow> objs (outside w') k = objs (outside w) k) \<and>
    (err = None \<longrightarrow> released obj (objs (outside w') (obj_key obj)))"
  using laws run
proof (cases rule: handleObject_cases)
  case (read sent g gerr x)
  note get = object_lawsD(1) [OF laws(1) read(6)]
  let ?fs = "filter (\<lambda>f. f \<noteq> Finalizer) (Finalizers (ObjMeta g))"
  have key: "gerr = None \<Longrightarrow> obj_key g = obj_key obj" using get read(1) by (simp add: obj_key_def)
  from read(7) deleted laws(2) consider (missing) "w' = w\<lparr>outside := x\<rparr>" "err = None" "err_that IsNotFound gerr"
    | (failed) "w' = w\<lparr>outside := x\<rparr>" "err \<noteq> None"
    | (workload) "w' = w\<lparr>outside := x\<rparr>" "is_workload (ObjBody obj)"
    | (clean) "gerr = None" "w' = w\<lparr>outside := x\<rparr>" "Finalizer \<notin> set (Finalizers (ObjMeta g))"
    | (update) x' where "gerr = None" "Obj_Update cl (set_finalizers g ?fs) x = (err, x')" "w' = w\<lparr>outside := x'\<rparr>"
        "\<not> is_workload (ObjBody obj)"
    unfolding handleObject_apply_def read(1) finalizer_laws_def
    by (auto simp: returns_simps split: if_splits option.splits)
  then show ?thesis
  proof cases
    case missing
    then show ?thesis using get read(1) by (auto simp: released_def obj_key_def)
  next
    case update
    have key': "obj_key (set_finalizers g ?fs) = obj_key obj" using key [OF update(1)] by (simp add: obj_key_def set_finalizers_def)
    note upd = object_lawsD(4) [OF laws(1) update(2), unfolded key']
    have "objs x' k = objs (outside w) k" if "k \<noteq> obj_key obj" for k
      using upd [THEN conjunct1] that get [THEN conjunct1] by metis
    moreover have "err = None \<longrightarrow> released obj (objs x' (obj_key obj))"
      using upd [THEN conjunct2] by (auto simp: released_def set_finalizers_def split: option.splits)
    ultimately show ?thesis using update(3,4) by simp
  next
    case clean
    then show ?thesis using get key by (auto simp: released_def)
  qed (use get in \<open>auto simp: released_def\<close>)
qed auto

interpretation deploying: object_sweep
  "object_laws cl agrees objs \<and> finalizer_laws (DriverFinalizers cl) \<and> not_deleted (DiMeta di)"
  "handleObject cl di" obj_key "\<lambda>w. objs (outside w)" "deployed agrees"
  for cl :: "'x driver_client" and agrees objs di
  by unfold_locales (use handleObject_live in blast)+

interpretation releasing: object_sweep
  "object_laws cl agrees objs \<and> finalizer_laws (DriverFinalizers cl) \<and> \<not> not_deleted (DiMeta di)"
  "handleObject cl di" obj_key "\<lambda>w. objs (outside w)" released
  for cl :: "'x driver_client" and agrees objs di
  by unfold_locales (use handleObject_deleted in blast)+

lemma Reconcile_objects_sweep: "Reconcile_objects cl di obs = object_sweep.sweep (handleObject cl di) obs"
  by (induction obs) (simp_all add: deploying.sweep.simps cong: if_cong)

section \<open>A reconciliation\<close>

text \<open>
  What is relied on of the client for the resource itself: reading and patching it does not touch the other
  objects, and a patch of the finalizers leaves the rest of the resource alone and is stored.
\<close>

definition instance_laws ::
  "'x driver_client \<Rightarrow> ('x \<Rightarrow> 'o) \<Rightarrow> ('x \<Rightarrow> string \<Rightarrow> string list) \<Rightarrow> bool" where
  "instance_laws cl objs fins \<longleftrightarrow>
     (\<forall>k x. objs (snd (DI_Get cl k x)) = objs x) \<and>
     (\<forall>di base x. objs (snd (DI_Patch cl di base x)) = objs x) \<and>
     (\<forall>di base x di' err x'. DI_Patch cl di base x = ((di', err), x') \<longrightarrow> DiSpec di = DiSpec base \<longrightarrow>
        Name (DiMeta di) = Name (DiMeta base) \<longrightarrow>
        DiSpec di' = DiSpec di \<and> Name (DiMeta di') = Name (DiMeta di) \<and>
        DeletionTimestamp (DiMeta di') = DeletionTimestamp (DiMeta di) \<and>
        (err = None \<longrightarrow> fins x' (Name (DiMeta di)) = Finalizers (DiMeta di)))"

lemma instance_lawsD:
  assumes "instance_laws cl objs fins"
  shows "objs (snd (DI_Get cl k x)) = objs x" and "objs (snd (DI_Patch cl di base x)) = objs x"
    and "DI_Patch cl di base x = ((di', err), x') \<Longrightarrow> DiSpec di = DiSpec base \<Longrightarrow>
        Name (DiMeta di) = Name (DiMeta base) \<Longrightarrow>
        DiSpec di' = DiSpec di \<and> Name (DiMeta di') = Name (DiMeta di) \<and>
        DeletionTimestamp (DiMeta di') = DeletionTimestamp (DiMeta di) \<and>
        (err = None \<longrightarrow> fins x' (Name (DiMeta di)) = Finalizers (DiMeta di))"
proof -
  note laws = assms [unfolded instance_laws_def]
  show "objs (snd (DI_Get cl k x)) = objs x" "objs (snd (DI_Patch cl di base x)) = objs x" using laws by blast+
  note l3 = laws [THEN conjunct2, THEN conjunct2]
  show "DI_Patch cl di base x = ((di', err), x') \<Longrightarrow> DiSpec di = DiSpec base \<Longrightarrow>
        Name (DiMeta di) = Name (DiMeta base) \<Longrightarrow>
        DiSpec di' = DiSpec di \<and> Name (DiMeta di') = Name (DiMeta di) \<and>
        DeletionTimestamp (DiMeta di') = DeletionTimestamp (DiMeta di) \<and>
        (err = None \<longrightarrow> fins x' (Name (DiMeta di)) = Finalizers (DiMeta di))"
    by (rule mp [OF mp [OF mp [OF l3 [THEN spec, THEN spec, THEN spec, THEN spec, THEN spec, THEN spec]]]])
qed

lemma getObjectsList_cong:
  assumes "DiSpec di' = DiSpec di" and "Name (DiMeta di') = Name (DiMeta di)"
  shows "getObjectsList env di' = getObjectsList env di"
proof -
  have "object_labels di' = object_labels di" "driver_namespace di' = driver_namespace di"
    "verbosity di' = verbosity di" "plugin_container di' = plugin_container di"
    "provisioner_container di' = provisioner_container di" "attacher_container di' = attacher_container di"
    "registrar_container di' = registrar_container di"
    using assms
    by (simp_all add: object_labels_def GetDefaultLabels_def driver_namespace_def verbosity_def plugin_container_def
        provisioner_container_def attacher_container_def registrar_container_def fun_eq_iff)
  then show ?thesis
    using assms
    by (simp add: getObjectsList_def GetNamespaceConfiguration_def GetServiceAccountConfiguration_def GetRolesConfiguration_def
        GetRoleBindingsConfiguration_def GetClusterRolesConfiguration_def GetClusterRoleBindingsConfiguration_def
        GetCSIDriverConfiguration_def GetConfigMapConfiguration_def GetControllerDeploymentConfiguration_def
        GetNodeDaemonSetConfiguration_def)
qed

text \<open>The resource a reconciliation works on, the objects it derives from it, and the sweep over them.\<close>

lemma Driver_Reconcile_sweep:
  assumes laws: "instance_laws cl objs fins" and found: "DI_Get cl req (outside w) = ((di, None), x1)"
    and run: "returns (Driver_Reconcile env cl req) w (r, e) w'"
  obtains di' objects w1 w2 err w3 where
    "not_deleted (DiMeta di') \<longleftrightarrow> not_deleted (DiMeta di)" "\<not> not_deleted (DiMeta di) \<longrightarrow> di' = di"
    "DiSpec di' = DiSpec di" "Name (DiMeta di') = Name (DiMeta di)"
    "returns (getObjectsList env di) w1 objects w2" "kubeletDir w1 = kubeletDir w"
    "objs (outside w2) = objs (outside w)"
    "returns (Reconcile_objects cl di' (if \<not> not_deleted (DiMeta di) then rev objects else objects)) w2 err w3"
    "returns (if err \<noteq> None then ret (\<lparr>Requeue = True, RequeueAfter = 0\<rparr>, err)
        else if \<not> not_deleted (DiMeta di) then
          bnd (Driver_RemoveFinalizer cl di') (\<lambda>(_, err).
          if err \<noteq> None then ret (\<lparr>Requeue = False, RequeueAfter = DefaultRequequeAfter\<rparr>, err)
          else ret (Result_zero, None))
        else ret (Result_zero, None)) w3 (r, e) w'"
proof -
  let ?w = "w\<lparr>outside := x1\<rparr>"
  let ?rest = "Driver_Reconcile_instance env cl (\<not> not_deleted (DiMeta di))"
  have same: "objs x1 = objs (outside w)" using instance_lawsD(1) [OF laws, of req "outside w"] found by simp
  have "\<exists>di' w1. returns (?rest di') w1 (r, e) w' \<and> DiSpec di' = DiSpec di \<and> Name (DiMeta di') = Name (DiMeta di) \<and>
      (not_deleted (DiMeta di') \<longleftrightarrow> not_deleted (DiMeta di)) \<and> (\<not> not_deleted (DiMeta di) \<longrightarrow> di' = di) \<and>
      kubeletDir w1 = kubeletDir w \<and> objs (outside w1) = objs (outside w)"
  proof (cases "not_deleted (DiMeta di)")
    case False
    then have "returns (?rest di) ?w (r, e) w'"
      using run found by (simp add: Driver_Reconcile_def returns_def bnd_call)
    then show ?thesis using False same by (intro exI [of _ di] exI [of _ ?w]) simp
  next
    case True
    obtain changed fs where add: "AddFinalizerTo (DriverFinalizers cl) (Finalizers (DiMeta di)) Finalizer = (changed, fs)" by fastforce
    let ?di = "di\<lparr>DiMeta := (DiMeta di)\<lparr>Finalizers := fs\<rparr>\<rparr>"
    show ?thesis
    proof (cases changed)
      case False
      then have "returns (?rest ?di) ?w (r, e) w'"
        using run found True add by (simp add: Driver_Reconcile_def returns_def bnd_call bnd_Ret Driver_AddFinalizer_def)
      then show ?thesis using True same by (intro exI [of _ ?di] exI [of _ ?w]) (simp add: not_deleted_def)
    next
      case changed: True
      obtain di' err x2 where patch: "DI_Patch cl ?di di x1 = ((di', err), x2)" by (metis surj_pair)
      have "returns (?rest di') (w\<lparr>outside := x2\<rparr>) (r, e) w'"
        using run found True add changed patch
        by (simp add: Driver_Reconcile_def returns_def bnd_call bnd_assoc Driver_AddFinalizer_def)
      moreover have "objs x2 = objs (outside w)" using instance_lawsD(2) [OF laws, of ?di di x1] patch same by simp
      ultimately show ?thesis using True instance_lawsD(3) [OF laws patch]
        by (intro exI [of _ di'] exI [of _ "w\<lparr>outside := x2\<rparr>"]) (simp add: not_deleted_def)
    qed
  qed
  then obtain di' w1 where rest: "returns (?rest di') w1 (r, e) w'" and di': "DiSpec di' = DiSpec di" "Name (DiMeta di') = Name (DiMeta di)"
    "not_deleted (DiMeta di') \<longleftrightarrow> not_deleted (DiMeta di)" "\<not> not_deleted (DiMeta di) \<longrightarrow> di' = di"
    and w1: "kubeletDir w1 = kubeletDir w" "objs (outside w1) = objs (outside w)"
    by blast
  from rest obtain objects w2 err w3 where "returns (getObjectsList env di') w1 objects w2"
    "returns (Reconcile_objects cl di' (if \<not> not_deleted (DiMeta di) then rev objects else objects)) w2 err w3"
    "returns (if err \<noteq> None then ret (\<lparr>Requeue = True, RequeueAfter = 0\<rparr>, err)
        else if \<not> not_deleted (DiMeta di) then
          bnd (Driver_RemoveFinalizer cl di') (\<lambda>(_, err).
          if err \<noteq> None then ret (\<lparr>Requeue = False, RequeueAfter = DefaultRequequeAfter\<rparr>, err)
          else ret (Result_zero, None))
        else ret (Result_zero, None)) w3 (r, e) w'"
    unfolding Driver_Reconcile_instance_def returns_bnd by blast
  then show thesis
    using that [of di' w1 objects w2 err w3] di' w1 getObjectsList_cong [OF di'(1,2), of env]
      getObjectsList_keys(4) [of env di w1 objects w2]
    by simp
qed

lemma Reconcile_objects_workloads:
  assumes laws: "object_laws cl agrees objs" "finalizer_laws (DriverFinalizers cl)" and deleted: "\<not> not_deleted (DiMeta di)"
    and run: "returns (Reconcile_objects cl di obs) w None w'"
    and k: "\<forall>obj \<in> set obs. k \<noteq> obj_key obj \<or> is_workload (ObjBody obj)"
  shows "objs (outside w') k = objs (outside w) k"
  using run k
proof (induction obs arbitrary: w)
  case (Cons ob obs)
  then obtain w1 where "returns (handleObject cl di ob) w None w1" "returns (Reconcile_objects cl di obs) w1 None w'"
    by (auto simp: returns_simps)
  then show ?case
    using Cons.IH [of w1] Cons.prems(2) handleObject_deleted [OF laws deleted, of ob w None w1 k] by auto
qed (simp add: returns_def)

section \<open>Properties of the driver reconciler\<close>

text \<open>
  C11: When a reconciliation of a live resource ends without an error, all twelve objects of the instance are in the
  cluster: each is stored under its own type, namespace and name, with a body that agrees with the
  configuration and with the labels of the configuration, and each but the deployment and the daemon set carries
  the finalizer of the operator.
\<close>

theorem Driver_Reconcile_deploys:
  assumes "object_laws cl agrees objs" "finalizer_laws (DriverFinalizers cl)" "instance_laws cl objs fins"
    and "DI_Get cl req (outside w) = ((di, None), x1)" "not_deleted (DiMeta di)"
    and "returns (Driver_Reconcile env cl req) w (Result_zero, None) w'"
  shows "\<exists>v v' objects. returns (getObjectsList env di) v objects v' \<and> kubeletDir v = kubeletDir w \<and>
    length objects = 12 \<and> distinct (map obj_key objects) \<and>
    (\<forall>obj \<in> set objects. deployed agrees obj (objs (outside w') (obj_key obj)))"
proof -
  from assms(3,4,6) obtain di' objects w1 w2 err w3 where
    live: "not_deleted (DiMeta di')" and list: "returns (getObjectsList env di) w1 objects w2" "kubeletDir w1 = kubeletDir w"
    and sweep: "returns (Reconcile_objects cl di' objects) w2 err w3"
    and rest: "returns (if err \<noteq> None then ret (\<lparr>Requeue = True, RequeueAfter = 0\<rparr>, err) else ret (Result_zero, None)) w3 (Result_zero, None) w'"
    by (rule Driver_Reconcile_sweep) (use assms(5) in \<open>simp cong: if_cong\<close>)
  from rest have "err = None" "w' = w3" by (auto simp: returns_simps Result_zero_def split: if_splits)
  then have "\<forall>obj \<in> set objects. deployed agrees obj (objs (outside w') (obj_key obj))"
    using deploying.sweep_settles [of cl agrees objs di' objects w2 w'] assms(1,2) live sweep getObjectsList_keys(1) [OF list(1)]
    by (simp add: Reconcile_objects_sweep)
  then show ?thesis using list getObjectsList_keys(1,5) [OF list(1)] by blast
qed

text \<open>
  C12: When a reconciliation of a resource that is being deleted ends without an error, the finalizer of the operator is
  gone from every object of the instance and from the resource itself; the deployment and the daemon set were
  not touched, they go with their owner.
\<close>

theorem Driver_Reconcile_releases:
  assumes "object_laws cl agrees objs" "finalizer_laws (DriverFinalizers cl)" "instance_laws cl objs fins"
    and "DI_Get cl req (outside w) = ((di, None), x1)" "\<not> not_deleted (DiMeta di)" "Finalizer \<in> set (Finalizers (DiMeta di))"
    and "returns (Driver_Reconcile env cl req) w (Result_zero, None) w'"
  shows "\<exists>v v' objects. returns (getObjectsList env di) v objects v' \<and>
    (\<forall>obj \<in> set objects. if is_workload (ObjBody obj) then objs (outside w') (obj_key obj) = objs (outside w) (obj_key obj)
       else (case objs (outside w') (obj_key obj) of None \<Rightarrow> True | Some s \<Rightarrow> Finalizer \<notin> set (Finalizers (ObjMeta s)))) \<and>
    Finalizer \<notin> set (fins (outside w') (Name (DiMeta di)))"
proof -
  let ?di = "di\<lparr>DiMeta := (DiMeta di)\<lparr>Finalizers := filter (\<lambda>f. f \<noteq> Finalizer) (Finalizers (DiMeta di))\<rparr>\<rparr>"
  from assms(3,4,7) obtain objects w1 w2 err w3 where
    list: "returns (getObjectsList env di) w1 objects w2" and st: "objs (outside w2) = objs (outside w)"
    and sweep: "returns (Reconcile_objects cl di (rev objects)) w2 err w3"
    and rest: "returns (if err \<noteq> None then ret (\<lparr>Requeue = True, RequeueAfter = 0\<rparr>, err)
        else bnd (Driver_RemoveFinalizer cl di) (\<lambda>(_, err).
          if err \<noteq> None then ret (\<lparr>Requeue = False, RequeueAfter = DefaultRequequeAfter\<rparr>, err)
          else ret (Result_zero, None))) w3 (Result_zero, None) w'"
    by (rule Driver_Reconcile_sweep) (use assms(5) in \<open>simp cong: if_cong\<close>)
  from rest have ok: "err = None" and "\<exists>d. returns (Driver_RemoveFinalizer cl di) w3 (d, None) w'"
    by (auto simp: returns_simps Result_zero_def DefaultRequequeAfter_def time_Second_def split: if_splits)
  then obtain d x where patch: "DI_Patch cl ?di di (outside w3) = ((d, None), x)" "w' = w3\<lparr>outside := x\<rparr>"
    using assms(2,6) by (auto simp: Driver_RemoveFinalizer_def finalizer_laws_def returns_simps Let_def)
  have fins: "Finalizer \<notin> set (fins (outside w') (Name (DiMeta di)))"
    using instance_lawsD(3) [OF assms(3) patch(1)] patch(2) by simp
  have w': "objs (outside w') = objs (outside w3)" using instance_lawsD(2) [OF assms(3), of ?di di "outside w3"] patch by simp
  have lawful: "object_laws cl agrees objs \<and> finalizer_laws (DriverFinalizers cl) \<and> \<not> not_deleted (DiMeta di)" using assms by simp
  have sweep': "returns (Reconcile_objects cl di (rev objects)) w2 None w3" using sweep ok by simp
  have "if is_workload (ObjBody obj) then objs (outside w3) (obj_key obj) = objs (outside w2) (obj_key obj)
       else (case objs (outside w3) (obj_key obj) of None \<Rightarrow> True | Some s \<Rightarrow> Finalizer \<notin> set (Finalizers (ObjMeta s)))"
    if obj: "obj \<in> set objects" for obj
  proof (cases "is_workload (ObjBody obj)")
    case True
    have "k = obj \<or> obj_key obj \<noteq> obj_key k" if "k \<in> set objects" for k
      using getObjectsList_keys(1) [OF list] that obj by (metis distinct_map inj_onD)
    then have "\<forall>k \<in> set (rev objects). obj_key obj \<noteq> obj_key k \<or> is_workload (ObjBody k)" using True by auto
    then show ?thesis using True Reconcile_objects_workloads [OF assms(1,2,5) sweep'] by simp
  next
    case False
    have "released obj (objs (outside w3) (obj_key obj))"
      using releasing.sweep_settles [OF lawful, of "rev objects" w2 w3] sweep' obj getObjectsList_keys(1) [OF list]
      by (simp add: Reconcile_objects_sweep rev_map [symmetric])
    then show ?thesis using False by (simp add: released_def)
  qed
  then show ?thesis using list fins w' st by (intro exI [of _ w1] exI [of _ w2] exI [of _ objects]) simp
qed

text \<open>
  C38: The objects are handled in a fixed order, reversed when the resource is being deleted, and the first failure ends
  the run. A reconciliation that asks to be repeated at once has failed on one object, whose error it returns: the objects before it
  were handled and are deployed (released, in a deletion), handling it was the last thing done, and the objects after
  it are as they were. The namespace is the last object of a deletion, so as long as another object
  cannot be released it is untouched.
\<close>

theorem Driver_Reconcile_order:
  assumes "object_laws cl agrees objs" "finalizer_laws (DriverFinalizers cl)" "instance_laws cl objs fins"
    and "DI_Get cl req (outside w) = ((di, None), x1)"
    and "returns (Driver_Reconcile env cl req) w (\<lparr>Requeue = True, RequeueAfter = 0\<rparr>, e) w'"
  shows "\<exists>v v' v1 di' objects pre ob post. returns (getObjectsList env di) v objects v' \<and> objs (outside v') = objs (outside w) \<and>
    DiSpec di' = DiSpec di \<and> Name (DiMeta di') = Name (DiMeta di) \<and> not_deleted (DiMeta di') = not_deleted (DiMeta di) \<and>
    (if not_deleted (DiMeta di) then objects else rev objects) = pre @ ob # post \<and>
    returns (Reconcile_objects cl di' pre) v' None v1 \<and> e \<noteq> None \<and> returns (handleObject cl di' ob) v1 e w' \<and>
    (\<forall>obj \<in> set pre. if not_deleted (DiMeta di) then deployed agrees obj (objs (outside w') (obj_key obj))
                    else released obj (objs (outside w') (obj_key obj))) \<and>
    (\<forall>obj \<in> set post. objs (outside w') (obj_key obj) = objs (outside w) (obj_key obj)) \<and>
    (\<not> not_deleted (DiMeta di) \<longrightarrow> last (ob # post) = GetNamespaceConfiguration di)"
proof -
  from assms(3,4,5) obtain di' objects w1 w2 err w3 where
    di': "not_deleted (DiMeta di') \<longleftrightarrow> not_deleted (DiMeta di)" "DiSpec di' = DiSpec di" "Name (DiMeta di') = Name (DiMeta di)"
    and list: "returns (getObjectsList env di) w1 objects w2" and st: "objs (outside w2) = objs (outside w)"
    and sweep: "returns (Reconcile_objects cl di' (if \<not> not_deleted (DiMeta di) then rev objects else objects)) w2 err w3"
    and rest: "err \<noteq> None" "e = err" "w' = w3"
    by (rule Driver_Reconcile_sweep)
      (auto simp: returns_simps Result_zero_def DefaultRequequeAfter_def time_Second_def split: if_splits)
  let ?obs = "if not_deleted (DiMeta di) then objects else rev objects"
  from rest obtain e' where err: "err = Some e'" by auto
  have run: "returns (object_sweep.sweep (handleObject cl di') ?obs) w2 (Some e') w'"
    using sweep err rest(3) by (simp add: Reconcile_objects_sweep cong: if_cong split: if_splits)
  have distinct: "distinct (map obj_key ?obs)"
    using getObjectsList_keys(1) [OF list] by (simp add: rev_map [symmetric])
  have "\<exists>pre ob post v1. ?obs = pre @ ob # post \<and> returns (Reconcile_objects cl di' pre) w2 None v1 \<and>
      returns (handleObject cl di' ob) v1 (Some e') w' \<and>
      (\<forall>obj \<in> set pre. if not_deleted (DiMeta di) then deployed agrees obj (objs (outside w') (obj_key obj))
                      else released obj (objs (outside w') (obj_key obj))) \<and>
      (\<forall>p \<in> set post. objs (outside w') (obj_key p) = objs (outside w2) (obj_key p))"
  proof (cases "not_deleted (DiMeta di')")
    case True
    then show ?thesis using deploying.sweep_failure [OF _ run distinct] assms(1,2) di'(1)
      by (simp add: Reconcile_objects_sweep)
  next
    case False
    then show ?thesis using releasing.sweep_failure [OF _ run distinct] assms(1,2) di'(1)
      by (simp add: Reconcile_objects_sweep)
  qed
  then obtain pre ob post v1 where split: "?obs = pre @ ob # post" and "returns (Reconcile_objects cl di' pre) w2 None v1"
    "returns (handleObject cl di' ob) v1 e w'"
    "\<forall>obj \<in> set pre. if not_deleted (DiMeta di) then deployed agrees obj (objs (outside w') (obj_key obj))
       else released obj (objs (outside w') (obj_key obj))"
    "\<forall>obj \<in> set post. objs (outside w') (obj_key obj) = objs (outside w) (obj_key obj)"
    using err rest(2) st by auto
  moreover have "last (ob # post) = GetNamespaceConfiguration di" if "\<not> not_deleted (DiMeta di)"
  proof -
    have "last (rev objects) = GetNamespaceConfiguration di" using getObjectsList_keys(2,3) [OF list] by (simp add: last_rev)
    then show ?thesis using split that by simp
  qed
  ultimately show ?thesis using list split st di' rest(1,2)
    by (intro exI [of _ w1] exI [of _ w2] exI [of _ v1] exI [of _ di'] exI [of _ objects] exI [of _ pre] exI [of _ ob] exI [of _ post]) simp
qed

section \<open>An example\<close>

text \<open>A cluster with a store of objects and the finalizers of the resources.\<close>

type_synonym object_store = "((object_body \<times> string \<times> string) \<times> client_Object) list \<times> (string \<times> string list) list"

definition store_objs :: "object_store \<Rightarrow> object_body \<times> string \<times> string \<Rightarrow> client_Object option" where
  "store_objs x k = (case map_of (fst x) k of None \<Rightarrow> None | Some g \<Rightarrow> if obj_key g = k then Some g else None)"

definition store_fins :: "object_store \<Rightarrow> string \<Rightarrow> string list" where
  "store_fins x n = (case map_of (snd x) n of None \<Rightarrow> [] | Some fs \<Rightarrow> fs)"

definition store_put :: "client_Object \<Rightarrow> object_store \<Rightarrow> error option \<times> object_store" where
  "store_put obj x = (None, ((obj_key obj, obj) # fst x, snd x))"

definition store_client :: "DriverInstance \<Rightarrow> error option \<Rightarrow> object_store driver_client" where
  "store_client di owner_error =
     \<lparr>DI_Get = (\<lambda>k x. ((di, None), x)),
      DI_Patch = (\<lambda>d base x. ((d, None), (fst x, AList.update (Name (DiMeta d)) (Finalizers (DiMeta d)) (snd x)))),
      Obj_Get = (\<lambda>z k x. case store_objs x (ObjBody z, k) of
                    Some g \<Rightarrow> ((g, None), x) | None \<Rightarrow> ((z, Some (Error ''not found'' KNotFound)), x)),
      Obj_Create = store_put, Obj_Update = store_put, Obj_Patch = (\<lambda>obj base. store_put obj),
      SetControllerReference = (\<lambda>di obj. (obj\<lparr>ObjMeta := (ObjMeta obj)\<lparr>OwnerReferences := [Name (DiMeta di)]\<rparr>\<rparr>, owner_error)),
      DriverFinalizers = controllerutil\<rparr>"

lemma store_laws_hold:
  "object_laws (store_client di e) (=) store_objs" "finalizer_laws (DriverFinalizers (store_client di e))"
  "instance_laws (store_client di e) store_objs store_fins"
proof -
  have get: "store_objs x k = Some g \<Longrightarrow> obj_key g = k" for x k g
    by (auto simp: store_objs_def split: option.splits if_splits)
  show "object_laws (store_client di e) (=) store_objs"
    unfolding object_laws_def
  proof (intro conjI allI impI, goal_cases)
    case (1 z ns n x g err x')
    then show ?case by (auto simp: store_client_def split: option.splits)
  next
    case (2 z ns n x g err x')
    then show ?case using get by (auto simp: store_client_def split: option.splits)
  next
    case (3 z ns n x g err x')
    then show ?case using get by (auto simp: store_client_def split: option.splits)
  next
    case (4 z ns n x g err x')
    then show ?case by (auto simp: store_client_def split: option.splits)
  next
    case (11 d obj obj' err)
    then show ?case by (auto simp: store_client_def)
  qed (auto simp: store_client_def store_put_def store_objs_def stored_as_def)
  show "finalizer_laws (DriverFinalizers (store_client di e))" by (simp add: store_client_def controllerutil_laws)
  show "instance_laws (store_client di e) store_objs store_fins"
    by (auto simp: instance_laws_def store_client_def store_objs_def store_fins_def update_conv' fun_eq_iff)
qed

lemma store_handles: "\<exists>w'. returns (handleObject (store_client di None) d obj) w None w'"
proof -
  have "\<exists>w'. returns (handleObject_apply (store_client di None) d obj r) w None w'" if "\<forall>e. snd r = Some e \<longrightarrow> IsNotFound e" for obj r w
    using that
    by (cases r) (auto simp: handleObject_apply_def store_client_def store_put_def returns_def call_def Let_def split: option.split prod.split)
  moreover have "\<exists>r w1. returns (call (Obj_Get (store_client di None) z k)) w r w1 \<and> (\<forall>e. snd r = Some e \<longrightarrow> IsNotFound e)" for z k w
    by (auto simp: returns_def store_client_def call_def IsNotFound_def split: option.split)
  moreover obtain o1 where o1: "SetControllerReference (store_client di None) d obj = (o1, None)" by (simp add: store_client_def)
  moreover obtain z k o2 where split: "handleObject (store_client di None) d obj =
      bnd (call (Obj_Get (store_client di None) z k)) (handleObject_apply (store_client di None) d o2)"
    unfolding handleObject_def o1 Let_def by auto
  ultimately show ?thesis unfolding split returns_bnd by meson
qed

lemma store_sweeps: "\<exists>w'. returns (Reconcile_objects (store_client di None) d obs) w None w'"
proof (induction obs arbitrary: w)
  case Nil
  then show ?case by (simp add: returns_def)
next
  case (Cons ob obs)
  obtain w1 where "returns (handleObject (store_client di None) d ob) w None w1" using store_handles by blast
  then show ?case using Cons.IH [of w1] by (auto simp: returns_def bnd_Ret)
qed

text \<open>The resource, live and being deleted, on a cluster without objects.\<close>

definition store_world :: "object_store world" where
  "store_world = \<lparr>kubeletDir = ''/var/lib/kubelet'', protectedNamespace = [], outside = ([], [])\<rparr>"

definition deleted_instance :: DriverInstance where
  "deleted_instance = demo_instance\<lparr>DiMeta := (DiMeta demo_instance)\<lparr>Finalizers := [Finalizer], DeletionTimestamp := Some 1\<rparr>\<rparr>"

lemma demo_instance_state [simp]:
  "not_deleted (DiMeta demo_instance)" "\<not> not_deleted (DiMeta deleted_instance)" "Finalizers (DiMeta deleted_instance) = [Finalizer]"
  "Finalizers (DiMeta demo_instance) = []"
  by (simp_all add: demo_instance_def deleted_instance_def not_deleted_def)

lemma store_found: "DI_Get (store_client di e) k x = ((di, None), x)"
  by (simp add: store_client_def)

lemma getObjectsList_returns: "\<exists>objects w'. returns (getObjectsList env di) w objects w'"
  using getObjectsList_run [of env di w] by (auto simp: returns_def)

lemma store_deploy_run:
  "\<exists>w'. returns (Driver_Reconcile env (store_client demo_instance None) k) store_world (Result_zero, None) w'"
proof -
  have "\<exists>d w1. Driver_AddFinalizer (store_client demo_instance None) demo_instance store_world = (Ret (d, None), w1)"
    by (simp add: Driver_AddFinalizer_def store_client_def controllerutil_def call_def)
  then obtain d w1 where add: "Driver_AddFinalizer (store_client demo_instance None) demo_instance store_world = (Ret (d, None), w1)" by blast
  obtain objects w2 where "returns (getObjectsList env d) w1 objects w2" using getObjectsList_returns by blast
  moreover obtain w3 where "returns (Reconcile_objects (store_client demo_instance None) d objects) w2 None w3" using store_sweeps by blast
  ultimately show ?thesis using add
    by (auto simp: Driver_Reconcile_def Driver_Reconcile_instance_def returns_def bnd_call store_found bnd_Ret bnd_assoc)
qed

lemma store_release_run:
  "\<exists>w'. returns (Driver_Reconcile env (store_client deleted_instance None) k) store_world (Result_zero, None) w'"
proof -
  obtain objects w2 where "returns (getObjectsList env deleted_instance) store_world objects w2" using getObjectsList_returns by blast
  moreover obtain w3 where "returns (Reconcile_objects (store_client deleted_instance None) deleted_instance (rev objects)) w2 None w3"
    using store_sweeps by blast
  moreover have "\<exists>d w4. Driver_RemoveFinalizer (store_client deleted_instance None) deleted_instance w3 = (Ret (d, None), w4)"
    by (simp add: Driver_RemoveFinalizer_def store_client_def controllerutil_def call_def)
  ultimately show ?thesis
    by (auto simp: Driver_Reconcile_def Driver_Reconcile_instance_def returns_def bnd_call store_found bnd_Ret bnd_assoc)
qed

lemma store_failing_run:
  "\<exists>w'. returns (Driver_Reconcile env (store_client deleted_instance (Some e)) k) store_world
     (\<lparr>Requeue = True, RequeueAfter = 0\<rparr>, Some e) w'"
proof -
  obtain objects w2 where list: "returns (getObjectsList env deleted_instance) store_world objects w2" using getObjectsList_returns by blast
  have handle: "handleObject (store_client deleted_instance (Some e)) d obj = ret (Some e)" for d obj
    by (simp add: handleObject_def store_client_def)
  have "rev objects \<noteq> []" using getObjectsList_keys(3) [OF list] by simp
  then have "Reconcile_objects (store_client deleted_instance (Some e)) deleted_instance (rev objects) w2 = (Ret (Some e), w2)"
    by (cases "rev objects") (simp_all add: handle)
  then show ?thesis using list
    by (auto simp: Driver_Reconcile_def Driver_Reconcile_instance_def returns_def bnd_call store_found bnd_Ret bnd_assoc)
qed

theorem Driver_Reconcile_deploys_witness:
  "\<exists>(env :: object_store env) w' objects. length objects = 12 \<and>
     (\<forall>obj \<in> set objects. deployed (=) obj (store_objs (outside w') (obj_key obj))) \<and>
     returns (Driver_Reconcile env (store_client demo_instance None) ([], [])) store_world (Result_zero, None) w'"
proof -
  fix env :: "object_store env"
  obtain w' where run: "returns (Driver_Reconcile env (store_client demo_instance None) ([], [])) store_world (Result_zero, None) w'"
    using store_deploy_run by blast
  from Driver_Reconcile_deploys [OF store_laws_hold store_found demo_instance_state(1) run] run show ?thesis by blast
qed

theorem Driver_Reconcile_releases_witness:
  "\<exists>(env :: object_store env) w'. Finalizer \<notin> set (store_fins (outside w') (Name (DiMeta deleted_instance))) \<and>
     returns (Driver_Reconcile env (store_client deleted_instance None) ([], [])) store_world (Result_zero, None) w'"
proof -
  fix env :: "object_store env"
  obtain w' where run: "returns (Driver_Reconcile env (store_client deleted_instance None) ([], [])) store_world (Result_zero, None) w'"
    using store_release_run by blast
  have "Finalizer \<in> set (Finalizers (DiMeta deleted_instance))" by simp
  from Driver_Reconcile_releases [OF store_laws_hold store_found demo_instance_state(2) this run] run show ?thesis by blast
qed

theorem Driver_Reconcile_order_witness:
  "\<exists>(env :: object_store env) v v' v1 di objects pre ob post (w' :: object_store world).
     returns (getObjectsList env deleted_instance) v objects v' \<and> rev objects = pre @ ob # post \<and>
     returns (handleObject (store_client deleted_instance (Some (errorf ''denied''))) di ob) v1 (Some (errorf ''denied'')) w' \<and>
     last (ob # post) = GetNamespaceConfiguration deleted_instance \<and>
     (\<forall>obj \<in> set post. store_objs (outside w') (obj_key obj) = store_objs (outside store_world) (obj_key obj))"
proof -
  fix env :: "object_store env"
  obtain w' where run: "returns (Driver_Reconcile env (store_client deleted_instance (Some (errorf ''denied''))) ([], [])) store_world
      (\<lparr>Requeue = True, RequeueAfter = 0\<rparr>, Some (errorf ''denied'')) w'"
    using store_failing_run by blast
  from Driver_Reconcile_order [OF store_laws_hold store_found run] obtain v v' v1 di objects pre ob post where
    "returns (getObjectsList env deleted_instance) v objects v'" "rev objects = pre @ ob # post"
    "returns (handleObject (store_client deleted_instance (Some (errorf ''denied''))) di ob) v1 (Some (errorf ''denied'')) w'"
    "last (ob # post) = GetNamespaceConfiguration deleted_instance"
    "\<forall>obj \<in> set post. store_objs (outside w') (obj_key obj) = store_objs (outside store_world) (obj_key obj)"
    by (simp only: demo_instance_state if_False not_False_eq_True simp_thms) blast
  then show ?thesis by blast
qed

end
