(* ===== verification/Operator_Main.thy ===== *)
theory Operator_Main
  imports Operator_Cluster Driver_Reconciler Webhook_Server
begin

text \<open>
  The processes around the two reconcilers and the webhook: \<^verbatim>\<open>pkg/csi-operator/main.go\<close>, what
  \<^verbatim>\<open>SetupWithManager\<close> of the two controllers registers, and \<^verbatim>\<open>Main\<close> of \<^verbatim>\<open>pkg/webhook/main.go\<close>. The second half
  shows that the reconcilers, which the operator runs without end, always come back.

  controller-runtime's manager is a parameter, the record \<open>manager_ops\<close>; what it is handed is recorded
  as data. Flag parsing is outside: the values of the flags are arguments.
\<close>

section \<open>The manager\<close>

record ManagerOptions =
  MetricsBindAddress :: string
  ManagerPort :: int
  HealthProbeBindAddress :: string
  LeaderElection :: bool
  LeaderElectionID :: string

text \<open>What a builder is told before \<^verbatim>\<open>Complete\<close>; \<^verbatim>\<open>MaxConcurrentReconciles\<close> is 0 where it is not set.\<close>

record ControllerSetup =
  ForKind :: string
  MaxConcurrentReconciles :: int
  WatchedKinds :: "string list"
  OwnedKinds :: "string list"

record 'x manager_ops =
  NewManager :: "ManagerOptions \<Rightarrow> 'x \<Rightarrow> error option \<times> 'x"
  CompleteController :: "ControllerSetup \<Rightarrow> 'x \<Rightarrow> error option \<times> 'x"
  CompleteWebhook :: "string \<Rightarrow> 'x \<Rightarrow> error option \<times> 'x"
  AddHealthzCheck :: "string \<Rightarrow> 'x \<Rightarrow> error option \<times> 'x"
  AddReadyzCheck :: "string \<Rightarrow> 'x \<Rightarrow> error option \<times> 'x"
  StartManager :: "'x \<Rightarrow> error option \<times> 'x"

definition Cache_SetupWithManager :: "'x manager_ops \<Rightarrow> ('x world, error option) io" where
  "Cache_SetupWithManager mgr =
     call (CompleteController mgr
       \<lparr>ForKind = ''Cache'', MaxConcurrentReconciles = 3, WatchedKinds = [''Node''], OwnedKinds = []\<rparr>)"

definition Driver_SetupWithManager :: "'x manager_ops \<Rightarrow> ('x world, error option) io" where
  "Driver_SetupWithManager mgr =
     call (CompleteController mgr
       \<lparr>ForKind = ''DriverInstance'', MaxConcurrentReconciles = 0, WatchedKinds = [],
        OwnedKinds = [''Namespace'', ''ServiceAccount'', ''Role'', ''RoleBinding'', ''ClusterRole'', ''ClusterRoleBinding'',
          ''CSIDriver'', ''ConfigMap'', ''Deployment'', ''DaemonSet'']\<rparr>)"

definition Cache_SetupWebhookWithManager :: "'x manager_ops \<Rightarrow> ('x world, error option) io" where
  "Cache_SetupWebhookWithManager mgr = call (CompleteWebhook mgr ''Cache'')"

definition OperatorMain :: "'x manager_ops \<Rightarrow> string \<Rightarrow> string \<Rightarrow> bool \<Rightarrow> ('x world, nat) io" where
  "OperatorMain mgr metricsAddr probeAddr enableLeaderElection =
     bnd (call (NewManager mgr
            \<lparr>MetricsBindAddress = metricsAddr, ManagerPort = 9443, HealthProbeBindAddress = probeAddr,
             LeaderElection = enableLeaderElection, LeaderElectionID = ''6fd2567c.csi.open-cas.com''\<rparr>)) (\<lambda>err.
     if err \<noteq> None then ret 1
     else bnd (Cache_SetupWithManager mgr) (\<lambda>err.
     if err \<noteq> None then ret 1
     else bnd (Driver_SetupWithManager mgr) (\<lambda>err.
     if err \<noteq> None then ret 1
     else bnd (Cache_SetupWebhookWithManager mgr) (\<lambda>err.
     if err \<noteq> None then ret 1
     else bnd (call (AddHealthzCheck mgr ''healthz'')) (\<lambda>err.
     if err \<noteq> None then ret 1
     else bnd (call (AddReadyzCheck mgr ''readyz'')) (\<lambda>err.
     if err \<noteq> None then ret 1
     else bnd (call (StartManager mgr)) (\<lambda>err.
     if err \<noteq> None then ret 1 else ret 0)))))))"

text \<open>
  The events of the objects a driver instance owns, and the filter in front of its reconciliation: the two predicates
  of controller-runtime are parameters, the functions of \<^verbatim>\<open>predicate.Funcs\<close> that are not set let an event pass.
\<close>

datatype 'o watch_event = CreateEvent 'o | UpdateEvent 'o 'o | DeleteEvent 'o | GenericEvent 'o

definition driver_event_filter ::
  "((DriverInstance + client_Object) watch_event \<Rightarrow> bool) \<Rightarrow> ((DriverInstance + client_Object) watch_event \<Rightarrow> bool)
     \<Rightarrow> (DriverInstance + client_Object) watch_event \<Rightarrow> bool" where
  "driver_event_filter generation_changed label_changed ev \<longleftrightarrow>
     (generation_changed ev \<or> label_changed ev) \<and>
     (case ev of CreateEvent ob \<Rightarrow> CreateFunc ob | _ \<Rightarrow> True)"

text \<open>The webhook process: \<open>listen\<close> is \<^verbatim>\<open>ListenAndServeTLS\<close> with the handler under \<^verbatim>\<open>/validate\<close>.\<close>

definition WebhookMain ::
  "(string \<Rightarrow> string \<Rightarrow> string \<Rightarrow> string \<Rightarrow> 'x \<Rightarrow> error option \<times> 'x) \<Rightarrow> string \<Rightarrow> string \<Rightarrow> string \<Rightarrow> ('x world, nat) io" where
  "WebhookMain listen port tlscert tlskey =
     bnd (call (listen ''/validate'' (CHR '':'' # port) tlscert tlskey)) (\<lambda>err. if err \<noteq> None then ret 1 else ret 0)"

text \<open>The operator ends with 0 only if the manager ran, which it does only after everything is registered.\<close>

lemma OperatorMain_exit:
  assumes "returns (OperatorMain mgr m p l) w code w'"
  shows "code = 0 \<or> code = 1"
    and "code = 0 \<Longrightarrow> \<exists>w1. returns (call (StartManager mgr)) w1 None w'"
  using assms by (auto simp: OperatorMain_def returns_simps)

section \<open>Code that returns with a postcondition\<close>

definition yields :: "('a \<Rightarrow> bool) \<Rightarrow> ('w, 'a) io \<Rightarrow> bool" where
  "yields P m \<longleftrightarrow> (\<forall>w. \<exists>a w'. returns m w a w' \<and> P a)"

lemma yields_no_panic: "yields P m \<Longrightarrow> no_panic m"
  unfolding yields_def no_panic_def by blast

lemma no_panic_yields: "no_panic m \<Longrightarrow> yields (\<lambda>_. True) m"
  by (simp add: yields_def no_panic_def)

lemma yields_ret: "P a \<Longrightarrow> yields P (ret a)"
  by (simp add: yields_def)

lemma yields_bnd: "yields P m \<Longrightarrow> (\<And>a. P a \<Longrightarrow> yields Q (f a)) \<Longrightarrow> yields Q (bnd m f)"
  unfolding yields_def returns_bnd by blast

lemma no_panic_bnd_yields: "yields P m \<Longrightarrow> (\<And>a. P a \<Longrightarrow> no_panic (f a)) \<Longrightarrow> no_panic (bnd m f)"
  unfolding yields_def no_panic_def returns_bnd by blast

lemma yieldsI: "no_panic m \<Longrightarrow> (\<And>w a w'. returns m w a w' \<Longrightarrow> P a) \<Longrightarrow> yields P m"
  unfolding yields_def no_panic_def by blast


section \<open>The Open CAS manager returns\<close>

lemma no_panic_Pair [simp]: "no_panic (Pair (Ret a))"
  by (simp add: no_panic_def returns_def)

text \<open>A job that ends without an error has an output, so the code after it may look at it.\<close>

lemma casadm_yields: "yields (\<lambda>(name, out, err). err = None \<longrightarrow> out \<noteq> None) (run_casadm env cas cmd)"
  by (rule yieldsI [OF casadm_no_panic(5)]) (auto dest: run_casadm_output)

lemma no_panic_casadm:
  assumes "\<And>name out. no_panic (f name (Some out) None)" and "\<And>name out e. no_panic (f name out (Some e))"
  shows "no_panic (bnd (run_casadm env cas cmd) (\<lambda>(name, out, err). f name out err))"
proof (rule no_panic_bnd_yields [OF casadm_yields])
  fix a :: "string \<times> Output option \<times> error option"
  assume "case a of (name, out, err) \<Rightarrow> err = None \<longrightarrow> out \<noteq> None"
  then show "no_panic (case a of (name, out, err) \<Rightarrow> f name out err)"
    using assms by (cases a, cases "snd (snd a)", cases "fst (snd a)") auto
qed

lemma manager_no_panic:
  assumes "lists_readable env"
  shows "no_panic (GetCacheInstances env cas)" "no_panic (StopCache env cas c)" "no_panic (SetCacheMode env cas c mode)"
    "no_panic (StartCache env cas path mode cls)" "no_panic (GetCacheLineSize env cas c)"
proof -
  note lists = ListCaches_no_panic [OF assms]
  show "no_panic (GetCacheInstances env cas)" unfolding GetCacheInstances_def by (intro no_panic_intros lists)
  show "no_panic (StopCache env cas c)"
    unfolding StopCache_def Let_def by (rule no_panic_casadm) (auto intro!: no_panic_intros lists)
  show "no_panic (SetCacheMode env cas c mode)"
    unfolding SetCacheMode_def Let_def by (rule no_panic_casadm) (auto intro!: no_panic_intros lists)
  show "no_panic (StartCache env cas path mode cls)"
    unfolding StartCache_def Let_def by (rule no_panic_casadm) (auto intro!: no_panic_intros lists)
  have stats: "no_panic (GetStatistics env cas i j)" for i j
    unfolding GetStatistics_def by (rule no_panic_casadm) (simp_all add: no_panic_ret)
  show "no_panic (GetCacheLineSize env cas c)"
    unfolding GetCacheLineSize_def Let_def by (intro no_panic_intros stats)
qed

lemma StartCache_yields:
  assumes "lists_readable env"
  shows "yields (\<lambda>(c, err). err = None \<longrightarrow> c \<noteq> None) (StartCache env cas path mode cls)"
  by (rule yieldsI [OF manager_no_panic(4) [OF assms]]) (auto simp: StartCache_def returns_simps Let_def)

section \<open>The reconcilers return\<close>

text \<open>
  A node with labels keeps some when it is patched, and the nodes that are read have labels, as all nodes of a
  cluster do. The code relies on it: it writes to the map it gets.
\<close>

definition labelled :: "Node \<Rightarrow> bool" where
  "labelled n \<longleftrightarrow> Labels (NodeMeta n) \<noteq> None"

definition nodes_labelled :: "'x cache_client \<Rightarrow> bool" where
  "nodes_labelled cl \<longleftrightarrow>
     (\<forall>k x n x'. CNodes_Get cl k x = ((n, None), x') \<longrightarrow> labelled n) \<and>
     (\<forall>n base x n' err x'. CNodes_Patch cl n base x = ((n', err), x') \<longrightarrow> labelled n \<longrightarrow> labelled n')"

lemma SetOperatingCacheLabel_yields:
  assumes "nodes_labelled cl" "labelled n"
  shows "yields (\<lambda>(n', err). labelled n') (SetOperatingCacheLabel cl n v)"
proof (rule yieldsI)
  obtain m where put: "mput (Labels (NodeMeta n)) OperatingCacheLabelKey v = Ret m" and m: "m \<noteq> None"
    using assms(2) by (auto simp: labelled_def mput_def)
  then have run: "SetOperatingCacheLabel cl n v = call (CNodes_Patch cl (n\<lparr>NodeMeta := (NodeMeta n)\<lparr>Labels := m\<rparr>\<rparr>) n)"
    by (simp add: SetOperatingCacheLabel_def of_outcome_Ret)
  show "no_panic (SetOperatingCacheLabel cl n v)" unfolding run by (rule no_panic_call)
  show "case a of (n', err) \<Rightarrow> labelled n'" if patch: "returns (SetOperatingCacheLabel cl n v) w a w'" for w a w'
  proof -
    have "labelled (n\<lparr>NodeMeta := (NodeMeta n)\<lparr>Labels := m\<rparr>\<rparr>)" using m by (simp add: labelled_def)
    moreover obtain x where "CNodes_Patch cl (n\<lparr>NodeMeta := (NodeMeta n)\<lparr>Labels := m\<rparr>\<rparr>) n (outside w) = (a, x)"
      using patch unfolding run by (auto simp: returns_simps)
    ultimately show ?thesis
      using assms(1) unfolding nodes_labelled_def by (cases a) blast
  qed
qed

lemma Reconcile_plan_no_panic: "lists_readable env \<Longrightarrow> no_panic (Reconcile_plan env cas c insts acc)"
proof (induction insts arbitrary: acc)
  case (Cons i insts)
  obtain R M where acc: "acc = (R, M)" by (cases acc)
  show ?case
    unfolding acc Reconcile_plan.simps
    by (intro no_panic_intros Cons.IH [OF Cons.prems] manager_no_panic(5) [OF Cons.prems])
qed (simp add: no_panic_ret)

lemma Reconcile_remove_yields:
  assumes "lists_readable env" "nodes_labelled cl"
  shows "labelled (fst acc) \<Longrightarrow> yields (\<lambda>(n, again). labelled n) (Reconcile_remove env cl cas c label insts acc)"
proof (induction insts arbitrary: acc)
  case (Cons i insts)
  obtain n again where acc: "acc = (n, again)" by (cases acc)
  have n: "labelled n" using Cons.prems acc by simp
  have set_label: "yields labelled (if b then bnd (SetOperatingCacheLabel cl n v) (\<lambda>(node', err). ret node') else ret n)" for b v
    using n by (auto intro!: yields_ret yields_bnd [OF SetOperatingCacheLabel_yields [OF assms(2) n]])
  have stop: "yields (\<lambda>_. True) (StopCache env cas i)"
    by (rule no_panic_yields) (rule manager_no_panic(2) [OF assms(1)])
  show ?case
    unfolding acc Reconcile_remove.simps
    by (rule yields_bnd [OF set_label]) (auto intro!: Cons.IH yields_bnd [OF stop])
qed (auto intro!: yields_ret)

lemma Reconcile_finish_no_panic: "no_panic (Reconcile_finish cl c acc)"
  unfolding Reconcile_finish_def Cache_RemoveFinalizer_def DeleteOperatingCacheLabel_def Let_def
  by (intro no_panic_intros)

lemma Reconcile_apply_no_panic:
  assumes "lists_readable env" "nodes_labelled cl" "labelled (fst acc)"
  shows "no_panic (Reconcile_apply env cl cas c inst acc)"
proof -
  obtain n again where acc: "acc = (n, again)" by (cases acc)
  have set_label: "no_panic (SetOperatingCacheLabel cl n v)" for v
    using SetOperatingCacheLabel_yields [OF assms(2)] assms(3) acc by (auto intro: yields_no_panic)
  have rest: "no_panic (case a of (cache, err) \<Rightarrow> if err \<noteq> None then ret (Inl r) else bnd (deref cache) (\<lambda>cache.
      bnd (SetOperatingCacheLabel cl n (fmt_int (CacheId cache))) (\<lambda>(node, err). ret (Inr (node, again)))))"
    if "case a of (c :: Cache option, err) \<Rightarrow> err = None \<longrightarrow> c \<noteq> None" for a and r :: "ctrl_Result \<times> error option"
    using that by (cases a) (auto intro!: no_panic_intros set_label)
  show ?thesis
    unfolding acc Reconcile_apply_def prod.case
    by (intro no_panic_case_option no_panic_if no_panic_ret no_panic_bnd manager_no_panic(3) [OF assms(1)]
        no_panic_bnd_yields [OF StartCache_yields [OF assms(1)]] rest)
qed

lemma Reconcile_instances_no_panic:
  assumes "lists_readable env" "nodes_labelled cl" "labelled n"
  shows "no_panic (Reconcile_instances env cl cas c n insts)"
  unfolding Reconcile_instances_def
proof (rule no_panic_bnd [OF Reconcile_plan_no_panic [OF assms(1)]])
  fix plan :: "(ctrl_Result \<times> error option) + (Cache list \<times> Cache option)"
  show "no_panic (case plan of Inl r \<Rightarrow> ret r
     | Inr (removeInstances, modifyInstance) \<Rightarrow>
         bnd (Reconcile_remove env cl cas c (mget (Labels (NodeMeta n)) OperatingCacheLabelKey)
                removeInstances (n, False)) (\<lambda>acc.
         bnd (Reconcile_apply env cl cas c modifyInstance acc) (\<lambda>applied.
         case applied of Inl r \<Rightarrow> ret r | Inr acc \<Rightarrow> Reconcile_finish cl c acc)))"
    by (intro no_panic_case_sum no_panic_case_prod no_panic_ret no_panic_bnd
        no_panic_bnd_yields [OF Reconcile_remove_yields [OF assms(1,2)]]
        Reconcile_apply_no_panic [OF assms(1,2)] Reconcile_finish_no_panic) (auto simp: assms(3))
qed

lemma Reconcile_node_no_panic:
  assumes "lists_readable env" "nodes_labelled cl" "labelled n"
  shows "no_panic (Reconcile_node env cl c n)"
proof -
  have manager: "yields (\<lambda>(cas, err). err = None \<longrightarrow> cas \<noteq> None) (NewOpenCasManager env i ns)" for i ns
    by (rule yieldsI [OF casadm_no_panic(1)]) (auto simp: NewOpenCasManager_def returns_simps)
  show ?thesis
    unfolding Reconcile_node_def
  proof (intro no_panic_if no_panic_ret no_panic_bnd_yields [OF manager])
    fix a :: "OpenCAS option \<times> error option"
    assume ok: "case a of (cas, err) \<Rightarrow> err = None \<longrightarrow> cas \<noteq> None"
    show "no_panic (case a of (cas, err) \<Rightarrow>
        if err \<noteq> None then
          ret (\<lparr>Requeue = True, RequeueAfter = 0\<rparr>,
            Some (errorf (''cannot create Open-CAS manager on node '' @ fmt_q (Name (CacheMeta c))
              @ [NL] @ ''err: '' @ err_text err)))
        else
          bnd (deref cas) (\<lambda>cas.
          bnd (GetCacheInstances env cas) (\<lambda>(instances, err).
          if err \<noteq> None then
            ret (\<lparr>Requeue = True, RequeueAfter = 0\<rparr>,
              Some (errorf (''failed to get caches on node '' @ fmt_q (Name (CacheMeta c))
                @ [NL] @ ''err: '' @ err_text err)))
          else Reconcile_instances env cl cas c n instances)))"
      using ok
      by (cases a) (auto intro!: no_panic_intros manager_no_panic(1) [OF assms(1)] Reconcile_instances_no_panic [OF assms])
  qed
qed

lemma Cache_Reconcile_no_panic:
  assumes "lists_readable env" "nodes_labelled cl"
  shows "no_panic (Cache_Reconcile env cl req)"
proof -
  have get: "yields (\<lambda>(n, err). err = None \<longrightarrow> labelled n) (call (CNodes_Get cl k))" for k
  proof (rule yieldsI [OF no_panic_call])
    fix w a w' assume "returns (call (CNodes_Get cl k)) w a w'"
    then obtain x where "CNodes_Get cl k (outside w) = (a, x)" by (auto simp: returns_simps)
    then show "case a of (n, err) \<Rightarrow> err = None \<longrightarrow> labelled n"
      using assms(2) unfolding nodes_labelled_def by (cases a) blast
  qed
  have add: "no_panic (Cache_AddFinalizer cl c)" for c
    unfolding Cache_AddFinalizer_def Let_def by (intro no_panic_intros)
  have rest: "no_panic (case a of (n, err) \<Rightarrow> if err \<noteq> None then ret (r err) else bnd m (\<lambda>c. Reconcile_node env cl c n))"
    if "case a of (n, err) \<Rightarrow> err = None \<longrightarrow> labelled n" "no_panic m" for a m and r :: "error option \<Rightarrow> ctrl_Result \<times> error option"
    using that by (cases a) (auto intro!: no_panic_intros Reconcile_node_no_panic [OF assms])
  show ?thesis
    unfolding Cache_Reconcile_def
    by (intro no_panic_case_prod no_panic_if no_panic_ret no_panic_bnd [OF no_panic_call] no_panic_bnd_yields [OF get] rest
        no_panic_bnd add) assumption
qed

lemma handleObject_no_panic: "no_panic (handleObject cl di ob)"
proof -
  have effect: "no_panic (handleObject_apply cl di ob found)" for ob found
    unfolding handleObject_apply_def Let_def by (intro no_panic_intros)
  show ?thesis unfolding handleObject_def Let_def by (intro no_panic_intros effect)
qed

lemma Reconcile_objects_no_panic: "no_panic (Reconcile_objects cl di obs)"
  by (induction obs) (auto intro!: no_panic_ret no_panic_bnd no_panic_if handleObject_no_panic)

lemma Driver_Reconcile_no_panic: "no_panic (Driver_Reconcile env cl req)"
proof -
  have list: "no_panic (getObjectsList env di)" for di
    unfolding getObjectsList_def GetConfigMapConfiguration_def GetNodeDaemonSetConfiguration_def Let_def
    by (intro no_panic_intros)
  have fin: "no_panic (Driver_AddFinalizer cl di)" "no_panic (Driver_RemoveFinalizer cl di)" for di
    unfolding Driver_AddFinalizer_def Driver_RemoveFinalizer_def Let_def by (intro no_panic_intros)+
  have inst: "no_panic (Driver_Reconcile_instance env cl d di)" for d di
    unfolding Driver_Reconcile_instance_def by (intro no_panic_intros list Reconcile_objects_no_panic fin)
  show ?thesis
    unfolding Driver_Reconcile_def Let_def by (intro no_panic_intros fin inst)
qed

text \<open>The reference cluster with a client that finds one node under every name.\<close>

definition one_node_client :: "mem cache_client" where
  "one_node_client = (operator_client op_resource)\<lparr>CNodes_Get := (\<lambda>k x. ((op_node, None), x))\<rparr>"

lemma one_node_labelled: "nodes_labelled one_node_client"
  by (auto simp: nodes_labelled_def one_node_client_def operator_client_def op_node_def labelled_def)

text \<open>
  C19: A reconciliation of a \<^verbatim>\<open>Cache\<close> comes back, in every world, for every request and with every answer of the API
  server, as long as the parser gets through what the completed list jobs of the node print and the nodes the reconciler is given
  have labels. Both conditions are needed. If a list job prints a text on which the parser panics, as it does on a
  core that comes before any cache, so does listing the caches; and setting the label of a node that has no labels at
  all writes to a \<^verbatim>\<open>nil\<close> map.
\<close>

theorem Cache_Reconcile_returns:
  assumes "lists_readable env" "nodes_labelled cl"
  shows "(\<exists>r w'. returns (Cache_Reconcile env cl req) w r w') \<and>
    (\<forall>name out w1 p. returns (run_casadm env2 cas listCachesCmd) v (name, Some out, None) w1 \<and> parseCacheList (StdOut out) = Panic p \<longrightarrow>
       ListCaches env2 cas v = (Panic p, w1)) \<and>
    SetOperatingCacheLabel cl2 (n\<lparr>NodeMeta := (NodeMeta n)\<lparr>Labels := None\<rparr>\<rparr>) lbl u = (Panic NilMapWrite, u)"
proof (intro conjI)
  show "\<exists>r w'. returns (Cache_Reconcile env cl req) w r w'"
    by (rule no_panic_returns [OF Cache_Reconcile_no_panic [OF assms]])
  show "\<forall>name out w1 p. returns (run_casadm env2 cas listCachesCmd) v (name, Some out, None) w1 \<and> parseCacheList (StdOut out) = Panic p \<longrightarrow>
       ListCaches env2 cas v = (Panic p, w1)"
    by (auto simp: ListCaches_def returns_def bnd_Ret bnd_Panic of_outcome_def)
qed (simp add: SetOperatingCacheLabel_def mput_def bnd_def)

theorem Cache_Reconcile_returns_witness:
  "\<exists>r w'. returns (Cache_Reconcile operator_env one_node_client op_req) (op_world [busy_cache]) r w'"
  using Cache_Reconcile_returns [OF casadm_lists_readable [OF cache_nodeD(1) [OF operator_cache_node]] one_node_labelled] by blast

end
