(* ===== verification/Csi_Types.thy ===== *)
theory Csi_Types
  imports K8s_Utils
begin

text \<open>
  The vocabulary of the CSI services: gRPC status values, the capability messages, and the driver
  configuration of \<^verbatim>\<open>pkg/csi-driver/csi-driver.go\<close>. A remote procedure returns a status (its error)
  or a response. The receiver of a handler is \<^term>\<open>None\<close> when the service was not configured: Go
  allows the call, and reading a field of the receiver then panics.
\<close>

datatype code =
    InvalidArgument | NotFound | Internal | Aborted | Unimplemented
  | AlreadyExists | Unavailable | FailedPrecondition

datatype status = Status (status_code: code) (status_message: string)

type_synonym ('x, 'r) rpc = "('x world, status + 'r) io"

definition fail :: "code \<Rightarrow> string \<Rightarrow> ('x, 'r) rpc" where
  "fail c msg = ret (Inl (Status c msg))"

definition reply :: "'r \<Rightarrow> ('x, 'r) rpc" where
  "reply r = ret (Inr r)"

lemma fail_apply [simp]: "fail c msg w = (Ret (Inl (Status c msg)), w)"
  by (simp add: fail_def)

lemma reply_apply [simp]: "reply r w = (Ret (Inr r), w)"
  by (simp add: reply_def)

lemma returns_fail [returns_simps, simp]: "returns (fail c msg) w r w' \<longleftrightarrow> r = Inl (Status c msg) \<and> w' = w"
  by (simp add: fail_def)

lemma returns_reply [returns_simps, simp]: "returns (reply a) w r w' \<longleftrightarrow> r = Inr a \<and> w' = w"
  by (simp add: reply_def)

lemma no_panic_fail [no_panic_intros]: "no_panic (fail c msg)" "no_panic (reply a)"
  by (simp_all add: fail_def reply_def no_panic_ret)

lemma keeps_globals_fail [keeps_intros]: "keeps globals_kept (fail c msg)" "keeps globals_kept (reply a)"
  unfolding fail_def reply_def by (intro keeps_globals)+

text \<open>\<^verbatim>\<open>csi.VolumeCapability\<close>: the access type is one of mount and block, or not set.\<close>

record MountVolume =
  FsType :: string
  MountFlags :: "string list"

datatype VolumeCapability = AccessMount MountVolume | AccessBlock | AccessUnset

fun GetMount :: "VolumeCapability \<Rightarrow> MountVolume option" where
  "GetMount (AccessMount m) = Some m"
| "GetMount AccessBlock = None"
| "GetMount AccessUnset = None"

fun GetBlock :: "VolumeCapability \<Rightarrow> bool" where
  "GetBlock AccessBlock = True"
| "GetBlock (AccessMount m) = False"
| "GetBlock AccessUnset = False"

record Config =
  DriverName :: string
  Endpoint :: string
  NodeID :: string
  VendorVersion :: string
  ShowVersion :: bool
  DeviceManager :: string
  SingleCache :: bool
  StartControllerServer :: bool
  StartNodeServer :: bool

text \<open>\<^verbatim>\<open>mutex.LockKey\<close> through the receiver.\<close>

definition lock_key :: "Config option \<Rightarrow> string \<Rightarrow> ('x world, unit) io" where
  "lock_key server key = (case server of None \<Rightarrow> panic NilDereference | Some c \<Rightarrow> ret ())"

lemma lock_key_Some [simp]: "lock_key (Some c) key = ret ()"
  by (simp add: lock_key_def)

lemma lock_key_None [simp]: "lock_key None key = panic NilDereference"
  by (simp add: lock_key_def)

lemma keeps_globals_lock [keeps_intros]: "keeps globals_kept (lock_key server key)"
  unfolding lock_key_def by (intro keeps_globals)

definition getPodNameForPv :: "string \<Rightarrow> string \<Rightarrow> string" where
  "getPodNameForPv pvName nodeId = nodeId @ ''-'' @ pvName"

definition getPvcNameForPv :: "string \<Rightarrow> string" where
  "getPvcNameForPv pvName = ''opencas-csi-'' @ pvName"

lemma getPvcNameForPv_inj: "getPvcNameForPv a = getPvcNameForPv b \<longleftrightarrow> a = b"
  by (simp add: getPvcNameForPv_def)

lemma getPvcNameForPv_nonempty [simp]: "getPvcNameForPv a \<noteq> []"
  by (simp add: getPvcNameForPv_def)

section \<open>Handlers that reject a request before they act\<close>

text \<open>
  The contract every handler of the two services has towards its caller: a request that fails
  the handler's checks is answered with a status of its own and nothing is called.
  \<open>rejects req\<close> is the status, if there is one.
\<close>

locale guarded_handler =
  fixes handle :: "'req \<Rightarrow> ('w, status + 'resp) io"
    and rejects :: "'req \<Rightarrow> status option"
  assumes rejected: "rejects req = Some st \<Longrightarrow> handle req w = (Ret (Inl st), w)"
begin

text \<open>A client that sends requests one after the other, whatever the answers.\<close>

primrec serve :: "'req list \<Rightarrow> 'w \<Rightarrow> 'w" where
  "serve [] w = w"
| "serve (req # reqs) w = serve reqs (snd (handle req w))"

lemma serve_append: "serve (as @ bs) w = serve bs (serve as w)"
  by (induction as arbitrary: w) simp_all

lemma serve_rejected: "list_all (\<lambda>r. rejects r \<noteq> None) reqs \<Longrightarrow> serve reqs w = w"
  by (induction reqs arbitrary: w) (auto simp: rejected)

text \<open>Rejected requests in a sequence can be left out.\<close>

lemma serve_filter: "serve (filter (\<lambda>r. rejects r = None) reqs) w = serve reqs w"
  by (induction reqs arbitrary: w) (auto simp: rejected)

lemma accepted: "returns (handle req) w (Inr resp) w' \<Longrightarrow> rejects req = None"
  by (cases "rejects req") (auto simp: returns_def rejected)

end

end
