(* ===== verification/Controller_Server.thy ===== *)
theory Controller_Server
  imports Csi_Types Reference_Cluster
begin

text \<open>
  \<^verbatim>\<open>pkg/csi-driver/controller.go\<close>: the CSI controller service. A volume of the driver is a claim on
  the backend storage class in the protected namespace; publishing it to a node starts an
  intermediate pod there that attaches the backend volume.

  A handler takes the environment and the receiver. The receiver is \<^term>\<open>None\<close> on a plugin that
  runs the node service only. \<^verbatim>\<open>LockKey\<close> and the deferred \<^verbatim>\<open>UnlockKey\<close> make requests for one volume
  run one after the other, which is how the handlers are sequenced here.
\<close>

section \<open>Requests and responses\<close>

datatype ControllerRPC =
    RPC_UNKNOWN | RPC_CREATE_DELETE_VOLUME | RPC_PUBLISH_UNPUBLISH_VOLUME
  | RPC_LIST_VOLUMES | RPC_GET_CAPACITY | RPC_CREATE_DELETE_SNAPSHOT | RPC_EXPAND_VOLUME
  | RPC_SINGLE_NODE_MULTI_WRITER

fun ControllerRPC_String :: "ControllerRPC \<Rightarrow> string" where
  "ControllerRPC_String RPC_UNKNOWN = ''UNKNOWN''"
| "ControllerRPC_String RPC_CREATE_DELETE_VOLUME = ''CREATE_DELETE_VOLUME''"
| "ControllerRPC_String RPC_PUBLISH_UNPUBLISH_VOLUME = ''PUBLISH_UNPUBLISH_VOLUME''"
| "ControllerRPC_String RPC_LIST_VOLUMES = ''LIST_VOLUMES''"
| "ControllerRPC_String RPC_GET_CAPACITY = ''GET_CAPACITY''"
| "ControllerRPC_String RPC_CREATE_DELETE_SNAPSHOT = ''CREATE_DELETE_SNAPSHOT''"
| "ControllerRPC_String RPC_EXPAND_VOLUME = ''EXPAND_VOLUME''"
| "ControllerRPC_String RPC_SINGLE_NODE_MULTI_WRITER = ''SINGLE_NODE_MULTI_WRITER''"

text \<open>The getters of a \<^verbatim>\<open>nil\<close> capacity range give 0.\<close>

record CapacityRange =
  CapRequired :: int
  CapLimit :: int

definition GetRequiredBytes :: "CapacityRange option \<Rightarrow> int" where
  "GetRequiredBytes r = (case r of None \<Rightarrow> 0 | Some c \<Rightarrow> CapRequired c)"

definition GetLimitBytes :: "CapacityRange option \<Rightarrow> int" where
  "GetLimitBytes r = (case r of None \<Rightarrow> 0 | Some c \<Rightarrow> CapLimit c)"

record CreateVolumeRequest =
  CvName :: string
  CvVolumeCapabilities :: "VolumeCapability list option"
  CvParameters :: "string gomap"
  CvCapacityRange :: "CapacityRange option"

record CreateVolumeResponse =
  VolumeId :: string
  CapacityBytes :: int
  AccessibleTopology :: "string gomap list"
  VolumeContext :: "string gomap"

record ValidateVolumeCapabilitiesRequest =
  VvVolumeId :: string
  VvVolumeContext :: "string gomap"
  VvVolumeCapabilities :: "VolumeCapability list option"
  VvParameters :: "string gomap"

record ConfirmedCapabilities =
  ConfirmedContext :: "string gomap"
  ConfirmedVolumeCapabilities :: "VolumeCapability list option"
  ConfirmedParameters :: "string gomap"

record ControllerPublishVolumeRequest =
  CpVolumeId :: string
  CpNodeId :: string
  CpVolumeCapability :: "VolumeCapability option"

record ControllerUnpublishVolumeRequest =
  CuVolumeId :: string
  CuNodeId :: string

section \<open>Capabilities and validation\<close>

definition backendScParam :: string where "backendScParam = ''backend-sc-name''"

definition controllerCapabilities :: "ControllerRPC list" where
  "controllerCapabilities =
     [RPC_CREATE_DELETE_VOLUME, RPC_PUBLISH_UNPUBLISH_VOLUME, RPC_SINGLE_NODE_MULTI_WRITER]"

definition validateControllerServiceRequest :: "ControllerRPC \<Rightarrow> status option" where
  "validateControllerServiceRequest c =
     (if c = RPC_UNKNOWN then None
      else if c \<in> set controllerCapabilities then None
      else Some (Status InvalidArgument (ControllerRPC_String c)))"

text \<open>A \<^verbatim>\<open>nil\<close> list has length 0, and the getters of a \<^verbatim>\<open>nil\<close> capability give \<^verbatim>\<open>nil\<close>.\<close>

definition isValidVolumeCapabilities :: "VolumeCapability list option \<Rightarrow> status option" where
  "isValidVolumeCapabilities volCaps =
     (let cs = (case volCaps of None \<Rightarrow> [] | Some cs \<Rightarrow> cs) in
      if cs = [] then Some (Status InvalidArgument ''volume capabilities missing in request'')
      else if list_ex (\<lambda>c. GetMount c = None \<and> \<not> GetBlock c) cs
        then Some (Status InvalidArgument ''volume access type must be defined'')
      else None)"

definition ControllerGetCapabilities :: "Config option \<Rightarrow> ('x, ControllerRPC list) rpc" where
  "ControllerGetCapabilities cs =
     (if cs \<noteq> None then reply controllerCapabilities
      else fail Unimplemented
        ''Controller server is not enabled - csi-provisioner error is expected.'')"

text \<open>
  The parameter loop of \<^verbatim>\<open>CreateVolume\<close>: keys are compared in lower case, the last match in the
  order of iteration wins, any other key is an error.
\<close>

fun scan_parameters :: "(string \<times> string) list \<Rightarrow> string \<Rightarrow> status + string" where
  "scan_parameters [] sc = Inr sc"
| "scan_parameters ((k, v) # ps) sc =
     (if ToLower k = backendScParam then scan_parameters ps v
      else Inl (Status InvalidArgument
        (''create volume - invalid parameter '' @ fmt_q k @ '' in storage class'')))"

section \<open>Volumes\<close>

definition CreateVolume ::
  "'x env \<Rightarrow> Config option \<Rightarrow> CreateVolumeRequest \<Rightarrow> ('x, CreateVolumeResponse) rpc" where
  "CreateVolume env cs req =
     (case validateControllerServiceRequest RPC_CREATE_DELETE_VOLUME of
        Some st \<Rightarrow> ret (Inl st)
      | None \<Rightarrow>
      if CvName req = [] then fail InvalidArgument ''create volume - name must be provided in request''
      else if CvVolumeCapabilities req = None then
        fail InvalidArgument ''create volume - volume capabilities must be provided in request''
      else case isValidVolumeCapabilities (CvVolumeCapabilities req) of
        Some st \<Rightarrow> ret (Inl st)
      | None \<Rightarrow>
      (let parameters = (if CvParameters req = None then Some [] else CvParameters req) in
       case scan_parameters (mentries parameters) [] of
         Inl st \<Rightarrow> ret (Inl st)
       | Inr sc \<Rightarrow>
       if sc = [] then
         fail InvalidArgument (''create volume - parameter '' @ [CHR 0x27] @ ''backend-sc-name'' @ [CHR 0x27]
           @ '' required in Open-CAS storage class'')
       else
         (let pvcConfig = \<lparr>ScName = sc, Params = parameters, PvcName = getPvcNameForPv (CvName req),
                RequiredBytes = GetRequiredBytes (CvCapacityRange req),
                LimitBytes = GetLimitBytes (CvCapacityRange req)\<rparr> in
          bnd (lock_key cs (CvName req)) (\<lambda>_.
          bnd (NewK8sUtils env) (\<lambda>err.
          if err \<noteq> None then fail Internal (err_text err)
          else
          bnd (GetScByName env sc) (\<lambda>(scObj, err).
          if err \<noteq> None then
            fail Internal (''create volume - cannot check if backend storage class '' @ fmt_q sc @ '' exists'')
          else if scObj = None then
            fail NotFound (''create volume - backend storage class '' @ fmt_q sc @ '' does not exist'')
          else
          bnd (GetSubproviderPvcByName env (PvcName pvcConfig)) (\<lambda>(pvc, err).
          if real_error err then
            fail Internal (''create volume - cannot check if PVC '' @ fmt_q (PvcName pvcConfig) @ '' exists'')
          else
          bnd (if pvc = None then bnd (CreateSubproviderPvc env pvcConfig) (\<lambda>(_, err). ret err)
               else ret None) (\<lambda>err.
          if err \<noteq> None then
            fail Internal (''create volume - cannot create PVC '' @ fmt_q (PvcName pvcConfig)
              @ '': '' @ err_text err)
          else
            reply \<lparr>VolumeId = CvName req, CapacityBytes = GetRequiredBytes (CvCapacityRange req),
              AccessibleTopology = [Some []], VolumeContext = parameters\<rparr>))))))))"

definition DeleteVolume :: "'x env \<Rightarrow> Config option \<Rightarrow> string \<Rightarrow> ('x, unit) rpc" where
  "DeleteVolume env cs volId =
     (case validateControllerServiceRequest RPC_CREATE_DELETE_VOLUME of
        Some st \<Rightarrow> ret (Inl st)
      | None \<Rightarrow>
      if volId = [] then fail InvalidArgument ''delete volume - volume ID missing in request''
      else
        bnd (lock_key cs volId) (\<lambda>_.
        bnd (NewK8sUtils env) (\<lambda>err.
        if err \<noteq> None then fail Internal (err_text err)
        else
        bnd (GetSubproviderPvcByName env (getPvcNameForPv volId)) (\<lambda>(pvc, err).
        if real_error err then
          fail Internal (''delete volume - cannot check if PVC '' @ fmt_q (getPvcNameForPv volId) @ '' exists'')
        else
        case pvc of
          None \<Rightarrow> reply ()
        | Some pvc \<Rightarrow>
            bnd (DeleteSubproviderPvc env (Name (PvcMeta pvc))) (\<lambda>err.
            if real_error err then
              fail Internal (''delete volume - cannot delete PVC '' @ fmt_q (Name (PvcMeta pvc))
                @ '', err: '' @ err_text err)
            else reply ())))))"

text \<open>
  The test \<^verbatim>\<open>req == nil\<close> of \<^verbatim>\<open>ValidateVolumeCapabilities\<close> comes after the volume ID was found in the
  request, so its branch is never taken.
\<close>

definition ValidateVolumeCapabilities ::
  "ValidateVolumeCapabilitiesRequest \<Rightarrow> ('x, ConfirmedCapabilities) rpc" where
  "ValidateVolumeCapabilities req =
     (if VvVolumeId req = [] then
        fail InvalidArgument ''validate volume capabilities - volume ID missing in request''
      else case isValidVolumeCapabilities (VvVolumeCapabilities req) of
        Some st \<Rightarrow> ret (Inl st)
      | None \<Rightarrow> reply \<lparr>ConfirmedContext = VvVolumeContext req,
          ConfirmedVolumeCapabilities = VvVolumeCapabilities req, ConfirmedParameters = VvParameters req\<rparr>)"

section \<open>Publishing\<close>

text \<open>The pod of a published volume: an existing one, or a new one that has to come up.\<close>

definition ControllerPublishVolume_pod :: "'x env \<Rightarrow> PodConfig \<Rightarrow> ('x world, status option) io" where
  "ControllerPublishVolume_pod env podConfig =
     bnd (GetIntermediatePodByName env (PodName podConfig) (PodNamespace podConfig)) (\<lambda>(pod, err).
     if real_error err then
       ret (Some (Status Internal (''controller publish volume - cannot check if Pod ''
         @ fmt_q (PodName podConfig) @ '' exists'')))
     else if pod \<noteq> None then ret None
     else
     bnd (CreateIntermediatePod env podConfig) (\<lambda>(pod, err).
     if err = None then ret None
     else case pod of
       None \<Rightarrow> ret (Some (Status Internal (''controller publish volume - cannot create Pod ''
         @ fmt_q (PodName podConfig) @ '', err: '' @ err_text err)))
     | Some pod \<Rightarrow>
         bnd (DeleteIntermediatePod env (Name (PodMeta pod)) (Namespace (PodMeta pod))) (\<lambda>_.
         ret (Some (Status Aborted (''controller publish volume - intermediate Pod ''
           @ fmt_q (PodName podConfig) @ '' not started correctly, err: '' @ err_text err))))))"

text \<open>The second half of the handler: the refreshed claim and the volume bound to it.\<close>

definition ControllerPublishVolume_bound :: "'x env \<Rightarrow> string \<Rightarrow> ('x, string gomap) rpc" where
  "ControllerPublishVolume_bound env pvcName =
     bnd (GetSubproviderPvcByName env pvcName) (\<lambda>(pvc, err).
     if err \<noteq> None then
       fail Internal (''controller publish volume - cannot refresh PVC '' @ fmt_q pvcName)
     else case pvc of
       None \<Rightarrow> panic NilDereference
     | Some pvc \<Rightarrow>
     if VolumeName pvc = [] then
       fail NotFound (''controller publish volume - PV not bound for PVC '' @ fmt_q pvcName)
     else
     bnd (GetPvByName env (VolumeName pvc)) (\<lambda>(pv, err).
     if err \<noteq> None then
       fail Internal (''controller publish volume - cannot get PV '' @ fmt_q (VolumeName pvc))
     else case pv of
       None \<Rightarrow> panic NilDereference
     | Some pv \<Rightarrow> reply (Some [(''backendPvName'', Name (PvMeta pv))])))"

definition ControllerPublishVolume ::
  "'x env \<Rightarrow> Config option \<Rightarrow> ControllerPublishVolumeRequest \<Rightarrow> ('x, string gomap) rpc" where
  "ControllerPublishVolume env cs req =
     (case validateControllerServiceRequest RPC_PUBLISH_UNPUBLISH_VOLUME of
        Some st \<Rightarrow> ret (Inl st)
      | None \<Rightarrow>
      if CpVolumeId req = [] then
        fail InvalidArgument ''controller publish volume - volume ID must be provided in request''
      else if CpNodeId req = [] then
        fail InvalidArgument ''controller publish volume - node ID must be provided in request''
      else if CpVolumeCapability req = None then
        fail InvalidArgument ''controller publish volume - volume capability must be provided in request''
      else
        bnd (lock_key cs (CpVolumeId req)) (\<lambda>_.
        bnd (NewK8sUtils env) (\<lambda>err.
        if err \<noteq> None then fail Internal (err_text err)
        else
        (let pvcName = getPvcNameForPv (CpVolumeId req) in
         bnd (GetSubproviderPvcByName env pvcName) (\<lambda>(pvc, err).
         if real_error err then
           fail Internal (''controller publish volume - cannot check if PVC '' @ fmt_q pvcName @ '' exists'')
         else if err \<noteq> None then
           fail NotFound (''controller publish volume - PVC '' @ fmt_q pvcName @ '' does not exist'')
         else
         bnd (ConfiguredProtectedNamespace env) (\<lambda>ns.
         bnd (ControllerPublishVolume_pod env
                \<lparr>PodName = getPodNameForPv (CpVolumeId req) (CpNodeId req), Pvc = pvc,
                 CasadmImage = Getenv env CasadmImageEnv, NodeId = CpNodeId req, PodNamespace = ns\<rparr>) (\<lambda>failed.
         case failed of
           Some st \<Rightarrow> ret (Inl st)
         | None \<Rightarrow> ControllerPublishVolume_bound env pvcName)))))))"

definition ControllerUnpublishVolume ::
  "'x env \<Rightarrow> Config option \<Rightarrow> ControllerUnpublishVolumeRequest \<Rightarrow> ('x, unit) rpc" where
  "ControllerUnpublishVolume env cs req =
     (case validateControllerServiceRequest RPC_PUBLISH_UNPUBLISH_VOLUME of
        Some st \<Rightarrow> ret (Inl st)
      | None \<Rightarrow>
      if CuVolumeId req = [] then
        fail InvalidArgument ''controller unpublish volume - volume ID missing in request''
      else if CuNodeId req = [] then
        fail InvalidArgument ''controller unpublish volume - node ID must be provided in request''
      else
        bnd (lock_key cs (CuVolumeId req)) (\<lambda>_.
        bnd (NewK8sUtils env) (\<lambda>err.
        if err \<noteq> None then fail Internal (err_text err)
        else
        (let podName = getPodNameForPv (CuVolumeId req) (CuNodeId req) in
         bnd (ConfiguredProtectedNamespace env) (\<lambda>ns.
         bnd (GetIntermediatePodByName env podName ns) (\<lambda>(pod, err).
         if real_error err then
           fail Internal (''controller unpublish volume - cannot check if Pod '' @ fmt_q podName @ '' exists'')
         else case pod of
           None \<Rightarrow> reply ()
         | Some pod \<Rightarrow>
             bnd (DeleteIntermediatePod env (Name (PodMeta pod)) (Namespace (PodMeta pod))) (\<lambda>err.
             if real_error err then
               fail Internal (''controller unpublish volume - cannot delete Pod '' @ fmt_q (Name (PodMeta pod))
                 @ '', err: '' @ err_text err)
             else reply ())))))))"

section \<open>Procedures that are not offered\<close>

datatype UnusedControllerCall =
    ControllerGetVolume | GetCapacity | ListVolumes | ControllerExpandVolume
  | CreateSnapshot | DeleteSnapshot | ListSnapshots | ControllerModifyVolume

fun UnusedControllerCall_name :: "UnusedControllerCall \<Rightarrow> string" where
  "UnusedControllerCall_name ControllerGetVolume = ''ControllerGetVolume''"
| "UnusedControllerCall_name GetCapacity = ''GetCapacity''"
| "UnusedControllerCall_name ListVolumes = ''ListVolumes''"
| "UnusedControllerCall_name ControllerExpandVolume = ''ControllerExpandVolume''"
| "UnusedControllerCall_name CreateSnapshot = ''CreateSnapshot''"
| "UnusedControllerCall_name DeleteSnapshot = ''DeleteSnapshot''"
| "UnusedControllerCall_name ListSnapshots = ''ListSnapshots''"
| "UnusedControllerCall_name ControllerModifyVolume = ''ControllerModifyVolume''"

definition unusedControllerCall :: "UnusedControllerCall \<Rightarrow> ('x, unit) rpc" where
  "unusedControllerCall c = fail Unimplemented (UnusedControllerCall_name c)"

section \<open>Validation\<close>

lemma validate_supported [simp]:
  "validateControllerServiceRequest RPC_CREATE_DELETE_VOLUME = None"
  "validateControllerServiceRequest RPC_PUBLISH_UNPUBLISH_VOLUME = None"
  by (simp_all add: validateControllerServiceRequest_def controllerCapabilities_def)

lemma isValidVolumeCapabilities_iff:
  "isValidVolumeCapabilities caps = None \<longleftrightarrow>
     (\<exists>cs. caps = Some cs \<and> cs \<noteq> [] \<and> (\<forall>c\<in>set cs. c \<noteq> AccessUnset))"
proof -
  have access: "GetMount c = None \<and> \<not> GetBlock c \<longleftrightarrow> c = AccessUnset" for c
    by (cases c) simp_all
  show ?thesis
    by (cases caps) (auto simp: isValidVolumeCapabilities_def access list_ex_iff)
qed

lemma scan_parameters_Inr:
  "scan_parameters ps sc = Inr v \<longleftrightarrow>
     (\<forall>(k, u)\<in>set ps. ToLower k = backendScParam) \<and> v = last (sc # map snd ps)"
  by (induction ps sc rule: scan_parameters.induct) auto

lemma scan_parameters_Inl:
  "scan_parameters ps sc = Inl st \<Longrightarrow>
     \<exists>(k, u)\<in>set ps. ToLower k \<noteq> backendScParam \<and>
       st = Status InvalidArgument (''create volume - invalid parameter '' @ fmt_q k @ '' in storage class'')"
  by (induction ps sc rule: scan_parameters.induct) (auto split: if_splits)

text \<open>
  The status of a request that fails the checks at the top of its handler.
\<close>

definition CreateVolume_rejects :: "CreateVolumeRequest \<Rightarrow> status option" where
  "CreateVolume_rejects req =
     (if CvName req = [] then Some (Status InvalidArgument ''create volume - name must be provided in request'')
      else if CvVolumeCapabilities req = None then
        Some (Status InvalidArgument ''create volume - volume capabilities must be provided in request'')
      else case isValidVolumeCapabilities (CvVolumeCapabilities req) of
        Some st \<Rightarrow> Some st
      | None \<Rightarrow>
          (case scan_parameters (mentries (CvParameters req)) [] of
             Inl st \<Rightarrow> Some st
           | Inr sc \<Rightarrow> if sc = [] then
               Some (Status InvalidArgument (''create volume - parameter '' @ [CHR 0x27] @ ''backend-sc-name''
                 @ [CHR 0x27] @ '' required in Open-CAS storage class''))
             else None))"

definition DeleteVolume_rejects :: "string \<Rightarrow> status option" where
  "DeleteVolume_rejects volId =
     (if volId = [] then Some (Status InvalidArgument ''delete volume - volume ID missing in request'') else None)"

definition ControllerPublishVolume_rejects :: "ControllerPublishVolumeRequest \<Rightarrow> status option" where
  "ControllerPublishVolume_rejects req =
     (if CpVolumeId req = [] then
        Some (Status InvalidArgument ''controller publish volume - volume ID must be provided in request'')
      else if CpNodeId req = [] then
        Some (Status InvalidArgument ''controller publish volume - node ID must be provided in request'')
      else if CpVolumeCapability req = None then
        Some (Status InvalidArgument ''controller publish volume - volume capability must be provided in request'')
      else None)"

definition ControllerUnpublishVolume_rejects :: "ControllerUnpublishVolumeRequest \<Rightarrow> status option" where
  "ControllerUnpublishVolume_rejects req =
     (if CuVolumeId req = [] then
        Some (Status InvalidArgument ''controller unpublish volume - volume ID missing in request'')
      else if CuNodeId req = [] then
        Some (Status InvalidArgument ''controller unpublish volume - node ID must be provided in request'')
      else None)"

interpretation create: guarded_handler "CreateVolume env cs" CreateVolume_rejects
  for env :: "'x env" and cs :: "Config option"
  by unfold_locales (auto simp: CreateVolume_rejects_def CreateVolume_def Let_def
      split: if_splits option.splits sum.splits)

interpretation delete: guarded_handler "DeleteVolume env cs" DeleteVolume_rejects
  for env :: "'x env" and cs :: "Config option"
  by unfold_locales (auto simp: DeleteVolume_rejects_def DeleteVolume_def split: if_splits)

interpretation publish: guarded_handler "ControllerPublishVolume env cs" ControllerPublishVolume_rejects
  for env :: "'x env" and cs :: "Config option"
  by unfold_locales (auto simp: ControllerPublishVolume_rejects_def ControllerPublishVolume_def split: if_splits)

interpretation unpublish: guarded_handler "ControllerUnpublishVolume env cs" ControllerUnpublishVolume_rejects
  for env :: "'x env" and cs :: "Config option"
  by unfold_locales (auto simp: ControllerUnpublishVolume_rejects_def ControllerUnpublishVolume_def split: if_splits)

section \<open>The backend storage class of a request\<close>

text \<open>
  The class a request names: the value of the last parameter of the map, which is its only one
  unless keys differ by case alone.
\<close>

definition backend_sc :: "CreateVolumeRequest \<Rightarrow> string" where
  "backend_sc req = last ([] # map snd (mentries (CvParameters req)))"

lemma CreateVolume_accepts_iff:
  "CreateVolume_rejects req = None \<longleftrightarrow>
     CvName req \<noteq> [] \<and>
     (\<exists>cs. CvVolumeCapabilities req = Some cs \<and> cs \<noteq> [] \<and> (\<forall>c\<in>set cs. c \<noteq> AccessUnset)) \<and>
     (\<forall>(k, v)\<in>set (mentries (CvParameters req)). ToLower k = backendScParam) \<and>
     backend_sc req \<noteq> []"
proof -
  have scan: "(case scan_parameters ps [] of Inl st \<Rightarrow> Some st | Inr sc \<Rightarrow> if sc = [] then Some e else None) = None
      \<longleftrightarrow> (\<forall>(k, v)\<in>set ps. ToLower k = backendScParam) \<and> last ([] # map snd ps) \<noteq> []" for ps and e :: status
  proof (cases "scan_parameters ps []")
    case (Inl st)
    then show ?thesis using scan_parameters_Inl [OF Inl] by auto
  next
    case (Inr sc)
    then show ?thesis using scan_parameters_Inr [of ps "[]" sc] by auto
  qed
  show ?thesis
    using isValidVolumeCapabilities_iff [of "CvVolumeCapabilities req"]
    by (cases "isValidVolumeCapabilities (CvVolumeCapabilities req)";
        cases "CvVolumeCapabilities req") (auto simp: CreateVolume_rejects_def scan backend_sc_def)
qed

definition CreateVolume_claim :: "CreateVolumeRequest \<Rightarrow> PvcConfig" where
  "CreateVolume_claim req =
     \<lparr>ScName = backend_sc req, Params = (if CvParameters req = None then Some [] else CvParameters req),
      PvcName = getPvcNameForPv (CvName req), RequiredBytes = GetRequiredBytes (CvCapacityRange req),
      LimitBytes = GetLimitBytes (CvCapacityRange req)\<rparr>"

definition CreateVolume_response :: "CreateVolumeRequest \<Rightarrow> CreateVolumeResponse" where
  "CreateVolume_response req =
     \<lparr>VolumeId = CvName req, CapacityBytes = GetRequiredBytes (CvCapacityRange req),
      AccessibleTopology = [Some []],
      VolumeContext = (if CvParameters req = None then Some [] else CvParameters req)\<rparr>"

text \<open>What an accepted request does, with the checks out of the way.\<close>

lemma CreateVolume_accepted:
  assumes "CreateVolume_rejects req = None"
  shows "CreateVolume env cs req =
     bnd (lock_key cs (CvName req)) (\<lambda>_.
     bnd (NewK8sUtils env) (\<lambda>err.
     if err \<noteq> None then fail Internal (err_text err)
     else
     bnd (GetScByName env (backend_sc req)) (\<lambda>(scObj, err).
     if err \<noteq> None then
       fail Internal (''create volume - cannot check if backend storage class '' @ fmt_q (backend_sc req) @ '' exists'')
     else if scObj = None then
       fail NotFound (''create volume - backend storage class '' @ fmt_q (backend_sc req) @ '' does not exist'')
     else
     bnd (GetSubproviderPvcByName env (getPvcNameForPv (CvName req))) (\<lambda>(pvc, err).
     if real_error err then
       fail Internal (''create volume - cannot check if PVC '' @ fmt_q (getPvcNameForPv (CvName req)) @ '' exists'')
     else
     bnd (if pvc = None then bnd (CreateSubproviderPvc env (CreateVolume_claim req)) (\<lambda>(_, err). ret err)
          else ret None) (\<lambda>err.
     if err \<noteq> None then
       fail Internal (''create volume - cannot create PVC '' @ fmt_q (getPvcNameForPv (CvName req)) @ '': '' @ err_text err)
     else reply (CreateVolume_response req))))))"
proof -
  obtain caps where ok: "CvName req \<noteq> []" "CvVolumeCapabilities req = Some caps"
      "isValidVolumeCapabilities (Some caps) = None"
    using assms by (auto simp: CreateVolume_rejects_def split: if_splits option.splits)
  obtain sc where sc: "scan_parameters (mentries (CvParameters req)) [] = Inr sc" "sc \<noteq> []"
    using assms by (auto simp: CreateVolume_rejects_def split: if_splits option.splits sum.splits)
  then have "sc = backend_sc req" by (simp add: scan_parameters_Inr backend_sc_def)
  moreover have "mentries (if CvParameters req = None then Some [] else CvParameters req) = mentries (CvParameters req)"
    by simp
  ultimately show ?thesis
    using ok sc unfolding CreateVolume_def Let_def CreateVolume_claim_def CreateVolume_response_def
    by (simp cong: if_cong)
qed

lemma CreateVolume_success:
  assumes "returns (CreateVolume env cs req) w (Inr resp) w'"
  obtains w1 sc w2 pvc err w3 where "cs \<noteq> None" "returns (NewK8sUtils env) w None w1"
    "returns (GetScByName env (backend_sc req)) w1 (Some sc, None) w2"
    "returns (GetSubproviderPvcByName env (getPvcNameForPv (CvName req))) w2 (pvc, err) w3"
    "\<not> real_error err" "resp = CreateVolume_response req"
    "(pvc \<noteq> None \<and> w' = w3) \<or> (pvc = None \<and> (\<exists>p. returns (CreateSubproviderPvc env (CreateVolume_claim req)) w3 (p, None) w'))"
proof -
  have "CreateVolume_rejects req = None" using assms by (rule create.accepted)
  from assms [unfolded CreateVolume_accepted [OF this]] that show ?thesis
    by (cases cs) (fastforce simp: returns_simps)+
qed

lemma CreateSubproviderPvc_spec:
  assumes "pvc_laws env obs" and "returns (CreateSubproviderPvc env config) w (p, err) w'"
  shows "frame obs (protectedNamespace w, PvcName config) (outside w) (outside w')"
    and "err = None \<Longrightarrow> \<exists>got. obs (outside w) (protectedNamespace w, PvcName config) = None \<and>
      obs (outside w') (protectedNamespace w, PvcName config) = Some got \<and>
      pvc_stored (subproviderPvc config (protectedNamespace w)) got"
    and "protectedNamespace w' = protectedNamespace w"
proof -
  from assms(2) obtain p0 x where
    create: "PVCs_Create (kube env) (protectedNamespace w) (subproviderPvc config (protectedNamespace w)) (outside w)
      = ((p0, err), x)" and w': "w' = w\<lparr>outside := x\<rparr>"
    by (auto simp: CreateSubproviderPvc_def returns_simps)
  have name: "Name (PvcMeta (subproviderPvc config ns)) = PvcName config" for ns
    by (simp add: subproviderPvc_def)
  note law = create_lawD [OF assms(1) [unfolded pvc_laws_def] create, unfolded name]
  show "frame obs (protectedNamespace w, PvcName config) (outside w) (outside w')" using law w' by simp
  show "err = None \<Longrightarrow> \<exists>got. obs (outside w) (protectedNamespace w, PvcName config) = None \<and>
      obs (outside w') (protectedNamespace w, PvcName config) = Some got \<and>
      pvc_stored (subproviderPvc config (protectedNamespace w)) got"
    using law w' by simp
  show "protectedNamespace w' = protectedNamespace w" using w' by simp
qed

text \<open>The steps before the claim is looked up only prepare the client.\<close>

lemma prepared:
  assumes "reads_quiet env obs" "returns (NewK8sUtils env) w None w1"
  shows "obs (outside w1) = obs (outside w)" "protectedNamespace w1 = configured_namespace env w"
    "configured_namespace env w1 = configured_namespace env w"
proof -
  show obs: "obs (outside w1) = obs (outside w)"
    using keeps_returns [OF lookups_quiet(1) [OF assms(1)] assms(2)] by (simp add: same_obs_def)
  show ns: "protectedNamespace w1 = configured_namespace env w"
    using NewK8sUtils_configured [OF assms(2)] by blast
  then show "configured_namespace env w1 = configured_namespace env w"
    by (simp add: configured_set)
qed

section \<open>Creating and deleting\<close>

lemma CreateVolume_effect:
  assumes laws: "pvc_laws env obs" and quiet: "reads_quiet env obs"
    and run: "returns (CreateVolume env cs req) w (Inr resp) w'"
    and ns: "ns = configured_namespace env w" and k: "k = (ns, getPvcNameForPv (CvName req))"
  shows "resp = CreateVolume_response req" "protectedNamespace w' = ns" "frame obs k (outside w) (outside w')"
    "(obs (outside w) k \<noteq> None \<and> obs (outside w') = obs (outside w)) \<or>
     (\<exists>pvc. obs (outside w) k = None \<and> obs (outside w') k = Some pvc \<and>
        pvc_stored (subproviderPvc (CreateVolume_claim req) ns) pvc)"
proof -
  from run obtain w1 sc w2 pvc err w3 where new: "returns (NewK8sUtils env) w None w1"
    and sc: "returns (GetScByName env (backend_sc req)) w1 (Some sc, None) w2"
    and get: "returns (GetSubproviderPvcByName env (getPvcNameForPv (CvName req))) w2 (pvc, err) w3"
    and err: "\<not> real_error err" and resp: "resp = CreateVolume_response req"
    and last_step: "(pvc \<noteq> None \<and> w' = w3) \<or>
      (pvc = None \<and> (\<exists>p. returns (CreateSubproviderPvc env (CreateVolume_claim req)) w3 (p, None) w'))"
    by (rule CreateVolume_success)
  have ns2: "protectedNamespace w2 = ns" and obs2: "obs (outside w2) = obs (outside w)"
    using prepared [OF quiet new] lookups_process(3) [OF sc] ns
      keeps_returns [OF lookups_quiet(4) [OF quiet] sc] by (simp_all add: same_obs_def)
  note got = GetSubproviderPvcByName_spec [OF laws get]
  have ns3: "protectedNamespace w3 = ns" and obs3: "obs (outside w3) = obs (outside w)"
    using got(1) ns2 obs2 by auto
  have name: "PvcName (CreateVolume_claim req) = getPvcNameForPv (CvName req)"
    by (simp add: CreateVolume_claim_def)
  show "resp = CreateVolume_response req" by (rule resp)
  have all: "protectedNamespace w' = ns \<and> frame obs k (outside w) (outside w') \<and>
    ((obs (outside w) k \<noteq> None \<and> obs (outside w') = obs (outside w)) \<or>
     (\<exists>pvc. obs (outside w) k = None \<and> obs (outside w') k = Some pvc \<and>
        pvc_stored (subproviderPvc (CreateVolume_claim req) ns) pvc))"
    using last_step
  proof (elim disjE conjE exE)
    assume "pvc \<noteq> None" and "w' = w3"
    then show ?thesis using got(2) ns3 obs3 obs2 ns2 k by (auto simp: frame_def)
  next
    fix p assume "returns (CreateSubproviderPvc env (CreateVolume_claim req)) w3 (p, None) w'"
    from CreateSubproviderPvc_spec [OF laws this] show ?thesis
      using ns3 obs3 k name by (simp add: frame_def)
  qed
  then show "protectedNamespace w' = ns" "frame obs k (outside w) (outside w')"
    "(obs (outside w) k \<noteq> None \<and> obs (outside w') = obs (outside w)) \<or>
     (\<exists>pvc. obs (outside w) k = None \<and> obs (outside w') k = Some pvc \<and>
        pvc_stored (subproviderPvc (CreateVolume_claim req) ns) pvc)" by blast+
qed

text \<open>When the claim is there already, no run of the handler changes a claim, whatever it answers.\<close>

lemma CreateVolume_existing:
  assumes laws: "pvc_laws env obs" and quiet: "reads_quiet env obs"
    and there: "obs (outside w) (configured_namespace env w, getPvcNameForPv (CvName req)) \<noteq> None"
    and run: "returns (CreateVolume env cs req) w r w'"
  shows "obs (outside w') = obs (outside w)"
proof (cases "CreateVolume_rejects req")
  case (Some st)
  then show ?thesis using run create.rejected [OF Some, of env cs w] by (simp add: returns_def)
next
  case None
  have found: "obs (outside w3) = obs (outside w) \<and> (pvc = None \<longrightarrow> real_error err)"
    if new: "returns (NewK8sUtils env) w None w1" and sc: "returns (GetScByName env sc') w1 c w2"
      and get: "returns (GetSubproviderPvcByName env (getPvcNameForPv (CvName req))) w2 (pvc, err) w3"
    for w1 w2 w3 c pvc err sc'
    using prepared [OF quiet new] lookups_process(3) [OF sc] GetSubproviderPvcByName_spec(1,3) [OF laws get]
      keeps_returns [OF lookups_quiet(4) [OF quiet] sc] there
    by (cases pvc; cases "real_error err") (auto simp: same_obs_def)
  have unchanged: "obs (outside w1) = obs (outside w)" if "returns (NewK8sUtils env) w err w1" for err w1
    using keeps_returns [OF lookups_quiet(1) [OF quiet] that] by (simp add: same_obs_def)
  have unchanged2: "obs (outside w2) = obs (outside w1)" if "returns (GetScByName env sc') w1 c w2" for sc' w1 c w2
    using keeps_returns [OF lookups_quiet(4) [OF quiet] that] by (simp add: same_obs_def)
  show ?thesis
    using run None found unchanged unchanged2
    by (cases cs) (fastforce simp: CreateVolume_accepted [OF None] returns_simps)+
qed

lemma DeleteVolume_release:
  "volId \<noteq> [] \<Longrightarrow> DeleteVolume env (Some c) volId =
     bnd (NewK8sUtils env) (\<lambda>err.
     if err \<noteq> None then fail Internal (err_text err)
     else claims.release env
       (\<lambda>err. Status Internal (''delete volume - cannot check if PVC '' @ fmt_q (getPvcNameForPv volId) @ '' exists''))
       (\<lambda>pvc err. Status Internal (''delete volume - cannot delete PVC '' @ fmt_q (Name (PvcMeta pvc))
          @ '', err: '' @ err_text err))
       () (getPvcNameForPv volId))"
  unfolding DeleteVolume_def claims.release_def fail_def reply_def by (simp cong: if_cong)

lemma DeleteVolume_effect:
  assumes laws: "pvc_laws env obs" and quiet: "reads_quiet env obs"
    and run: "returns (DeleteVolume env cs volId) w (Inr u) w'"
  shows "protectedNamespace w' = configured_namespace env w"
    "\<not> claim_present obs w' (getPvcNameForPv volId)"
    "n \<noteq> getPvcNameForPv volId \<Longrightarrow>
       claim_present obs w' n = live PvcMeta (obs (outside w) (configured_namespace env w, n))"
proof -
  have id: "volId \<noteq> []" using delete.accepted [OF run] by (auto simp: DeleteVolume_rejects_def split: if_splits)
  obtain c where c: "cs = Some c" using run id by (cases cs) (simp_all add: DeleteVolume_def)
  obtain cc cd where "DeleteVolume env cs volId = bnd (NewK8sUtils env) (\<lambda>err.
      if err \<noteq> None then fail Internal (err_text err) else claims.release env cc cd () (getPvcNameForPv volId))"
    using DeleteVolume_release [OF id] c by blast
  with run obtain w1 where new: "returns (NewK8sUtils env) w None w1"
    and rel: "returns (claims.release env cc cd () (getPvcNameForPv volId)) w1 (Inr u) w'"
    by (auto simp: returns_simps)
  note ready = prepared [OF quiet new]
  from rel have "protectedNamespace w' = protectedNamespace w1"
  proof (cases rule: claims.release_cases)
    case (removed obj err w2 err')
    then show ?thesis
      using lookups_process(1) [OF removed(1)] DeleteSubproviderPvc_spec(3) [OF laws removed(3)] by simp
  qed (auto dest: lookups_process(1))
  then show "protectedNamespace w' = configured_namespace env w" using ready by simp
  show "\<not> claim_present obs w' (getPvcNameForPv volId)" using claims.release_gone [OF laws rel] .
  assume "n \<noteq> getPvcNameForPv volId"
  then show "claim_present obs w' n = live PvcMeta (obs (outside w) (configured_namespace env w, n))"
    using claims.release_frame [OF laws rel] ready by (simp add: claim_present_def)
qed

section \<open>Publishing and unpublishing\<close>

lemma ControllerUnpublishVolume_release:
  "ControllerUnpublishVolume_rejects req = None \<Longrightarrow> ControllerUnpublishVolume env (Some c) req =
     bnd (NewK8sUtils env) (\<lambda>err.
     if err \<noteq> None then fail Internal (err_text err)
     else
     bnd (ConfiguredProtectedNamespace env) (\<lambda>ns.
     pods.release env ns
       (\<lambda>err. Status Internal (''controller unpublish volume - cannot check if Pod ''
          @ fmt_q (getPodNameForPv (CuVolumeId req) (CuNodeId req)) @ '' exists''))
       (\<lambda>pod err. Status Internal (''controller unpublish volume - cannot delete Pod '' @ fmt_q (Name (PodMeta pod))
          @ '', err: '' @ err_text err))
       () (getPodNameForPv (CuVolumeId req) (CuNodeId req))))"
  unfolding ControllerUnpublishVolume_def ControllerUnpublishVolume_rejects_def pods.release_def fail_def reply_def Let_def
  by (simp cong: if_cong split: if_splits)

lemma ControllerUnpublishVolume_effect:
  assumes laws: "pod_laws env obs" and quiet: "reads_quiet env obs"
    and run: "returns (ControllerUnpublishVolume env cs req) w (Inr u) w'"
    and ns: "ns = configured_namespace env w" and n: "n = getPodNameForPv (CuVolumeId req) (CuNodeId req)"
  shows "\<not> pod_present obs ns w' n"
    "m \<noteq> n \<Longrightarrow> pod_present obs ns w' m = pod_present obs ns w m"
proof -
  have ok: "ControllerUnpublishVolume_rejects req = None" using run by (rule unpublish.accepted)
  obtain c where c: "cs = Some c"
    using run ok by (cases cs)
      (simp_all add: ControllerUnpublishVolume_def ControllerUnpublishVolume_rejects_def split: if_splits)
  obtain cc cd where "ControllerUnpublishVolume env cs req = bnd (NewK8sUtils env) (\<lambda>err.
      if err \<noteq> None then fail Internal (err_text err)
      else bnd (ConfiguredProtectedNamespace env) (\<lambda>ns. pods.release env ns cc cd () n))"
    using ControllerUnpublishVolume_release [OF ok] c n by blast
  with run obtain w1 w2 where new: "returns (NewK8sUtils env) w None w1"
    and w2: "w2 = w1\<lparr>protectedNamespace := configured_namespace env w1\<rparr>"
    and rel: "returns (pods.release env (configured_namespace env w1) cc cd () n) w2 (Inr u) w'"
    by (auto simp: returns_simps)
  note ready = prepared [OF quiet new]
  have rel: "returns (pods.release env ns cc cd () n) w2 (Inr u) w'" using rel ready ns by simp
  show "\<not> pod_present obs ns w' n" using pods.release_gone [OF laws rel] .
  show "m \<noteq> n \<Longrightarrow> pod_present obs ns w' m = pod_present obs ns w m"
    using pods.release_frame [OF laws rel] ready w2 by (simp add: pod_present_def)
qed

text \<open>Waiting for a pod and deleting it do not change the process configuration.\<close>

lemma pod_calls_globals:
  "keeps globals_kept (CreateIntermediatePod env config)" "keeps globals_kept (DeleteIntermediatePod env n ns)"
  "keeps globals_kept (ControllerPublishVolume_pod env config)"
proof -
  show create: "keeps globals_kept (CreateIntermediatePod env config)" for config
    unfolding CreateIntermediatePod_def by (intro keeps_globals)
  show delete: "keeps globals_kept (DeleteIntermediatePod env n ns)" for n ns
    unfolding DeleteIntermediatePod_def by (intro keeps_globals)
  have get: "keeps globals_kept (GetIntermediatePodByName env n ns)" for n ns
    unfolding GetIntermediatePodByName_def by (intro keeps_globals)
  show "keeps globals_kept (ControllerPublishVolume_pod env config)"
    unfolding ControllerPublishVolume_pod_def by (intro keeps_globals get create delete)
qed

text \<open>What the code relies on when it reads a persistent volume.\<close>

definition pv_get_law :: "'x env \<Rightarrow> bool" where
  "pv_get_law env \<longleftrightarrow>
     (\<forall>n x pv x'. PVs_Get (kube env) n x = ((pv, None), x') \<longrightarrow> n \<noteq> [] \<and> Name (PvMeta pv) = n)"

lemma ControllerPublishVolume_success:
  assumes "returns (ControllerPublishVolume env cs req) w (Inr ctx) w'"
  obtains c w1 pvc w2 w3 w4 where "cs = Some c" "returns (NewK8sUtils env) w None w1"
    "returns (GetSubproviderPvcByName env (getPvcNameForPv (CpVolumeId req))) w1 (pvc, None) w2"
    "w3 = w2\<lparr>protectedNamespace := configured_namespace env w2\<rparr>"
    "returns (ControllerPublishVolume_pod env
        \<lparr>PodName = getPodNameForPv (CpVolumeId req) (CpNodeId req), Pvc = pvc,
         CasadmImage = Getenv env CasadmImageEnv, NodeId = CpNodeId req, PodNamespace = configured_namespace env w2\<rparr>)
       w3 None w4"
    "returns (ControllerPublishVolume_bound env (getPvcNameForPv (CpVolumeId req))) w4 (Inr ctx) w'"
proof -
  have "ControllerPublishVolume_rejects req = None" using assms by (rule publish.accepted)
  with assms that show ?thesis
    by (cases cs)
      (auto simp: ControllerPublishVolume_def ControllerPublishVolume_rejects_def Let_def returns_simps
        split: if_splits)
qed

lemma ControllerPublishVolume_bound_spec:
  assumes laws: "pvc_laws env obs" and quiet: "reads_quiet env obs" and pv: "pv_get_law env"
    and run: "returns (ControllerPublishVolume_bound env n) w (Inr ctx) w'"
  shows "\<exists>pvc. obs (outside w') (protectedNamespace w', n) = Some pvc \<and> VolumeName pvc \<noteq> [] \<and>
     ctx = Some [(''backendPvName'', VolumeName pvc)]"
proof -
  from run obtain pvc w1 v where get: "returns (GetSubproviderPvcByName env n) w (Some pvc, None) w1"
    and bound: "VolumeName pvc \<noteq> []" and getpv: "returns (GetPvByName env (VolumeName pvc)) w1 (Some v, None) w'"
    and ctx: "ctx = Some [(''backendPvName'', Name (PvMeta v))]"
    by (auto simp: ControllerPublishVolume_bound_def returns_simps)
  have "Name (PvMeta v) = VolumeName pvc"
    using getpv pv by (auto simp: GetPvByName_def returns_simps pv_get_law_def split: if_splits)
  then show ?thesis
    using GetSubproviderPvcByName_spec(1,2) [OF laws get] bound ctx lookups_process(2) [OF getpv]
      keeps_returns [OF lookups_quiet(3) [OF quiet] getpv]
    by (auto simp: same_obs_def)
qed

lemma ControllerPublishVolume_pod_existing:
  assumes laws: "pod_laws env obs" and run: "returns (ControllerPublishVolume_pod env config) w r w'"
    and there: "obs (outside w) (PodNamespace config, PodName config) \<noteq> None"
  shows "obs (outside w') = obs (outside w) \<and> (r = None \<or> (\<exists>msg. r = Some (Status Internal msg)))"
proof -
  have found: "obs (outside w1) = obs (outside w) \<and> (pod = None \<longrightarrow> real_error err)"
    if get: "returns (GetIntermediatePodByName env (PodName config) (PodNamespace config)) w (pod, err) w1" for pod err w1
    using GetIntermediatePodByName_spec(1,3) [OF laws get] there by (cases pod; cases "real_error err") auto
  show ?thesis
    using run found by (fastforce simp: ControllerPublishVolume_pod_def returns_simps)
qed

section \<open>Panics\<close>

lemma create_no_panic [no_panic_intros]: "no_panic (CreateVolume env (Some c) req)"
proof -
  have [no_panic_intros]: "no_panic (lock_key (Some c) key)" for key by (simp add: no_panic_ret)
  show ?thesis unfolding CreateVolume_def by (intro no_panic_intros)
qed

lemma delete_no_panic [no_panic_intros]: "no_panic (DeleteVolume env (Some c) volId)"
proof -
  have [no_panic_intros]: "no_panic (lock_key (Some c) key)" for key by (simp add: no_panic_ret)
  show ?thesis unfolding DeleteVolume_def by (intro no_panic_intros)
qed

lemma unpublish_no_panic [no_panic_intros]: "no_panic (ControllerUnpublishVolume env (Some c) req)"
proof -
  have [no_panic_intros]: "no_panic (lock_key (Some c) key)" for key by (simp add: no_panic_ret)
  show ?thesis unfolding ControllerUnpublishVolume_def by (intro no_panic_intros)
qed

lemma publish_pod_no_panic [no_panic_intros]: "no_panic (ControllerPublishVolume_pod env config)"
  unfolding ControllerPublishVolume_pod_def by (intro no_panic_intros)

lemma ControllerPublishVolume_no_panic:
  assumes laws: "pvc_laws env obs" and pv: "pv_get_law env"
  shows "no_panic (ControllerPublishVolume env (Some c) req)"
proof -
  have pvc: "pvc \<noteq> None" if "returns (GetSubproviderPvcByName env n) w (pvc, None) w1" for n w pvc w1
    using GetSubproviderPvcByName_spec(4) [OF laws that] by simp
  have pvs: "pv' \<noteq> None" if "returns (GetPvByName env n) w (pv', None) w1" for n w pv' w1
    using that pv by (fastforce simp: GetPvByName_def returns_simps pv_get_law_def split: if_splits)
  have bound: "no_panic (ControllerPublishVolume_bound env n)" for n
    unfolding no_panic_def
  proof
    fix w
    obtain pvc err w1 where get: "returns (GetSubproviderPvcByName env n) w (pvc, err) w1"
      using no_panic_returns [OF lookups_no_panic(1)] by (metis surj_pair)
    show "\<exists>a w'. returns (ControllerPublishVolume_bound env n) w a w'"
    proof (cases "err = None \<and> VolumeName (the pvc) \<noteq> []")
      case True
      then obtain p where p: "pvc = Some p" "err = None" "VolumeName p \<noteq> []" using pvc get by force
      obtain v err2 w2 where getpv: "returns (GetPvByName env (VolumeName p)) w1 (v, err2) w2"
        using no_panic_returns [OF lookups_no_panic(2)] by (metis surj_pair)
      show ?thesis using get getpv p pvs [of "VolumeName p" w1 v w2]
        by (cases err2; cases v) (auto simp: ControllerPublishVolume_bound_def returns_def bnd_Ret)
    next
      case False
      then show ?thesis using get pvc [of n w pvc w1]
        by (cases err; cases pvc) (auto simp: ControllerPublishVolume_bound_def returns_def bnd_Ret)
    qed
  qed
  have [no_panic_intros]: "no_panic (lock_key (Some c) key)" for key by (simp add: no_panic_ret)
  show ?thesis unfolding ControllerPublishVolume_def by (intro no_panic_intros bound)
qed

section \<open>An example\<close>

text \<open>A request, and a cluster with its backend class and one volume bound for another claim.\<close>

definition demo_config :: Config where
  "demo_config = \<lparr>DriverName = ''csi.open-cas.com'', Endpoint = ''unix:///csi.sock'', NodeID = ''node1'',
     VendorVersion = ''v1'', ShowVersion = False, DeviceManager = [], SingleCache = False, StartControllerServer = True, StartNodeServer = False\<rparr>"

definition demo_env :: "mem env" where
  "demo_env = mem_env (\<lambda>_. Exited [] 0)"

definition demo_create :: CreateVolumeRequest where
  "demo_create = \<lparr>CvName = ''pvc-1'', CvVolumeCapabilities = Some [AccessBlock],
     CvParameters = Some [(''Backend-SC-Name'', ''fast'')],
     CvCapacityRange = Some \<lparr>CapRequired = 1024, CapLimit = 0\<rparr>\<rparr>"

definition demo_world :: "mem world" where
  "demo_world = \<lparr>kubeletDir = [], protectedNamespace = [],
     outside = \<lparr>MemClaims = [((''opencas-csi-protected'', ''opencas-csi-pvc-0''),
          PersistentVolumeClaim_zero\<lparr>PvcMeta := ObjectMeta_zero\<lparr>Name := ''opencas-csi-pvc-0'',
             Namespace := ''opencas-csi-protected'', Labels := Some [(Label, [])]\<rparr>, VolumeName := ''pv-0''\<rparr>)],
        MemPods = [], MemClasses = [''fast''], MemVolumes = [''pv-0''], MemNodes = [], MemCaches = [],
        MemPaths = [], MemMounts = [], MemLast = [], MemFinalizers = []\<rparr>\<rparr>"

definition demo_created :: "mem world" where
  "demo_created = snd (CreateVolume demo_env (Some demo_config) demo_create demo_world)"

definition demo_publish :: ControllerPublishVolumeRequest where
  "demo_publish = \<lparr>CpVolumeId = ''pvc-0'', CpNodeId = ''node1'', CpVolumeCapability = Some AccessBlock\<rparr>"

definition demo_published :: "mem world" where
  "demo_published = snd (ControllerPublishVolume demo_env (Some demo_config) demo_publish demo_world)"

definition demo_unpublish :: ControllerUnpublishVolumeRequest where
  "demo_unpublish = \<lparr>CuVolumeId = ''pvc-0'', CuNodeId = ''node1''\<rparr>"

definition demo_deleted :: "mem world" where
  "demo_deleted = snd (DeleteVolume demo_env (Some demo_config) ''pvc-1'' demo_created)"

definition demo_unpublished :: "mem world" where
  "demo_unpublished = snd (ControllerUnpublishVolume demo_env (Some demo_config) demo_unpublish demo_published)"

lemma demo_create_run:
  "returns (CreateVolume demo_env (Some demo_config) demo_create) demo_world
     (Inr (CreateVolume_response demo_create)) demo_created"
  unfolding demo_created_def by (rule returns_snd) code_simp

lemma demo_create_again_run:
  "returns (CreateVolume demo_env (Some demo_config) demo_create) demo_created
     (Inr (CreateVolume_response demo_create))
     (snd (CreateVolume demo_env (Some demo_config) demo_create demo_created))"
  by (rule returns_snd) code_simp

lemma demo_delete_run:
  "returns (DeleteVolume demo_env (Some demo_config) ''pvc-1'') demo_created (Inr ()) demo_deleted"
  unfolding demo_deleted_def by (rule returns_snd) code_simp

lemma demo_publish_run:
  "returns (ControllerPublishVolume demo_env (Some demo_config) demo_publish) demo_world
     (Inr (Some [(''backendPvName'', ''pv-0'')])) demo_published"
  unfolding demo_published_def by (rule returns_snd) code_simp

lemma demo_publish_again_run:
  "returns (ControllerPublishVolume demo_env (Some demo_config) demo_publish) demo_published
     (Inr (Some [(''backendPvName'', ''pv-0'')]))
     (snd (ControllerPublishVolume demo_env (Some demo_config) demo_publish demo_published))"
  by (rule returns_snd) code_simp

lemma demo_unpublish_run:
  "returns (ControllerUnpublishVolume demo_env (Some demo_config) demo_unpublish) demo_published (Inr ())
     demo_unpublished"
  unfolding demo_unpublished_def by (rule returns_snd) code_simp

lemma demo_laws:
  "pvc_laws demo_env mem_claims" "pod_laws demo_env mem_pods" "reads_quiet demo_env obs" "pv_get_law demo_env"
proof -
  show "pvc_laws demo_env mem_claims" "pod_laws demo_env mem_pods" "reads_quiet demo_env obs"
    by (simp_all add: demo_env_def mem_pvc_laws mem_pod_laws mem_quiet)
  show "pv_get_law demo_env"
    by (auto simp: pv_get_law_def demo_env_def mem_env_def mem_kube_def named_def)
qed

section \<open>Properties of the controller service\<close>

text \<open>
  C5: A successful \<^verbatim>\<open>CreateVolume\<close> for a volume that has no claim adds exactly one claim to those of the
  cluster: in the protected namespace under the name of the volume, not being deleted, with the protection label, asking for
  a block volume that one node may write, of the backend class the request named, with the requested and the
  limit size, each only if it is positive. For a volume that has a claim, whatever its label, class or state, success
  means that all claims are left exactly as they were. The answer names the requested volume and size.
\<close>

theorem CreateVolume_provisions:
  assumes "pvc_laws env obs" "reads_quiet env obs"
    and "returns (CreateVolume env cs req) w (Inr resp) w'"
    and "k = (configured_namespace env w, getPvcNameForPv (CvName req))"
    and "required = GetRequiredBytes (CvCapacityRange req)" "limit = GetLimitBytes (CvCapacityRange req)"
  shows "VolumeId resp = CvName req \<and> CapacityBytes resp = required \<and>
    (obs (outside w) k \<noteq> None \<longrightarrow> obs (outside w') = obs (outside w)) \<and>
    (obs (outside w) k = None \<longrightarrow>
      (\<exists>pvc. obs (outside w') = (obs (outside w))(k \<mapsto> pvc) \<and>
        Name (PvcMeta pvc) = snd k \<and> DeletionTimestamp (PvcMeta pvc) = None \<and> Labels (PvcMeta pvc) = Some [(Label, [])] \<and>
        AccessModes pvc = [''ReadWriteOnce''] \<and> VolumeMode pvc = Some ''Block'' \<and>
        StorageClassName pvc = Some (backend_sc req) \<and>
        Requests pvc = (if 0 < required then Some [(''storage'', required)] else None) \<and>
        Limits pvc = (if 0 < limit then Some [(''storage'', limit)] else None)))"
proof -
  note effect = CreateVolume_effect [OF assms(1-3) refl assms(4)]
  have stored: "pvc_stored (subproviderPvc (CreateVolume_claim req) ns) pvc \<longleftrightarrow>
      Name (PvcMeta pvc) = getPvcNameForPv (CvName req) \<and> DeletionTimestamp (PvcMeta pvc) = None \<and>
      Labels (PvcMeta pvc) = Some [(Label, [])] \<and>
      AccessModes pvc = [''ReadWriteOnce''] \<and> VolumeMode pvc = Some ''Block'' \<and>
      StorageClassName pvc = Some (backend_sc req) \<and>
      Requests pvc = (if 0 < required then Some [(''storage'', required)] else None) \<and>
      Limits pvc = (if 0 < limit then Some [(''storage'', limit)] else None)" for ns pvc
    using assms(5,6)
    by (auto simp: pvc_stored_def subproviderPvc_def getSubProviderPvcSpec_def CreateVolume_claim_def)
  have added: "obs (outside w') = (obs (outside w))(k \<mapsto> pvc)" if "obs (outside w') k = Some pvc" for pvc
    using that effect(3) by (auto simp: fun_eq_iff frame_def)
  show ?thesis
    using effect(1,4) added assms(4,5) unfolding stored by (auto simp: CreateVolume_response_def)
qed

theorem CreateVolume_provisions_witness:
  "mem_claims (outside demo_world) (''opencas-csi-protected'', ''opencas-csi-pvc-1'') = None \<and>
   (\<exists>pvc. mem_claims (outside demo_created) (''opencas-csi-protected'', ''opencas-csi-pvc-1'') = Some pvc \<and>
     StorageClassName pvc = Some ''fast'' \<and> Labels (PvcMeta pvc) = Some [(Label, [])] \<and>
     AccessModes pvc = [''ReadWriteOnce''] \<and> VolumeMode pvc = Some ''Block'')"
proof -
  have key: "(''opencas-csi-protected'', ''opencas-csi-pvc-1'') =
      (configured_namespace demo_env demo_world, getPvcNameForPv (CvName demo_create))"
    by code_simp
  have "backend_sc demo_create = ''fast''" by code_simp
  moreover have absent: "mem_claims (outside demo_world) (''opencas-csi-protected'', ''opencas-csi-pvc-1'') = None"
    by code_simp
  ultimately show ?thesis
    using CreateVolume_provisions [OF demo_laws(1,3) demo_create_run key refl refl] by auto
qed

text \<open>
  C21: \<^verbatim>\<open>CreateVolume\<close> is idempotent: repeated after a success, the same request finds the claim it
  made, changes no claim whatever it answers, and if it succeeds gives the same answer.
\<close>

theorem CreateVolume_idempotent:
  assumes "pvc_laws env obs" "reads_quiet env obs"
    and "returns (CreateVolume env cs req) w (Inr resp) w1"
    and "returns (CreateVolume env cs' req) w1 r w2"
  shows "obs (outside w2) = obs (outside w1) \<and> (\<forall>resp'. r = Inr resp' \<longrightarrow> resp' = resp)"
proof
  note first = CreateVolume_effect [OF assms(1-3) refl refl]
  have "configured_namespace env w1 = configured_namespace env w"
    using first(2) by (simp add: configured_set)
  then have "obs (outside w1) (configured_namespace env w1, getPvcNameForPv (CvName req)) \<noteq> None"
    using first(4) by auto
  then show "obs (outside w2) = obs (outside w1)" by (rule CreateVolume_existing [OF assms(1,2) _ assms(4)])
  show "\<forall>resp'. r = Inr resp' \<longrightarrow> resp' = resp"
    using CreateVolume_effect(1) [OF assms(1,2) _ refl refl] assms(3,4) by blast
qed

theorem CreateVolume_idempotent_witness:
  "mem_claims (outside (snd (CreateVolume demo_env (Some demo_config) demo_create demo_created))) =
     mem_claims (outside demo_created)"
  using CreateVolume_idempotent [OF demo_laws(1,3) demo_create_run demo_create_again_run] by blast

text \<open>What the request says about itself, by its fields.\<close>

definition well_formed_request :: "CreateVolumeRequest \<Rightarrow> bool" where
  "well_formed_request req \<longleftrightarrow>
     CvName req \<noteq> [] \<and>
     (case CvVolumeCapabilities req of None \<Rightarrow> False | Some caps \<Rightarrow> caps \<noteq> [] \<and> AccessUnset \<notin> set caps) \<and>
     list_all (\<lambda>(k, v). ToLower k = ''backend-sc-name'') (mentries (CvParameters req)) \<and>
     last ([] # map snd (mentries (CvParameters req))) \<noteq> []"

lemma well_formed_accepted: "well_formed_request req \<longleftrightarrow> CreateVolume_rejects req = None"
  unfolding CreateVolume_accepts_iff well_formed_request_def
  by (auto simp: list_all_iff split_beta backendScParam_def backend_sc_def split: option.split)

lemma CreateVolume_rejected_status:
  assumes "CreateVolume_rejects req = Some st"
  obtains msg where "st = Status InvalidArgument msg"
proof -
  have "status_code st = InvalidArgument"
    using assms scan_parameters_Inl
    by (fastforce simp: CreateVolume_rejects_def isValidVolumeCapabilities_def Let_def
        split: if_splits option.splits sum.splits)
  then show ?thesis using that by (cases st) auto
qed

text \<open>
  C22: \<^verbatim>\<open>CreateVolume\<close> answers \<^verbatim>\<open>InvalidArgument\<close> to exactly the requests that are not well formed: a
  well-formed one has a name, at least one capability, an access type in every capability, no parameter but the
  backend class (in any case) and a backend class that is not empty. In a sequence of requests those that are
  not well formed can be left out: they have no effect, even without a configured service.
\<close>

theorem CreateVolume_validation:
  "((\<exists>msg w'. CreateVolume env cs req w = (Ret (Inl (Status InvalidArgument msg)), w')) \<longleftrightarrow> \<not> well_formed_request req) \<and>
   (well_formed_request req \<or> snd (CreateVolume env cs req w) = w) \<and>
   create.serve env cs (filter well_formed_request reqs) w = create.serve env cs reqs w"
proof (intro conjI)
  have rejected: "\<exists>msg. CreateVolume env cs req w = (Ret (Inl (Status InvalidArgument msg)), w)" if bad: "\<not> well_formed_request req"
  proof -
    obtain st where st: "CreateVolume_rejects req = Some st" using bad by (cases "CreateVolume_rejects req") (auto simp: well_formed_accepted)
    then show ?thesis using create.rejected [OF st] CreateVolume_rejected_status [OF st] by metis
  qed
  have "r \<noteq> Inl (Status InvalidArgument msg)"
    if "well_formed_request req" "returns (CreateVolume env cs req) w r w'" for r msg w'
    using that(2) unfolding CreateVolume_accepted [OF that(1) [unfolded well_formed_accepted]]
    by (cases cs) (fastforce simp: returns_simps)+
  then show "(\<exists>msg w'. CreateVolume env cs req w = (Ret (Inl (Status InvalidArgument msg)), w')) \<longleftrightarrow> \<not> well_formed_request req"
    using rejected unfolding returns_def by blast
  show "well_formed_request req \<or> snd (CreateVolume env cs req w) = w" using rejected by fastforce
  have "well_formed_request = (\<lambda>r. CreateVolume_rejects r = None)" by (simp add: fun_eq_iff well_formed_accepted)
  then show "create.serve env cs (filter well_formed_request reqs) w = create.serve env cs reqs w"
    using create.serve_filter [of env cs reqs w] by simp
qed

text \<open>
  C6: After a successful \<^verbatim>\<open>DeleteVolume\<close> there is no live claim for the volume in the protected
  namespace, and the claims of all other volumes are as live as before.
\<close>

theorem DeleteVolume_removes:
  assumes "pvc_laws env obs" "reads_quiet env obs"
    and "returns (DeleteVolume env cs volId) w (Inr u) w'"
    and "ns = configured_namespace env w"
  shows "\<not> live PvcMeta (obs (outside w') (ns, getPvcNameForPv volId)) \<and>
    (\<forall>other. other = volId \<or> live PvcMeta (obs (outside w') (ns, getPvcNameForPv other)) =
       live PvcMeta (obs (outside w) (ns, getPvcNameForPv other)))"
  using DeleteVolume_effect [OF assms(1-3)] assms(4)
  by (auto simp: claim_present_def getPvcNameForPv_inj)

theorem DeleteVolume_removes_witness:
  "live PvcMeta (mem_claims (outside demo_created) (''opencas-csi-protected'', ''opencas-csi-pvc-1'')) \<and>
   \<not> live PvcMeta (mem_claims (outside demo_deleted) (''opencas-csi-protected'', ''opencas-csi-pvc-1''))"
proof
  have ns: "''opencas-csi-protected'' = configured_namespace demo_env demo_created" by code_simp
  have "getPvcNameForPv ''pvc-1'' = ''opencas-csi-pvc-1''" by code_simp
  then show "\<not> live PvcMeta (mem_claims (outside demo_deleted) (''opencas-csi-protected'', ''opencas-csi-pvc-1''))"
    using DeleteVolume_removes [OF demo_laws(1,3) demo_delete_run ns] by auto
  have "map_option (\<lambda>p. DeletionTimestamp (PvcMeta p))
      (mem_claims (outside demo_created) (''opencas-csi-protected'', ''opencas-csi-pvc-1'')) = Some None"
    by code_simp
  then show "live PvcMeta (mem_claims (outside demo_created) (''opencas-csi-protected'', ''opencas-csi-pvc-1''))"
    by (auto simp: live_def)
qed

text \<open>
  Creating a volume and deleting it again leaves the protected namespace with the live claims
  it had, except for the claim of that volume, which is gone.
\<close>

theorem create_delete_roundtrip:
  assumes "pvc_laws env obs" "reads_quiet env obs"
    and "returns (CreateVolume env cs req) w (Inr resp) w1"
    and "returns (DeleteVolume env cs' (VolumeId resp)) w1 (Inr u) w2"
    and "ns = configured_namespace env w"
  shows "live PvcMeta (obs (outside w2) (ns, n)) =
    (n \<noteq> getPvcNameForPv (CvName req) \<and> live PvcMeta (obs (outside w) (ns, n)))"
proof -
  note created = CreateVolume_effect [OF assms(1-3,5) refl]
  have id: "VolumeId resp = CvName req" using created(1) by (simp add: CreateVolume_response_def)
  have ns1: "configured_namespace env w1 = ns" using created(2) assms(5) by (simp add: configured_set)
  note deleted = DeleteVolume_effect [OF assms(1,2,4), unfolded id ns1]
  show ?thesis
  proof (cases "n = getPvcNameForPv (CvName req)")
    case True
    then show ?thesis using deleted(1,2) by (simp add: claim_present_def)
  next
    case False
    then show ?thesis using deleted(1,3) created(3) by (simp add: claim_present_def frame_def)
  qed
qed

theorem create_delete_roundtrip_witness:
  "live PvcMeta (mem_claims (outside demo_deleted) (''opencas-csi-protected'', ''opencas-csi-pvc-0''))"
proof -
  have ns: "''opencas-csi-protected'' = configured_namespace demo_env demo_world" by code_simp
  have id: "''pvc-1'' = VolumeId (CreateVolume_response demo_create)" by code_simp
  have "map_option (\<lambda>p. DeletionTimestamp (PvcMeta p))
      (mem_claims (outside demo_world) (''opencas-csi-protected'', ''opencas-csi-pvc-0'')) = Some None"
    by code_simp
  moreover have "''opencas-csi-pvc-0'' \<noteq> getPvcNameForPv (CvName demo_create)" by code_simp
  ultimately show ?thesis
    using create_delete_roundtrip [OF demo_laws(1,3) demo_create_run demo_delete_run [unfolded id] ns]
    by (auto simp: live_def)
qed

text \<open>
  C16: A successful \<^verbatim>\<open>ControllerPublishVolume\<close> answers with exactly one entry of the publish context:
  under \<^verbatim>\<open>backendPvName\<close>, the name of the persistent volume the claim of the requested volume is
  bound to in the protected namespace when the handler returns.
\<close>

theorem ControllerPublishVolume_context:
  assumes laws: "pvc_laws env obs" and quiet: "reads_quiet env obs" and pv: "pv_get_law env"
    and run: "returns (ControllerPublishVolume env cs req) w (Inr ctx) w'"
  shows "\<exists>pvc. obs (outside w') (configured_namespace env w, getPvcNameForPv (CpVolumeId req)) = Some pvc \<and>
    VolumeName pvc \<noteq> [] \<and> ctx = Some [(''backendPvName'', VolumeName pvc)]"
proof -
  from run obtain c w1 pvc w2 w3 w4 config where new: "returns (NewK8sUtils env) w None w1"
    and get: "returns (GetSubproviderPvcByName env (getPvcNameForPv (CpVolumeId req))) w1 (pvc, None) w2"
    and w3: "w3 = w2\<lparr>protectedNamespace := configured_namespace env w2\<rparr>"
    and pod: "returns (ControllerPublishVolume_pod env config) w3 None w4"
    and bound: "returns (ControllerPublishVolume_bound env (getPvcNameForPv (CpVolumeId req))) w4 (Inr ctx) w'"
    by (rule ControllerPublishVolume_success) blast
  have ns3: "protectedNamespace w3 = configured_namespace env w"
    using prepared(2) [OF quiet new] lookups_process(1) [OF get] w3 by (simp add: configured_set)
  then have "protectedNamespace w4 = configured_namespace env w"
    using keeps_returns [OF pod_calls_globals(3) pod] by (simp add: globals_kept_def)
  moreover have "globals_kept w4 w'"
    using bound by (auto simp: ControllerPublishVolume_bound_def returns_simps globals_kept_def
        dest!: lookups_process)
  ultimately have "protectedNamespace w' = configured_namespace env w" by (simp add: globals_kept_def)
  then show ?thesis using ControllerPublishVolume_bound_spec [OF laws quiet pv bound] by simp
qed

theorem ControllerPublishVolume_context_witness:
  "\<exists>pvc. mem_claims (outside demo_published) (''opencas-csi-protected'', ''opencas-csi-pvc-0'') = Some pvc \<and>
     VolumeName pvc = ''pv-0''"
proof -
  have key: "configured_namespace demo_env demo_world = ''opencas-csi-protected''"
    "getPvcNameForPv (CpVolumeId demo_publish) = ''opencas-csi-pvc-0''" by code_simp+
  show ?thesis
    using ControllerPublishVolume_context [OF demo_laws(1,3,4) demo_publish_run] unfolding key by auto
qed

lemma ControllerPublishVolume_keeps_pods:
  assumes laws: "pod_laws env obs" and quiet: "reads_quiet env obs"
    and there: "obs (outside w) (configured_namespace env w, getPodNameForPv (CpVolumeId req) (CpNodeId req)) \<noteq> None"
    and run: "returns (ControllerPublishVolume env cs req) w r w'"
  shows "obs (outside w') = obs (outside w)"
proof (cases "ControllerPublishVolume_rejects req")
  case (Some st)
  then show ?thesis using run publish.rejected [OF Some, of env cs w] by (simp add: returns_def)
next
  case None
  have new: "obs (outside w1) = obs (outside w)" if "returns (NewK8sUtils env) w err w1" for err w1
    using keeps_returns [OF lookups_quiet(1) [OF quiet] that] by (simp add: same_obs_def)
  have get: "obs (outside w2) = obs (outside w1)" if "returns (GetSubproviderPvcByName env n) w1 a w2" for n w1 a w2
    using keeps_returns [OF lookups_quiet(2) [OF quiet] that] by (simp add: same_obs_def)
  have pod: "obs (outside w4) = obs (outside w)"
    if "returns (NewK8sUtils env) w None w1" "returns (GetSubproviderPvcByName env n) w1 a w2"
      "returns (ControllerPublishVolume_pod env config) (w2\<lparr>protectedNamespace := configured_namespace env w2\<rparr>) st w4"
      "PodNamespace config = configured_namespace env w2"
      "PodName config = getPodNameForPv (CpVolumeId req) (CpNodeId req)" for w1 n a w2 config st w4
  proof -
    have "protectedNamespace w2 = configured_namespace env w"
      using prepared(2) [OF quiet that(1)] lookups_process(1) [OF that(2)] by simp
    then have "configured_namespace env w2 = configured_namespace env w" by (simp add: configured_set)
    then show ?thesis
      using ControllerPublishVolume_pod_existing [OF laws that(3)] there new [OF that(1)] get [OF that(2)] that(4,5)
      by simp
  qed
  have bound: "obs (outside w5) = obs (outside w4)"
    if "returns (ControllerPublishVolume_bound env n) w4 a w5" for n w4 a w5
  proof -
    have "keeps (same_obs obs) (ControllerPublishVolume_bound env n)"
      unfolding ControllerPublishVolume_bound_def fail_def reply_def
      by (intro keeps_obs lookups_quiet [OF quiet])
    then show ?thesis using keeps_returns that by (force simp: same_obs_def)
  qed
  show ?thesis
    using run None
    by (cases cs)
      (auto simp: ControllerPublishVolume_def ControllerPublishVolume_rejects_def Let_def returns_simps new
        get bound pod split: if_splits)
qed

text \<open>
  Publishing a volume again to a node that has its intermediate pod starts no second pod and
  leaves every pod as it is, whatever the handler answers.
\<close>

theorem ControllerPublishVolume_repeated:
  assumes "pod_laws env obs" "reads_quiet env obs"
    and "obs (outside w) (configured_namespace env w, getPodNameForPv (CpVolumeId req) (CpNodeId req)) \<noteq> None"
    and "returns (ControllerPublishVolume env cs req) w r w'"
  shows "obs (outside w') = obs (outside w)"
  using ControllerPublishVolume_keeps_pods assms by blast

theorem ControllerPublishVolume_repeated_witness:
  "mem_pods (outside (snd (ControllerPublishVolume demo_env (Some demo_config) demo_publish demo_published))) =
     mem_pods (outside demo_published)"
proof -
  have "mem_pods (outside demo_published) (configured_namespace demo_env demo_published,
      getPodNameForPv (CpVolumeId demo_publish) (CpNodeId demo_publish)) \<noteq> None"
    by code_simp
  then show ?thesis
    using ControllerPublishVolume_repeated [OF demo_laws(2,3) _ demo_publish_again_run] by blast
qed

text \<open>
  C23: After a successful \<^verbatim>\<open>ControllerUnpublishVolume\<close> there is no live intermediate pod for the volume
  on the node, and every other pod of the protected namespace is as live as before.
\<close>

theorem ControllerUnpublishVolume_removes:
  assumes "pod_laws env obs" "reads_quiet env obs"
    and "returns (ControllerUnpublishVolume env cs req) w (Inr u) w'"
    and "ns = configured_namespace env w" and "n = getPodNameForPv (CuVolumeId req) (CuNodeId req)"
  shows "live PodMeta (obs (outside w') (ns, m)) = (m \<noteq> n \<and> live PodMeta (obs (outside w) (ns, m)))"
  using ControllerUnpublishVolume_effect(1) [OF assms] ControllerUnpublishVolume_effect(2) [OF assms, of m] by (cases "m = n") (auto simp: pod_present_def)

theorem ControllerUnpublishVolume_removes_witness:
  "live PodMeta (mem_pods (outside demo_published) (''opencas-csi-protected'', ''node1-pvc-0'')) \<and>
   \<not> live PodMeta (mem_pods (outside demo_unpublished) (''opencas-csi-protected'', ''node1-pvc-0''))"
proof
  have ns: "''opencas-csi-protected'' = configured_namespace demo_env demo_published" by code_simp
  have n: "''node1-pvc-0'' = getPodNameForPv (CuVolumeId demo_unpublish) (CuNodeId demo_unpublish)" by code_simp
  show "\<not> live PodMeta (mem_pods (outside demo_unpublished) (''opencas-csi-protected'', ''node1-pvc-0''))"
    using ControllerUnpublishVolume_removes [OF demo_laws(2,3) demo_unpublish_run ns n] by simp
  have "map_option (\<lambda>p. DeletionTimestamp (PodMeta p))
      (mem_pods (outside demo_published) (''opencas-csi-protected'', ''node1-pvc-0'')) = Some None"
    by code_simp
  then show "live PodMeta (mem_pods (outside demo_published) (''opencas-csi-protected'', ''node1-pvc-0''))"
    by (auto simp: live_def)
qed

text \<open>
  C29: Every handler of a configured controller service returns: none of them panics in any world,
  provided, for \<^verbatim>\<open>ControllerPublishVolume\<close>, that the API server returns an object when it returns no
  error. On a plugin without a configured controller service, each of them panics on every request
  that passes its checks.
\<close>

theorem controller_panics:
  assumes "pvc_laws env obs" and "pv_get_law env"
  shows "(\<exists>r w'. returns (CreateVolume env (Some c) creq) w r w') \<and>
    (\<exists>r w'. returns (DeleteVolume env (Some c) volId) w r w') \<and>
    (\<exists>r w'. returns (ControllerPublishVolume env (Some c) preq) w r w') \<and>
    (\<exists>r w'. returns (ControllerUnpublishVolume env (Some c) ureq) w r w') \<and>
    (CreateVolume_rejects creq \<noteq> None \<or> CreateVolume env None creq w = (Panic NilDereference, w)) \<and>
    (volId = [] \<or> DeleteVolume env None volId w = (Panic NilDereference, w)) \<and>
    (ControllerPublishVolume_rejects preq \<noteq> None \<or> ControllerPublishVolume env None preq w = (Panic NilDereference, w)) \<and>
    (ControllerUnpublishVolume_rejects ureq \<noteq> None \<or> ControllerUnpublishVolume env None ureq w = (Panic NilDereference, w))"
proof (intro conjI)
  show "\<exists>r w'. returns (CreateVolume env (Some c) creq) w r w'" "\<exists>r w'. returns (DeleteVolume env (Some c) volId) w r w'"
    "\<exists>r w'. returns (ControllerPublishVolume env (Some c) preq) w r w'"
    "\<exists>r w'. returns (ControllerUnpublishVolume env (Some c) ureq) w r w'"
    using create_no_panic delete_no_panic ControllerPublishVolume_no_panic [OF assms] unpublish_no_panic
    by (auto intro!: no_panic_returns)
  show "CreateVolume_rejects creq \<noteq> None \<or> CreateVolume env None creq w = (Panic NilDereference, w)"
    using CreateVolume_accepted [of creq env None] by (cases "CreateVolume_rejects creq") auto
  show "volId = [] \<or> DeleteVolume env None volId w = (Panic NilDereference, w)"
    by (simp add: DeleteVolume_def)
  show "ControllerPublishVolume_rejects preq \<noteq> None \<or> ControllerPublishVolume env None preq w = (Panic NilDereference, w)"
    "ControllerUnpublishVolume_rejects ureq \<noteq> None \<or> ControllerUnpublishVolume env None ureq w = (Panic NilDereference, w)"
    by (auto simp: ControllerPublishVolume_def ControllerPublishVolume_rejects_def ControllerUnpublishVolume_def
        ControllerUnpublishVolume_rejects_def)
qed

theorem controller_panics_witness:
  "\<exists>r w'. returns (ControllerPublishVolume demo_env (Some demo_config) demo_publish) demo_world r w'"
  using controller_panics [OF demo_laws(1,4)] by blast

text \<open>
  \<open>classes\<close> is the set of the storage classes of the cluster: the API server returns one of them under its name, and
  an error for any other name.
\<close>

definition sc_get_law :: "'x env \<Rightarrow> ('x \<Rightarrow> string set) \<Rightarrow> bool" where
  "sc_get_law env classes \<longleftrightarrow>
     (\<forall>n x sc x'. SCs_Get (kube env) n x = ((sc, None), x') \<longrightarrow> n \<in> classes x \<and> n \<noteq> [] \<and> Name (ScMeta sc) = n)"

text \<open>
  C32: When the cluster has no class of the name that a well-formed request gives, \<^verbatim>\<open>CreateVolume\<close> of a
  configured service answers \<^verbatim>\<open>Internal\<close> and creates no claim; once the client could be set up, the answer says that
  the class cannot be checked. It never answers \<^verbatim>\<open>NotFound\<close>: the \<^verbatim>\<open>Get\<close> of a missing
  class returns an error, the branch for errors comes first, and the branch written for a class that
  does not exist is not reached.
\<close>

theorem CreateVolume_missing_class:
  assumes law: "sc_get_law env classes" and quiet: "reads_quiet env classes" "reads_quiet env obs"
    and run: "returns (CreateVolume env (Some c) req) w r w'"
  shows "r \<noteq> Inl (Status NotFound msg) \<and>
    (well_formed_request req \<and> backend_sc req \<notin> classes (outside w) \<longrightarrow>
       obs (outside w') = obs (outside w) \<and> (\<exists>m. r = Inl (Status Internal m)) \<and>
       (\<forall>w1. returns (NewK8sUtils env) w None w1 \<longrightarrow>
          r = Inl (Status Internal (''create volume - cannot check if backend storage class ''
                @ fmt_q (backend_sc req) @ '' exists''))))"
proof (cases "CreateVolume_rejects req")
  case (Some st)
  then show ?thesis
    using run create.rejected [OF Some, of env "Some c" w]
    by (auto simp: returns_def well_formed_accepted elim: CreateVolume_rejected_status)
next
  case None
  have got: "sc \<noteq> None \<and> n \<in> classes (outside w1)" if "returns (GetScByName env n) w1 (sc, None) w2" for n w1 sc w2
    using that law by (fastforce simp: GetScByName_def returns_simps sc_get_law_def split: if_splits)
  have new: "classes (outside w1) = classes (outside w) \<and> obs (outside w1) = obs (outside w)"
    if "returns (NewK8sUtils env) w err w1" for err w1
    using keeps_returns [OF lookups_quiet(1) [OF quiet(1)] that] keeps_returns [OF lookups_quiet(1) [OF quiet(2)] that]
    by (simp add: same_obs_def)
  have same: "obs (outside w2) = obs (outside w1)" if "returns (GetScByName env n) w1 a w2" for n w1 a w2
    using keeps_returns [OF lookups_quiet(4) [OF quiet(2)] that] by (simp add: same_obs_def)
  define message where "message = ''create volume - cannot check if backend storage class '' @ fmt_q (backend_sc req) @ '' exists''"
  note run' = run [unfolded CreateVolume_accepted [OF None], folded message_def]
  have "r \<noteq> Inl (Status NotFound msg)"
    using run' got by (fastforce simp: returns_simps)
  moreover have "obs (outside w') = obs (outside w) \<and> (\<exists>m. r = Inl (Status Internal m)) \<and>
       (\<forall>w1. returns (NewK8sUtils env) w None w1 \<longrightarrow> r = Inl (Status Internal message))"
    if missing: "backend_sc req \<notin> classes (outside w)"
  proof -
    from run' obtain err w1 where client: "returns (NewK8sUtils env) w err w1"
      and rest: "(err \<noteq> None \<and> w' = w1 \<and> r = Inl (Status Internal (err_text err))) \<or>
        (err = None \<and> (\<exists>sc e w2. returns (GetScByName env (backend_sc req)) w1 (sc, e) w2 \<and>
          (e \<noteq> None \<longrightarrow> w' = w2 \<and> r = Inl (Status Internal message))))"
      by (cases "fst (NewK8sUtils env w)") (fastforce simp: returns_simps split: if_splits)+
    from rest show ?thesis
    proof (elim disjE conjE exE)
      assume "err \<noteq> None" "w' = w1" "r = Inl (Status Internal (err_text err))"
      then show ?thesis using new [OF client] client by (auto simp: returns_def)
    next
      fix sc e w2
      assume "returns (GetScByName env (backend_sc req)) w1 (sc, e) w2"
        and "e \<noteq> None \<longrightarrow> w' = w2 \<and> r = Inl (Status Internal message)"
      then show ?thesis using new [OF client] same got missing by (cases e) fastforce+
    qed
  qed
  ultimately show ?thesis unfolding message_def [symmetric] by (simp add: well_formed_accepted)
qed

definition slow_create :: CreateVolumeRequest where
  "slow_create = demo_create\<lparr>CvParameters := Some [(''backend-sc-name'', ''slow'')]\<rparr>"

theorem CreateVolume_missing_class_witness:
  "\<exists>m w'. returns (CreateVolume demo_env (Some demo_config) slow_create) demo_world (Inl (Status Internal m)) w' \<and>
     mem_claims (outside w') = mem_claims (outside demo_world)"
proof -
  have law: "sc_get_law demo_env (\<lambda>x. set (MemClasses x))"
    by (auto simp: sc_get_law_def demo_env_def mem_env_def mem_kube_def named_def split: if_splits)
  have "well_formed_request slow_create" by code_simp
  moreover have "backend_sc slow_create \<notin> set (MemClasses (outside demo_world))" by code_simp
  moreover obtain r w' where "returns (CreateVolume demo_env (Some demo_config) slow_create) demo_world r w'"
    using no_panic_returns [OF create_no_panic] by blast
  ultimately show ?thesis
    using CreateVolume_missing_class [OF law demo_laws(3) demo_laws(3) [where obs = mem_claims]] by blast
qed

end
