(* ===== verification/Node_Server.thy ===== *)
theory Node_Server
  imports Csi_Types Open_Cas
begin

text \<open>
  \<^verbatim>\<open>pkg/csi-driver/node.go\<close>: the CSI node service. Staging a volume links the backend device,
  attaches it to a cache of the node, makes a file system on it and mounts it; publishing binds it
  into the target path. Unstaging and unpublishing undo that.

  The receiver and its lock are as in the controller service.
\<close>

section \<open>Requests\<close>

datatype NodeRPC = RPC_STAGE_UNSTAGE_VOLUME | NODE_SINGLE_NODE_MULTI_WRITER

record NodeStageVolumeRequest =
  NsVolumeId :: string
  NsStagingTargetPath :: string
  NsVolumeCapability :: "VolumeCapability option"
  NsPublishContext :: "string gomap"

record NodeUnstageVolumeRequest =
  NuVolumeId :: string
  NuStagingTargetPath :: string

record NodePublishVolumeRequest =
  NpVolumeId :: string
  NpVolumeCapability :: "VolumeCapability option"
  NpTargetPath :: string
  NpStagingTargetPath :: string
  NpReadonly :: bool

record NodeUnpublishVolumeRequest =
  NnVolumeId :: string
  NnTargetPath :: string

definition defaultFilesystem :: string where "defaultFilesystem = ''ext4''"

definition NodeGetCapabilities :: "('x, NodeRPC list) rpc" where
  "NodeGetCapabilities = reply [RPC_STAGE_UNSTAGE_VOLUME, NODE_SINGLE_NODE_MULTI_WRITER]"

definition NodeGetInfo :: "Config option \<Rightarrow> ('x, string) rpc" where
  "NodeGetInfo ns = bnd (deref ns) (\<lambda>config. reply (NodeID config))"

section \<open>Staging\<close>

text \<open>
  Which cache a new core is added to. An error of the node lookup and a label that is no number leave
  the cache \<^verbatim>\<open>nil\<close>; of several caches with the labelled id the last is taken.
\<close>

definition cache_by_label :: "Cache list \<Rightarrow> string \<Rightarrow> Cache option" where
  "cache_by_label instances idString =
     (case Atoi idString of
        (n, None) \<Rightarrow> fold (\<lambda>i cache. if CacheId i = n then Some i else cache) instances None
      | (n, Some e) \<Rightarrow> None)"

definition NodeStageVolume_cache ::
  "'x env \<Rightarrow> OpenCAS \<Rightarrow> string \<Rightarrow> Pod \<Rightarrow> ('x world, status + Cache) io" where
  "NodeStageVolume_cache env cas nodeId pod =
     (let node = NodeName (PodSpecOf pod);
          undetermined = Status InvalidArgument (''node stage volume - Node '' @ fmt_q node
            @ '' has multiple caches - cannot determine which should be used'') in
      bnd (GetCacheInstances env cas) (\<lambda>(instances, err).
      if err \<noteq> None then
        ret (Inl (Status Internal (''node stage volume - cannot list caches on Node '' @ fmt_q node)))
      else if instances = [] then
        ret (Inl (Status NotFound (''node stage volume - no caches running on Node '' @ fmt_q node)))
      else
        bnd (call (Nodes_Get (kube env) nodeId)) (\<lambda>(n, err).
        if err = None then
          (case mget (Labels (NodeMeta n)) OperatingCacheLabelKey of
             Some idString \<Rightarrow>
               if idString = [] then
                 ret (Inl (Status Unavailable (''node stage volume - Node '' @ fmt_q node @ '' caches are being reconciled'')))
               else
                 (case cache_by_label instances idString of
                    None \<Rightarrow> ret (Inl undetermined)
                  | Some cache \<Rightarrow> ret (Inr cache))
           | None \<Rightarrow>
               if length instances = 1 then ret (Inr (instances ! 0)) else ret (Inl undetermined))
        else ret (Inl undetermined))))"

text \<open>The cached volume of a staged volume: the one in the list, or a new core of the chosen cache.\<close>

definition NodeStageVolume_core ::
  "'x env \<Rightarrow> OpenCAS \<Rightarrow> string \<Rightarrow> Pod \<Rightarrow> string \<Rightarrow> ('x world, status + CachedVolume option) io" where
  "NodeStageVolume_core env cas nodeId pod byIdPath =
     bnd (GetVolumeFromCacheList env cas byIdPath) (\<lambda>(cachedVolume, err).
     if err \<noteq> None then
       ret (Inl (Status Internal (''node stage volume - cannot check if cachedVolume exists in intermediate Pod ''
         @ fmt_q (Name (PodMeta pod)))))
     else if cachedVolume \<noteq> None then ret (Inr cachedVolume)
     else
       bnd (NodeStageVolume_cache env cas nodeId pod) (\<lambda>chosen.
       case chosen of
         Inl st \<Rightarrow> ret (Inl st)
       | Inr cache \<Rightarrow>
           bnd (AddCore env cas cache byIdPath) (\<lambda>(cachedVolume, err).
           if err \<noteq> None then
             ret (Inl (Status Internal (''node stage volume - cannot create cachedVolume in intermediate Pod ''
               @ fmt_q (Name (PodMeta pod)) @ [NL] @ '' err: '' @ err_text err)))
           else ret (Inr cachedVolume))))"

text \<open>The file system of a staged mount volume, and its mount.\<close>

definition NodeStageVolume_mount ::
  "'x env \<Rightarrow> string \<Rightarrow> string \<Rightarrow> VolumeCapability \<Rightarrow> CachedVolume option \<Rightarrow> ('x, unit) rpc" where
  "NodeStageVolume_mount env volId stagingTargetPath volumeCapability cachedVolume =
     (let fsType = (case GetMount volumeCapability of
            Some mnt \<Rightarrow> if FsType mnt \<noteq> [] then FsType mnt else defaultFilesystem
          | None \<Rightarrow> defaultFilesystem);
          mntOpts = (case GetMount volumeCapability of Some mnt \<Rightarrow> MountFlags mnt | None \<Rightarrow> []) in
      bnd (deref cachedVolume) (\<lambda>cached.
      bnd (GetDeviceFsType env (Path cached)) (\<lambda>(existingFsType, err).
      if err \<noteq> None then
        fail Internal (''node stage volume - cannot check file system for volume '' @ fmt_q volId @ '': '' @ err_text err)
      else if existingFsType \<noteq> [] \<and> existingFsType \<noteq> fsType then
        fail AlreadyExists (''node stage volume - file system '' @ fmt_q existingFsType
          @ '' found, requested file system '' @ fmt_q fsType)
      else
        bnd (if existingFsType \<noteq> [] then ret None else PrepareFs env (Path cached) fsType) (\<lambda>err.
        if err \<noteq> None then
          fail Internal (''node stage volume - cannot prepare volume '' @ fmt_q volId @ '': '' @ err_text err)
        else
          bnd (Mount env (Path cached) stagingTargetPath fsType mntOpts False) (\<lambda>err.
          if err \<noteq> None then
            fail Internal (''node stage volume - cannot mount volume '' @ fmt_q volId @ '': '' @ err_text err)
          else reply ())))))"

definition NodeStageVolume ::
  "'x env \<Rightarrow> Config option \<Rightarrow> NodeStageVolumeRequest \<Rightarrow> ('x, unit) rpc" where
  "NodeStageVolume env ns req =
     (let volId = NsVolumeId req; stagingTargetPath = NsStagingTargetPath req in
      if volId = [] then fail InvalidArgument ''node stage volume - volume ID missing in request''
      else if stagingTargetPath = [] then
        fail InvalidArgument ''node stage volume - staging target path missing in request''
      else case NsVolumeCapability req of
        None \<Rightarrow> fail InvalidArgument ''node stage volume - volume capabilities missing in request''
      | Some volumeCapability \<Rightarrow>
      (let backendPvName = mgets (NsPublishContext req) ''backendPvName'' in
       if backendPvName = [] then
         fail Aborted ''node stage volume - volume parameters do not contain backend PV name''
       else
       bnd (lock_key ns volId) (\<lambda>_.
       bnd (NewK8sUtils env) (\<lambda>err.
       if err \<noteq> None then fail Internal (err_text err)
       else
       bnd (deref ns) (\<lambda>config.
       let podName = getPodNameForPv volId (NodeID config) in
       bnd (ConfiguredProtectedNamespace env) (\<lambda>namespace.
       bnd (GetIntermediatePodByName env podName namespace) (\<lambda>(pod, err).
       if real_error err then
         fail Internal (''node stage volume - cannot check if Pod '' @ fmt_q podName @ '' exists'')
       else case pod of
         None \<Rightarrow> fail NotFound (''node stage volume - intermediate Pod '' @ fmt_q podName @ '' does not exist'')
       | Some pod \<Rightarrow>
       bnd (NewOpenCasManager env (NodeID config) namespace) (\<lambda>(cas, err).
       if err \<noteq> None then
         fail Internal (''node stage volume - cannot use casadm in intermediate Pod ''
           @ fmt_q (NodeName (PodSpecOf pod)) @ [NL] @ '' err: '' @ err_text err)
       else
       bnd (deref cas) (\<lambda>cas.
       bnd (ProvideByIdLinkForPv env backendPvName volId) (\<lambda>(byIdPath, err).
       if err \<noteq> None then fail Internal (err_text err)
       else
       bnd (NodeStageVolume_core env cas (NodeID config) pod byIdPath) (\<lambda>attached.
       case attached of
         Inl st \<Rightarrow> ret (Inl st)
       | Inr cachedVolume \<Rightarrow>
           if GetBlock volumeCapability then reply ()
           else NodeStageVolume_mount env volId stagingTargetPath volumeCapability cachedVolume)))))))))))"

section \<open>Unstaging\<close>

text \<open>The errors of the two removals are dropped.\<close>

definition cleanupByIdDir :: "'x env \<Rightarrow> string \<Rightarrow> ('x world, unit) io" where
  "cleanupByIdDir env byIdPath =
     bnd (call (OsRemove (host env) byIdPath)) (\<lambda>_.
     bnd (call (OsRemove (host env) CsiDriverByIdDir)) (\<lambda>_. ret ()))"

text \<open>Taking the core of an attached volume off its cache.\<close>

definition NodeUnstageVolume_core ::
  "'x env \<Rightarrow> OpenCAS \<Rightarrow> Pod \<Rightarrow> string \<Rightarrow> ('x world, status + unit) io" where
  "NodeUnstageVolume_core env cas pod byIdPath =
     bnd (GetVolumeFromCacheList env cas byIdPath) (\<lambda>(volume, err).
     if err \<noteq> None then
       ret (Inl (Status Internal (''node unstage volume - cannot get cached volume in intermediate Pod ''
         @ fmt_q (NodeName (PodSpecOf pod)))))
     else case volume of
       None \<Rightarrow> ret (Inr ())
     | Some volume \<Rightarrow>
         bnd (RemoveCore env cas volume) (\<lambda>err.
         if err \<noteq> None then
           ret (Inl (Status Internal (''node unstage volume - cannot remove cached volume in intermediate Pod ''
             @ fmt_q (NodeName (PodSpecOf pod)))))
         else ret (Inr ())))"

text \<open>The part of the handler after the staging path was unmounted.\<close>

definition NodeUnstageVolume_detach :: "'x env \<Rightarrow> Config option \<Rightarrow> string \<Rightarrow> ('x, unit) rpc" where
  "NodeUnstageVolume_detach env ns volId =
     (let byIdPath = GetByIdLinkPathForPv volId in
      bnd (call (OsStat (host env) byIdPath)) (\<lambda>err.
      if err \<noteq> None then
        (if err_that IsNotExist err then bnd (cleanupByIdDir env byIdPath) (\<lambda>_. reply ())
         else fail Internal (err_text err))
      else
      bnd (NewK8sUtils env) (\<lambda>err.
      if err \<noteq> None then fail Internal (err_text err)
      else
      bnd (GetPvByName env volId) (\<lambda>(pv, err).
      if real_error err then fail Internal (''node unstage volume - cannot retrieve PV '' @ fmt_q volId)
      else if pv = None then bnd (cleanupByIdDir env byIdPath) (\<lambda>_. reply ())
      else
      bnd (deref ns) (\<lambda>config.
      let podName = getPodNameForPv volId (NodeID config) in
      bnd (ConfiguredProtectedNamespace env) (\<lambda>namespace.
      bnd (GetIntermediatePodByName env podName namespace) (\<lambda>(pod, err).
      if real_error err then
        fail Internal (''node unstage volume - cannot check if Pod '' @ fmt_q podName @ '' exists'')
      else case pod of
        None \<Rightarrow> fail FailedPrecondition (''node unstage volume - cannot remove existing PV '' @ fmt_q volId
          @ '', because Pod '' @ fmt_q podName @ '' does not exist'')
      | Some pod \<Rightarrow>
      bnd (NewOpenCasManager env (NodeID config) namespace) (\<lambda>(cas, err).
      if err \<noteq> None then
        fail Internal (''node unstage volume - cannot use casadm in intermediate Pod '' @ fmt_q (NodeName (PodSpecOf pod)))
      else
      bnd (deref cas) (\<lambda>cas.
      bnd (NodeUnstageVolume_core env cas pod byIdPath) (\<lambda>detached.
      case detached of
        Inl st \<Rightarrow> ret (Inl st)
      | Inr _ \<Rightarrow> bnd (cleanupByIdDir env byIdPath) (\<lambda>_. reply ())))))))))))"

definition NodeUnstageVolume ::
  "'x env \<Rightarrow> Config option \<Rightarrow> NodeUnstageVolumeRequest \<Rightarrow> ('x, unit) rpc" where
  "NodeUnstageVolume env ns req =
     (let volId = NuVolumeId req; stagingTargetPath = NuStagingTargetPath req in
      if volId = [] then fail InvalidArgument ''node unstage volume - volume ID missing in request''
      else if stagingTargetPath = [] then
        fail InvalidArgument ''node unstage volume - staging target path missing in request''
      else
      bnd (lock_key ns volId) (\<lambda>_.
      bnd (call (GetDeviceNameFromMount (host env) stagingTargetPath)) (\<lambda>((mountedDev, _), err).
      if err \<noteq> None then fail Internal (''node unstage volume - '' @ err_text err)
      else
      bnd (if mountedDev \<noteq> [] then call (MounterUnmount (host env) stagingTargetPath) else ret None) (\<lambda>err.
      if err \<noteq> None then fail Internal (''node unstage volume - '' @ err_text err)
      else NodeUnstageVolume_detach env ns volId))))"

section \<open>Publishing\<close>

definition findMountFlags :: "string list \<Rightarrow> string list \<Rightarrow> bool" where
  "findMountFlags flags findIn =
     list_all (\<lambda>f. list_ex (\<lambda>fIn. f = ''dax=always'' \<and> fIn = ''dax'' \<or> f = ''dax'' \<and> fIn = ''dax=always'' \<or> f = fIn)
       findIn) flags"

text \<open>
  The source of a block volume is the device of its cached volume. For a mount volume the target is
  compared with the mount table: \<open>Inl\<close> is the answer of the handler, \<open>Inr\<close> the source to mount.
\<close>

definition NodePublishVolume_block ::
  "'x env \<Rightarrow> Config \<Rightarrow> string \<Rightarrow> ('x world, status + string) io" where
  "NodePublishVolume_block env config volId =
     bnd (NewK8sUtils env) (\<lambda>err.
     if err \<noteq> None then fail Internal (err_text err)
     else
     (let podName = getPodNameForPv volId (NodeID config) in
     bnd (ConfiguredProtectedNamespace env) (\<lambda>namespace.
     bnd (GetIntermediatePodByName env podName namespace) (\<lambda>(pod, err).
     if err \<noteq> None then
       fail Internal (''node publish volume - cannot check if Pod '' @ fmt_q podName @ '' exists'')
     else case pod of
       None \<Rightarrow> fail NotFound (''node publish volume - intermediate Pod '' @ fmt_q podName @ '' does not exist'')
     | Some pod \<Rightarrow>
     bnd (NewOpenCasManager env (NodeID config) namespace) (\<lambda>(cas, err).
     if err \<noteq> None then
       fail Internal (''node publish volume - cannot use casadm in intermediate Pod '' @ fmt_q (NodeName (PodSpecOf pod)))
     else
     bnd (deref cas) (\<lambda>cas.
     let byIdPath = GetByIdLinkPathForPv volId in
     bnd (GetVolumeFromCacheList env cas byIdPath) (\<lambda>(cachedVolume, err).
     if err \<noteq> None then
       fail Internal (''node publish volume - cannot check if cachedVolume exists in intermediate Pod ''
         @ fmt_q (Name (PodMeta pod)))
     else case cachedVolume of
       None \<Rightarrow> fail NotFound (''node publish volume - cached volume '' @ fmt_q byIdPath @ '' does not exist'')
     | Some cached \<Rightarrow> reply (Path cached))))))))"

definition NodePublishVolume_check ::
  "'x env \<Rightarrow> string \<Rightarrow> string \<Rightarrow> string \<Rightarrow> string \<Rightarrow> string list \<Rightarrow> ('x world, (status + unit) option) io" where
  "NodePublishVolume_check env volId sourcePath targetPath fsType mountFlags =
     (if sourcePath = [] then
        ret (Some (Inl (Status FailedPrecondition ''node publish volume - staging target path missing in request'')))
      else
      bnd (call (IsMountPoint (host env) targetPath)) (\<lambda>(isMnt, err).
      if err_that (\<lambda>e. \<not> IsNotExist e) err then
        ret (Some (Inl (Status Internal (''node publish volume - cannot validate target path: '' @ err_text err))))
      else if \<not> isMnt then ret None
      else
      bnd (call (MounterList (host env))) (\<lambda>(mountPoints, err).
      if err \<noteq> None then
        ret (Some (Inl (Status Internal (''node publish volume - cannot fetch existing mount points while checking ''
          @ fmt_q targetPath @ '': '' @ err_text err))))
      else case List.find (\<lambda>m. MpPath m = targetPath) mountPoints of
        None \<Rightarrow> ret None
      | Some m \<Rightarrow>
          if (fsType = [] \<or> MpType m = fsType) \<and> findMountFlags mountFlags (MpOpts m) then ret (Some (Inr ()))
          else ret (Some (Inl (Status AlreadyExists (''node publish volume - volume '' @ fmt_q volId
            @ '' is published but incompatible'')))))))"

definition NodePublishVolume ::
  "'x env \<Rightarrow> Config option \<Rightarrow> NodePublishVolumeRequest \<Rightarrow> ('x, unit) rpc" where
  "NodePublishVolume env ns req =
     (let volId = NpVolumeId req in
      if volId = [] then fail InvalidArgument ''node publish volume - volume ID missing in request''
      else case NpVolumeCapability req of
        None \<Rightarrow> fail InvalidArgument ''node publish volume - volume capabilities missing in request''
      | Some volumeCapability \<Rightarrow>
      (let targetPath = NpTargetPath req in
      if targetPath = [] then fail InvalidArgument ''node publish volume - target path missing in request''
      else
      (let sourcePath = NpStagingTargetPath req;
           fsType = (case GetMount volumeCapability of Some mnt \<Rightarrow> FsType mnt | None \<Rightarrow> []);
           mountFlags = (case GetMount volumeCapability of Some mnt \<Rightarrow> MountFlags mnt | None \<Rightarrow> []) @ [''bind'']
             @ (if NpReadonly req then [''ro''] else []);
           mount = (\<lambda>source rawBlock.
             bnd (Mount env source targetPath fsType mountFlags rawBlock) (\<lambda>err.
             if err \<noteq> None then
               fail Internal (''node publish volume - cannot mount target path '' @ fmt_q targetPath @ '': '' @ err_text err)
             else reply ()))
       in
       bnd (lock_key ns volId) (\<lambda>_.
       if GetBlock volumeCapability then
         bnd (deref ns) (\<lambda>config.
         bnd (NodePublishVolume_block env config volId) (\<lambda>source.
         case source of
           Inl st \<Rightarrow> ret (Inl st)
         | Inr path \<Rightarrow> mount path True))
       else if GetMount volumeCapability \<noteq> None then
         bnd (NodePublishVolume_check env volId sourcePath targetPath fsType mountFlags) (\<lambda>answer.
         case answer of
           Some r \<Rightarrow> ret r
         | None \<Rightarrow> mount sourcePath False)
       else mount sourcePath False))))"

definition NodeUnpublishVolume ::
  "'x env \<Rightarrow> Config option \<Rightarrow> NodeUnpublishVolumeRequest \<Rightarrow> ('x, unit) rpc" where
  "NodeUnpublishVolume env ns req =
     (let targetPath = NnTargetPath req in
      if NnVolumeId req = [] then fail InvalidArgument ''node unpublish volume - volume ID missing in request''
      else if targetPath = [] then
        fail InvalidArgument ''node unpublish volume - target path missing in request''
      else
      bnd (lock_key ns (NnVolumeId req)) (\<lambda>_.
      bnd (call (IsLikelyNotMountPoint (host env) targetPath)) (\<lambda>(notMnt, err).
      if err \<noteq> None then
        (if err_that IsNotExist err then reply ()
         else fail Internal (''node unpublish volume - cannot determine if '' @ fmt_q targetPath
           @ '' is a valid mount point: '' @ err_text err))
      else
      bnd (if \<not> notMnt then call (MounterUnmount (host env) targetPath) else ret None) (\<lambda>err.
      if err \<noteq> None then
        fail Internal (''node unpublish volume - cannot unmount target path '' @ fmt_q targetPath @ '': '' @ err_text err)
      else
      bnd (call (OsRemove (host env) targetPath)) (\<lambda>err.
      if err \<noteq> None then
        fail Internal (''node unpublish volume - cannot remove target path '' @ fmt_q targetPath @ '': '' @ err_text err)
      else reply ())))))"

section \<open>Procedures that are not offered\<close>

datatype UnusedNodeCall = NodeExpandVolume | NodeGetVolumeStats

fun UnusedNodeCall_name :: "UnusedNodeCall \<Rightarrow> string" where
  "UnusedNodeCall_name NodeExpandVolume = ''NodeExpandVolume''"
| "UnusedNodeCall_name NodeGetVolumeStats = ''NodeGetVolumeStats''"

definition unusedNodeCall :: "UnusedNodeCall \<Rightarrow> ('x, unit) rpc" where
  "unusedNodeCall c = fail Unimplemented (UnusedNodeCall_name c)"

section \<open>Requests that are rejected\<close>

definition NodeStageVolume_rejects :: "NodeStageVolumeRequest \<Rightarrow> status option" where
  "NodeStageVolume_rejects req =
     (if NsVolumeId req = [] then Some (Status InvalidArgument ''node stage volume - volume ID missing in request'')
      else if NsStagingTargetPath req = [] then
        Some (Status InvalidArgument ''node stage volume - staging target path missing in request'')
      else if NsVolumeCapability req = None then
        Some (Status InvalidArgument ''node stage volume - volume capabilities missing in request'')
      else if mgets (NsPublishContext req) ''backendPvName'' = [] then
        Some (Status Aborted ''node stage volume - volume parameters do not contain backend PV name'')
      else None)"

definition NodeUnstageVolume_rejects :: "NodeUnstageVolumeRequest \<Rightarrow> status option" where
  "NodeUnstageVolume_rejects req =
     (if NuVolumeId req = [] then Some (Status InvalidArgument ''node unstage volume - volume ID missing in request'')
      else if NuStagingTargetPath req = [] then
        Some (Status InvalidArgument ''node unstage volume - staging target path missing in request'')
      else None)"

definition NodePublishVolume_rejects :: "NodePublishVolumeRequest \<Rightarrow> status option" where
  "NodePublishVolume_rejects req =
     (if NpVolumeId req = [] then Some (Status InvalidArgument ''node publish volume - volume ID missing in request'')
      else if NpVolumeCapability req = None then
        Some (Status InvalidArgument ''node publish volume - volume capabilities missing in request'')
      else if NpTargetPath req = [] then
        Some (Status InvalidArgument ''node publish volume - target path missing in request'')
      else None)"

definition NodeUnpublishVolume_rejects :: "NodeUnpublishVolumeRequest \<Rightarrow> status option" where
  "NodeUnpublishVolume_rejects req =
     (if NnVolumeId req = [] then Some (Status InvalidArgument ''node unpublish volume - volume ID missing in request'')
      else if NnTargetPath req = [] then
        Some (Status InvalidArgument ''node unpublish volume - target path missing in request'')
      else None)"

interpretation stage: guarded_handler "NodeStageVolume env ns" NodeStageVolume_rejects
  for env :: "'x env" and ns :: "Config option"
  by unfold_locales (auto simp: NodeStageVolume_rejects_def NodeStageVolume_def Let_def split: if_splits)

interpretation unstage: guarded_handler "NodeUnstageVolume env ns" NodeUnstageVolume_rejects
  for env :: "'x env" and ns :: "Config option"
  by unfold_locales (auto simp: NodeUnstageVolume_rejects_def NodeUnstageVolume_def Let_def split: if_splits)

interpretation node_publish: guarded_handler "NodePublishVolume env ns" NodePublishVolume_rejects
  for env :: "'x env" and ns :: "Config option"
  by unfold_locales (auto simp: NodePublishVolume_rejects_def NodePublishVolume_def Let_def split: if_splits)

interpretation node_unpublish: guarded_handler "NodeUnpublishVolume env ns" NodeUnpublishVolume_rejects
  for env :: "'x env" and ns :: "Config option"
  by unfold_locales (auto simp: NodeUnpublishVolume_rejects_def NodeUnpublishVolume_def Let_def split: if_splits)

section \<open>Attaching and detaching through the manager\<close>

text \<open>The two halves of the handlers that deal with the cache are the patterns of the manager's contract.\<close>

lemma NodeStageVolume_core_attach:
  "NodeStageVolume_core env cas nodeId pod p =
     cores.attach env cas
       (Status Internal (''node stage volume - cannot check if cachedVolume exists in intermediate Pod ''
          @ fmt_q (Name (PodMeta pod))))
       (NodeStageVolume_cache env cas nodeId pod)
       (\<lambda>err. Status Internal (''node stage volume - cannot create cachedVolume in intermediate Pod ''
          @ fmt_q (Name (PodMeta pod)) @ [NL] @ '' err: '' @ err_text err)) p"
  unfolding NodeStageVolume_core_def cores.attach_def by simp

lemma NodeUnstageVolume_core_detach:
  "NodeUnstageVolume_core env cas pod p =
     cores.detach env cas
       (Status Internal (''node unstage volume - cannot get cached volume in intermediate Pod ''
          @ fmt_q (NodeName (PodSpecOf pod))))
       (Status Internal (''node unstage volume - cannot remove cached volume in intermediate Pod ''
          @ fmt_q (NodeName (PodSpecOf pod)))) p"
  unfolding NodeUnstageVolume_core_def cores.detach_def by simp

lemma stage_attaches:
  assumes "casadm_lists env st" "ls_quiet env st"
    and "returns (NodeStageVolume_core env cas nodeId pod p) w (Inr v) w'"
  shows "\<exists>u. v = Some u \<and> find_volume (st (outside w')) p = Some u"
  using cores.attach_attached [OF conjI [OF assms(1,2)] assms(3) [unfolded NodeStageVolume_core_attach]] by auto

lemma unstage_detaches:
  assumes "casadm_lists env st" "ls_quiet env st"
    and "returns (NodeUnstageVolume_core env cas pod p) w (Inr u) w'"
  shows "find_volume (st (outside w')) p = None"
  by (rule cores.detach_detached [OF conjI [OF assms(1,2)] assms(3) [unfolded NodeUnstageVolume_core_detach]])

section \<open>The choice of a cache\<close>

lemma fold_last_match:
  "fold (\<lambda>i cache. if P i then Some i else cache) xs z =
     (case filter P xs of [] \<Rightarrow> z | y # ys \<Rightarrow> Some (last (y # ys)))"
  by (induction xs arbitrary: z) (auto split: list.splits)

lemma cache_by_label_Some:
  assumes "cache_by_label instances idString = Some cache"
  shows "cache \<in> set instances \<and> Atoi idString = (CacheId cache, None)"
proof -
  obtain n where n: "Atoi idString = (n, None)"
    using assms by (auto simp: cache_by_label_def split: prod.splits option.splits)
  with assms have "cache \<in> set (filter (\<lambda>i. CacheId i = n) instances)"
    by (auto simp: cache_by_label_def fold_last_match simp del: set_filter split: list.splits intro: last_in_set
        dest: sym)
  then show ?thesis using n by auto
qed

lemma NodeStageVolume_cache_choice:
  assumes "returns (NodeStageVolume_cache env cas nodeId pod) w (Inr cache) w'"
  shows "\<exists>instances w1 node. returns (ListCaches env cas) w (instances, None) w1 \<and> cache \<in> set instances \<and>
    Nodes_Get (kube env) nodeId (outside w1) = ((node, None), outside w') \<and>
    (case mget (Labels (NodeMeta node)) OperatingCacheLabelKey of
       Some idString \<Rightarrow> idString \<noteq> [] \<and> Atoi idString = (CacheId cache, None)
     | None \<Rightarrow> instances = [cache])"
proof -
  from assms obtain instances w1 node x where list: "returns (GetCacheInstances env cas) w (instances, None) w1"
    and get: "Nodes_Get (kube env) nodeId (outside w1) = ((node, None), x)" and w': "w' = w1\<lparr>outside := x\<rparr>"
    and label: "case mget (Labels (NodeMeta node)) OperatingCacheLabelKey of
       Some idString \<Rightarrow> idString \<noteq> [] \<and> cache_by_label instances idString = Some cache
     | None \<Rightarrow> length instances = 1 \<and> cache = instances ! 0"
    by (auto simp: NodeStageVolume_cache_def returns_simps Let_def)
  have "returns (ListCaches env cas) w (instances, None) w1"
    using list by (auto simp: GetCacheInstances_def returns_simps)
  moreover have "instances = [cache] \<and> cache \<in> set instances" if "length instances = 1" "cache = instances ! 0"
    using that by (cases instances) auto
  ultimately show ?thesis
    using get w' label
    by (auto split: option.splits dest!: cache_by_label_Some intro!: exI [of _ instances] exI [of _ w1])
qed

section \<open>Laws of the node\<close>

text \<open>
  \<open>files_quiet env obs\<close>: file, mount and device queries and changes do not change the observation
  \<open>obs\<close>. \<open>casadm_quiet env obs\<close>: jobs and local shell commands do not change it.
\<close>

definition files_quiet :: "'x env \<Rightarrow> ('x \<Rightarrow> 'o) \<Rightarrow> bool" where
  "files_quiet env obs \<longleftrightarrow>
     (\<forall>cmd args x. obs (snd (CmdOutput (host env) cmd args x)) = obs x) \<and>
     (\<forall>p x. obs (snd (OsStat (host env) p x)) = obs x \<and> obs (snd (OsRemove (host env) p x)) = obs x \<and>
        obs (snd (IsLikelyNotMountPoint (host env) p x)) = obs x) \<and>
     (\<forall>p m x. obs (snd (OsMkdir (host env) p m x)) = obs x \<and> obs (snd (OsCreateFile (host env) p m x)) = obs x)"

definition mount_quiet :: "'x env \<Rightarrow> ('x \<Rightarrow> 'o) \<Rightarrow> bool" where
  "mount_quiet env obs \<longleftrightarrow> (\<forall>src p fs opts x. obs (snd (MounterMount (host env) src p fs opts x)) = obs x)"

definition casadm_quiet :: "'x env \<Rightarrow> ('x \<Rightarrow> 'o) \<Rightarrow> bool" where
  "casadm_quiet env obs \<longleftrightarrow>
     (\<forall>cmd x. obs (snd (RunShell (host env) cmd x)) = obs x) \<and>
     (\<forall>m x. obs (snd (RangeOrder env m x)) = obs x) \<and>
     (\<forall>ns job x. obs (snd (Jobs_Create (kube env) ns job x)) = obs x) \<and>
     (\<forall>ns m x. obs (snd (Jobs_Watch (kube env) ns m x)) = obs x) \<and>
     (\<forall>ns n x. obs (snd (Jobs_Delete (kube env) ns n x)) = obs x \<and> obs (snd (Pods_Logs (kube env) ns n x)) = obs x) \<and>
     (\<forall>ns f l x. obs (snd (Pods_List (kube env) ns f l x)) = obs x)"

text \<open>
  What the driver relies on of \<^verbatim>\<open>mount-utils\<close>, for the set \<open>mounted\<close> of the mount points of the node:
  mounting and unmounting do what they say, and the two queries are right about the paths the
  driver asks for. \<^verbatim>\<open>IsLikelyNotMountPoint\<close> compares devices and can miss a bind mount within one
  file system; the driver binds from another file system, where it is exact.
\<close>

definition mount_laws :: "'x env \<Rightarrow> ('x \<Rightarrow> string set) \<Rightarrow> bool" where
  "mount_laws env mounted \<longleftrightarrow>
     files_quiet env mounted \<and>
     (\<forall>src p fs opts x x'. MounterMount (host env) src p fs opts x = (None, x') \<longrightarrow> p \<in> mounted x') \<and>
     (\<forall>p x x'. MounterUnmount (host env) p x = (None, x') \<longrightarrow> p \<notin> mounted x') \<and>
     (\<forall>p x b err x'. IsLikelyNotMountPoint (host env) p x = ((b, err), x') \<longrightarrow>
        (err = None \<longrightarrow> b = (p \<notin> mounted x)) \<and> (err \<noteq> None \<longrightarrow> b) \<and>
        (err_that IsNotExist err \<longrightarrow> p \<notin> mounted x)) \<and>
     (\<forall>p x d r x'. GetDeviceNameFromMount (host env) p x = (((d, r), None), x') \<longrightarrow>
        mounted x' = mounted x \<and> (d = [] \<longrightarrow> p \<notin> mounted x))"

text \<open>
  The mount table, when it matters what is mounted: source, type and options of the mount at each path. A mount enters
  what it was asked for and touches no other path.
\<close>

type_synonym mount_table = "string \<Rightarrow> (string \<times> string \<times> string list) option"

definition mount_table_law :: "'x env \<Rightarrow> ('x \<Rightarrow> mount_table) \<Rightarrow> bool" where
  "mount_table_law env table \<longleftrightarrow>
     mount_laws env (\<lambda>x. dom (table x)) \<and> files_quiet env table \<and>
     (\<forall>src p fs opts x x'. MounterMount (host env) src p fs opts x = (None, x') \<longrightarrow>
        table x' = (table x)(p \<mapsto> (src, fs, opts)))"

text \<open>
  What unstaging looks at before it takes a core off: the links that exist and the persistent volumes the cluster knows.
  Unmounting a path changes neither.
\<close>

definition unmount_quiet :: "'x env \<Rightarrow> ('x \<Rightarrow> 'o) \<Rightarrow> bool" where
  "unmount_quiet env obs \<longleftrightarrow>
     (\<forall>p x. obs (snd (GetDeviceNameFromMount (host env) p x)) = obs x \<and> obs (snd (MounterUnmount (host env) p x)) = obs x)"

definition links_law :: "'x env \<Rightarrow> ('x \<Rightarrow> string set) \<Rightarrow> bool" where
  "links_law env links \<longleftrightarrow> unmount_quiet env links \<and>
     (\<forall>p x e x'. OsStat (host env) p x = (Some e, x') \<longrightarrow> IsNotExist e \<longrightarrow> p \<notin> links x)"

definition known_volumes_law :: "'x env \<Rightarrow> ('x \<Rightarrow> string set) \<Rightarrow> bool" where
  "known_volumes_law env known \<longleftrightarrow> unmount_quiet env known \<and> reads_quiet env known \<and>
     (\<forall>p x. known (snd (OsStat (host env) p x)) = known x) \<and>
     (\<forall>n x pv err x'. PVs_Get (kube env) n x = ((pv, err), x') \<longrightarrow>
        (err = None \<longrightarrow> Name (PvMeta pv) \<noteq> []) \<and> (err_that NotFoundText err \<longrightarrow> n \<notin> known x))"

lemma mount_lawsD:
  assumes "mount_laws env mounted"
  shows "files_quiet env mounted"
    and "MounterMount (host env) src p fs opts x = (None, x') \<Longrightarrow> p \<in> mounted x'"
    and "MounterUnmount (host env) p x = (None, x') \<Longrightarrow> p \<notin> mounted x'"
    and "IsLikelyNotMountPoint (host env) p x = ((b, err), x') \<Longrightarrow>
       (err = None \<longrightarrow> b = (p \<notin> mounted x)) \<and> (err \<noteq> None \<longrightarrow> b) \<and> (err_that IsNotExist err \<longrightarrow> p \<notin> mounted x)"
    and "GetDeviceNameFromMount (host env) p x = (((d, r), None), x') \<Longrightarrow>
       mounted x' = mounted x \<and> (d = [] \<longrightarrow> p \<notin> mounted x)"
proof -
  note laws = assms [unfolded mount_laws_def]
  note l1 = laws [THEN conjunct1] and l2 = laws [THEN conjunct2, THEN conjunct1]
    and l3 = laws [THEN conjunct2, THEN conjunct2, THEN conjunct1]
    and l4 = laws [THEN conjunct2, THEN conjunct2, THEN conjunct2, THEN conjunct1]
    and l5 = laws [THEN conjunct2, THEN conjunct2, THEN conjunct2, THEN conjunct2]
  show "files_quiet env mounted" by (rule l1)
  show "MounterMount (host env) src p fs opts x = (None, x') \<Longrightarrow> p \<in> mounted x'" using l2 by blast
  show "MounterUnmount (host env) p x = (None, x') \<Longrightarrow> p \<notin> mounted x'" using l3 by blast
  show "IsLikelyNotMountPoint (host env) p x = ((b, err), x') \<Longrightarrow>
       (err = None \<longrightarrow> b = (p \<notin> mounted x)) \<and> (err \<noteq> None \<longrightarrow> b) \<and> (err_that IsNotExist err \<longrightarrow> p \<notin> mounted x)"
    by (rule mp [OF l4 [THEN spec, THEN spec, THEN spec, THEN spec, THEN spec]])
  show "GetDeviceNameFromMount (host env) p x = (((d, r), None), x') \<Longrightarrow>
       mounted x' = mounted x \<and> (d = [] \<longrightarrow> p \<notin> mounted x)"
    by (rule mp [OF l5 [THEN spec, THEN spec, THEN spec, THEN spec, THEN spec]])
qed

lemma files_quiet_calls:
  assumes "files_quiet env obs"
  shows "keeps (same_obs obs) (call (CmdOutput (host env) cmd args))" "keeps (same_obs obs) (call (OsStat (host env) p))"
    "keeps (same_obs obs) (call (OsRemove (host env) p))" "keeps (same_obs obs) (call (IsLikelyNotMountPoint (host env) p))"
    "keeps (same_obs obs) (call (OsMkdir (host env) p m))" "keeps (same_obs obs) (call (OsCreateFile (host env) p m))"
  using assms by (auto simp: files_quiet_def intro!: same_obs_call)

lemma mount_quiet_call: "mount_quiet env obs \<Longrightarrow> keeps (same_obs obs) (call (MounterMount (host env) src p fs opts))"
  by (auto simp: mount_quiet_def intro!: same_obs_call)

lemma casadm_quiet_calls:
  assumes "casadm_quiet env obs"
  shows "keeps (same_obs obs) (call (RunShell (host env) cmd))" "keeps (same_obs obs) (call (RangeOrder env m))"
    "keeps (same_obs obs) (call (Jobs_Create (kube env) s job))" "keeps (same_obs obs) (call (Jobs_Watch (kube env) s meta))"
    "keeps (same_obs obs) (call (Jobs_Delete (kube env) s n))" "keeps (same_obs obs) (call (Pods_Logs (kube env) s n))"
    "keeps (same_obs obs) (call (Pods_List (kube env) s f l))"
  using assms by (auto simp: casadm_quiet_def intro!: same_obs_call)

text \<open>Through the functions built from these calls.\<close>

lemma fs_quiet:
  assumes "files_quiet env obs"
  shows "keeps (same_obs obs) (GetDeviceFsType env path)" "keeps (same_obs obs) (PrepareFs env path fsType)"
    "keeps (same_obs obs) (cleanupByIdDir env path)"
  unfolding PrepareFs_def CreateFs_def GetDeviceFsType_def cleanupByIdDir_def
  by (intro keeps_obs files_quiet_calls [OF assms])+

lemma Mount_quiet:
  assumes "files_quiet env obs" "mount_quiet env obs"
  shows "keeps (same_obs obs) (Mount env src p fs opts raw)"
  unfolding Mount_def by (intro keeps_obs files_quiet_calls [OF assms(1)] mount_quiet_call [OF assms(2)])

lemma stage_mount_quiet:
  assumes "files_quiet env obs" "mount_quiet env obs"
  shows "keeps (same_obs obs) (NodeStageVolume_mount env volId p cap v)"
  unfolding NodeStageVolume_mount_def fail_def reply_def
  by (intro keeps_obs fs_quiet [OF assms(1)] Mount_quiet [OF assms])

lemma manager_quiet:
  assumes "casadm_quiet env obs"
  shows "keeps (same_obs obs) (ListCaches env cas)" "keeps (same_obs obs) (GetVolumeFromCacheList env cas p)"
    "keeps (same_obs obs) (RemoveCore env cas v)" "keeps (same_obs obs) (AddCore env cas c p)"
    "keeps (same_obs obs) (ProvideByIdLinkForPv env s n)"
proof -
  have run: "keeps (same_obs obs) (run_casadm env cas cmd)" for cmd
    unfolding run_casadm_def range_replace_def ExecCasadmCommandAsJob_def NewCasadmJob_def ExecCommandJob_def
      ExecCommandJob_collect_def
    by (intro keeps_obs casadm_quiet_calls [OF assms] keeps_obs_config)
  show list: "keeps (same_obs obs) (ListCaches env cas)"
    unfolding ListCaches_def by (intro keeps_obs run)
  then show get: "keeps (same_obs obs) (GetVolumeFromCacheList env cas p)" for p
    unfolding GetVolumeFromCacheList_def by (intro keeps_obs)
  have shell: "keeps (same_obs obs) (ExecLocalCommand env cmd)" for cmd
    unfolding ExecLocalCommand_def by (intro keeps_obs keeps_case_proc_result casadm_quiet_calls [OF assms])
  then have dev: "keeps (same_obs obs) (isDeviceInSystem env p)" for p
    unfolding isDeviceInSystem_def by (intro keeps_obs)
  show "keeps (same_obs obs) (RemoveCore env cas v)" "keeps (same_obs obs) (AddCore env cas c p)"
    unfolding RemoveCore_def AddCore_def by (intro keeps_obs run get dev)+
  show "keeps (same_obs obs) (ProvideByIdLinkForPv env s n)"
    unfolding ProvideByIdLinkForPv_def by (intro keeps_obs keeps_obs_config shell)
qed

lemma stage_core_quiet:
  assumes "casadm_quiet env obs" "reads_quiet env obs"
  shows "keeps (same_obs obs) (NodeStageVolume_core env cas nodeId pod p)"
  unfolding NodeStageVolume_core_def NodeStageVolume_cache_def GetCacheInstances_def
  by (intro keeps_obs manager_quiet [OF assms(1)] reads_quiet_calls [OF assms(2)])

lemma unstage_detach_quiet:
  assumes "files_quiet env obs" "casadm_quiet env obs" "reads_quiet env obs"
  shows "keeps (same_obs obs) (NodeUnstageVolume_detach env ns volId)"
  unfolding NodeUnstageVolume_detach_def NodeUnstageVolume_core_def NewOpenCasManager_def fail_def reply_def
  by (intro keeps_obs files_quiet_calls [OF assms(1)] fs_quiet(3) [OF assms(1)] manager_quiet [OF assms(2)]
      lookups_quiet [OF assms(3)] keeps_obs_config)

section \<open>What the handlers achieve\<close>

text \<open>The file system and the mount options a capability asks for.\<close>

definition requested_fs :: "VolumeCapability \<Rightarrow> string" where
  "requested_fs cap = (case GetMount cap of
       Some mnt \<Rightarrow> if FsType mnt \<noteq> [] then FsType mnt else defaultFilesystem
     | None \<Rightarrow> defaultFilesystem)"

definition requested_flags :: "VolumeCapability \<Rightarrow> string list" where
  "requested_flags cap = (case GetMount cap of Some mnt \<Rightarrow> MountFlags mnt | None \<Rightarrow> [])"

lemma Mount_mounts:
  assumes laws: "mount_laws env mounted" and run: "returns (Mount env src p fs opts raw) w None w'"
  shows "p \<in> mounted (outside w')"
proof -
  have likely: "p \<in> mounted x'" if "IsLikelyNotMountPoint (host env) p x = ((False, err), x')" for err x x'
  proof -
    have "p \<in> mounted x" using mount_lawsD(4) [OF laws that] by simp
    moreover have "mounted x' = mounted x"
      using mount_lawsD(1) [OF laws] that unfolding files_quiet_def by (metis snd_conv)
    ultimately show ?thesis by simp
  qed
  from run show ?thesis
    by (auto simp: Mount_def returns_simps intro: mount_lawsD(2) [OF laws] likely)
qed

text \<open>A mount is entered in the table as it was asked for, unless something is mounted at the path already.\<close>

lemma Mount_table:
  assumes laws: "mount_table_law env table" and run: "returns (Mount env src p fs opts raw) w None w'"
  shows "table (outside w') = (if table (outside w) p \<noteq> None then table (outside w)
     else (table (outside w))(p \<mapsto> (src, fs, opts)))"
proof -
  have mount: "mount_laws env (\<lambda>x. dom (table x))" and files: "files_quiet env table"
    and enter: "\<And>x x'. MounterMount (host env) src p fs opts x = (None, x') \<Longrightarrow> table x' = (table x)(p \<mapsto> (src, fs, opts))"
    using laws by (simp_all add: mount_table_law_def)
  have likely: "table x' = table x" "\<not> b \<Longrightarrow> table x p \<noteq> None" "b \<Longrightarrow> \<not> err_that (\<lambda>e. \<not> IsNotExist e) err \<Longrightarrow> table x p = None"
    if "IsLikelyNotMountPoint (host env) p x = ((b, err), x')" for b err x x'
  proof -
    show "table x' = table x" using files that unfolding files_quiet_def by (metis snd_conv)
    note law = mount_lawsD(4) [OF mount that]
    show "table x p \<noteq> None" if "\<not> b" using law that by (cases err) auto
    show "table x p = None" if "b" "\<not> err_that (\<lambda>e. \<not> IsNotExist e) err"
    proof -
      have "p \<notin> dom (table x)" using law that by (cases err) simp_all
      then show ?thesis by (simp only: domIff not_not)
    qed
  qed
  have made: "table x' = table x" if "OsMkdir (host env) p m x = (e, x') \<or> OsCreateFile (host env) p m x = (e, x')" for m x e x'
    using files that unfolding files_quiet_def by (metis snd_conv)
  from run obtain b err x where ask: "IsLikelyNotMountPoint (host env) p (outside w) = ((b, err), x)"
    and "\<not> err_that (\<lambda>e. \<not> IsNotExist e) err"
    and rest: "(\<not> b \<and> outside w' = x) \<or> (b \<and> (\<exists>m e x1 x2. (OsMkdir (host env) p m x = (e, x1) \<or> OsCreateFile (host env) p m x = (e, x1)) \<and>
        MounterMount (host env) src p fs opts x1 = (None, x2) \<and> outside w' = x2))"
    by (cases raw; cases "IsLikelyNotMountPoint (host env) p (outside w)")
      (force simp: Mount_def returns_simps split: if_splits)+
  then show ?thesis using likely [OF ask] enter by (auto dest: made [OF disjI1] made [OF disjI2])
qed

lemma ProvideByIdLinkForPv_path:
  "returns (ProvideByIdLinkForPv env s n) w (p, None) w' \<Longrightarrow> p = GetByIdLinkPathForPv n"
  by (auto simp: ProvideByIdLinkForPv_def returns_simps Let_def)

lemma NodeStageVolume_run:
  assumes ok: "NodeStageVolume_rejects req = None" and cap: "NsVolumeCapability req = Some cap"
    and run: "returns (NodeStageVolume env (Some config) req) w (Inr u) w'"
  obtains wa pod e wc cas wd p w1 cached w2 where "returns (NewK8sUtils env) w None wa"
    "returns (GetIntermediatePodByName env (getPodNameForPv (NsVolumeId req) (NodeID config)) (configured_namespace env wa))
      (wa\<lparr>protectedNamespace := configured_namespace env wa\<rparr>) (Some pod, e) wc"
    "returns (NewOpenCasManager env (NodeID config) (configured_namespace env wa)) wc (Some cas, None) wd"
    "returns (ProvideByIdLinkForPv env (mgets (NsPublishContext req) ''backendPvName'') (NsVolumeId req)) wd (p, None) w1"
    "returns (NodeStageVolume_core env cas (NodeID config) pod p) w1 (Inr cached) w2"
    "GetBlock cap \<and> w' = w2 \<or> \<not> GetBlock cap \<and>
       returns (NodeStageVolume_mount env (NsVolumeId req) (NsStagingTargetPath req) cap cached) w2 (Inr u) w'"
  using run ok cap
  by (simp add: NodeStageVolume_def NodeStageVolume_rejects_def Let_def returns_simps split: if_splits)
    (elim exE conjE disjE; simp add: returns_simps split: if_splits; blast?)+

lemma NodeStageVolume_success:
  assumes quiet: "casadm_quiet env obs" "reads_quiet env obs" and run: "returns (NodeStageVolume env ns req) w (Inr u) w'"
  obtains config cap pod cas w1 cached w2 where "ns = Some config" "NsVolumeCapability req = Some cap"
    "obs (outside w1) = obs (outside w)"
    "returns (NodeStageVolume_core env cas (NodeID config) pod (GetByIdLinkPathForPv (NsVolumeId req))) w1 (Inr cached) w2"
    "GetBlock cap \<and> w' = w2 \<or> \<not> GetBlock cap \<and>
       returns (NodeStageVolume_mount env (NsVolumeId req) (NsStagingTargetPath req) cap cached) w2 (Inr u) w'"
proof -
  have ok: "NodeStageVolume_rejects req = None" using run by (rule stage.accepted)
  then obtain cap where cap: "NsVolumeCapability req = Some cap"
    by (auto simp: NodeStageVolume_rejects_def split: if_splits)
  obtain config where ns: "ns = Some config"
    using run ok cap by (cases ns) (auto simp: NodeStageVolume_def NodeStageVolume_rejects_def Let_def returns_simps split: if_splits)
  have cas: "keeps (same_obs obs) (NewOpenCasManager env n ns')" for n ns'
    unfolding NewOpenCasManager_def by (intro keeps_obs lookups_quiet [OF quiet(2)])
  show ?thesis
  proof (rule NodeStageVolume_run [OF ok cap run [unfolded ns]])
    fix wa pod e wc c wd p w1 cached w2
    assume new: "returns (NewK8sUtils env) w None wa"
      and get: "returns (GetIntermediatePodByName env (getPodNameForPv (NsVolumeId req) (NodeID config)) (configured_namespace env wa))
        (wa\<lparr>protectedNamespace := configured_namespace env wa\<rparr>) (Some pod, e) wc"
      and manager: "returns (NewOpenCasManager env (NodeID config) (configured_namespace env wa)) wc (Some c, None) wd"
      and link: "returns (ProvideByIdLinkForPv env (mgets (NsPublishContext req) ''backendPvName'') (NsVolumeId req)) wd (p, None) w1"
      and core: "returns (NodeStageVolume_core env c (NodeID config) pod p) w1 (Inr cached) w2"
      and rest: "GetBlock cap \<and> w' = w2 \<or> \<not> GetBlock cap \<and>
        returns (NodeStageVolume_mount env (NsVolumeId req) (NsStagingTargetPath req) cap cached) w2 (Inr u) w'"
    have "obs (outside w1) = obs (outside w)"
      using keeps_returns [OF lookups_quiet(1) [OF quiet(2)] new] keeps_returns [OF lookups_quiet(5) [OF quiet(2)] get]
        keeps_returns [OF cas manager] keeps_returns [OF manager_quiet(5) [OF quiet(1)] link]
      by (simp add: same_obs_def)
    then show ?thesis using that [OF ns cap _ core [unfolded ProvideByIdLinkForPv_path [OF link]] rest] by blast
  qed
qed

lemma NodeStageVolume_mount_table:
  assumes laws: "mount_table_law env table" and run: "returns (NodeStageVolume_mount env volId p cap (Some v)) w (Inr u) w'"
  shows "table (outside w') = (if table (outside w) p \<noteq> None then table (outside w)
     else (table (outside w))(p \<mapsto> (Path v, requested_fs cap, requested_flags cap)))"
proof -
  have files: "files_quiet env table" using laws by (simp add: mount_table_law_def)
  have kept: "table (outside w2) = table (outside w1)" if "returns (GetDeviceFsType env d) w1 a w2" for d w1 a w2
    using keeps_returns [OF fs_quiet(1) [OF files] that] by (simp add: same_obs_def)
  have kept2: "table (outside w2) = table (outside w1)" if "returns (PrepareFs env d fs) w1 a w2" for d fs w1 a w2
    using keeps_returns [OF fs_quiet(2) [OF files] that] by (simp add: same_obs_def)
  from run obtain w1 a w2 where "returns (GetDeviceFsType env (Path v)) w a w1"
    and prep: "w2 = w1 \<or> (\<exists>b. returns (PrepareFs env (Path v) (requested_fs cap)) w1 b w2)"
    and mount: "returns (Mount env (Path v) p (requested_fs cap) (requested_flags cap) False) w2 None w'"
    unfolding NodeStageVolume_mount_def requested_fs_def [symmetric] requested_flags_def [symmetric] Let_def
    by (auto simp: returns_simps split: if_splits) blast+
  then have "table (outside w2) = table (outside w)" using kept kept2 by metis
  then show ?thesis using Mount_table [OF laws mount] by simp
qed

text \<open>
  How \<^verbatim>\<open>NodeUnstageVolume\<close> can succeed: there was no link, the volume is unknown to the cluster, or its
  core was taken off the cache.
\<close>

lemma unstage_detach_success:
  assumes "returns (NodeUnstageVolume_detach env ns volId) w (Inr u) w'"
  shows "(\<exists>e x. OsStat (host env) (GetByIdLinkPathForPv volId) (outside w) = (Some e, x) \<and> IsNotExist e) \<or>
    (\<exists>x w1 err w2. OsStat (host env) (GetByIdLinkPathForPv volId) (outside w) = (None, x) \<and>
       returns (NewK8sUtils env) (w\<lparr>outside := x\<rparr>) None w1 \<and>
       returns (GetPvByName env volId) w1 (None, err) w2 \<and> \<not> real_error err) \<or>
    (\<exists>cas pod w1 r w2. returns (NodeUnstageVolume_core env cas pod (GetByIdLinkPathForPv volId)) w1 (Inr r) w2 \<and>
       returns (cleanupByIdDir env (GetByIdLinkPathForPv volId)) w2 () w')"
  using assms unfolding NodeUnstageVolume_detach_def Let_def
  by (auto simp: returns_simps err_that_def split: option.splits)

lemma NodeUnstageVolume_steps:
  assumes "returns (NodeUnstageVolume env ns req) w (Inr u) w'"
  obtains d r x w1 where "GetDeviceNameFromMount (host env) (NuStagingTargetPath req) (outside w) = (((d, r), None), x)"
    "if d = [] then w1 = w\<lparr>outside := x\<rparr>
     else \<exists>x1. MounterUnmount (host env) (NuStagingTargetPath req) x = (None, x1) \<and> w1 = w\<lparr>outside := x1\<rparr>"
    "returns (NodeUnstageVolume_detach env ns (NuVolumeId req)) w1 (Inr u) w'"
proof -
  have "NodeUnstageVolume_rejects req = None" using assms by (rule unstage.accepted)
  then show ?thesis
    using assms that
    by (cases ns)
      (auto simp: NodeUnstageVolume_def NodeUnstageVolume_rejects_def Let_def returns_simps split: if_splits)
qed

text \<open>\<^verbatim>\<open>mounter.List\<close> reads the mount table.\<close>

definition list_law :: "'x env \<Rightarrow> ('x \<Rightarrow> string set) \<Rightarrow> bool" where
  "list_law env mounted \<longleftrightarrow>
     (\<forall>ms x x'. MounterList (host env) x = ((ms, None), x') \<longrightarrow> mounted x' = MpPath ` set ms)"

lemma NodePublishVolume_mounts:
  assumes laws: "mount_laws env mounted" and list: "list_law env mounted"
    and run: "returns (NodePublishVolume env ns req) w (Inr u) w'"
  shows "NpTargetPath req \<in> mounted (outside w')"
proof -
  have ok: "NodePublishVolume_rejects req = None" using run by (rule node_publish.accepted)
  then obtain cap where cap: "NpVolumeCapability req = Some cap"
    by (auto simp: NodePublishVolume_rejects_def split: if_splits)
  note mount = Mount_mounts [OF laws]
  have check: "t \<in> mounted (outside w2)"
    if "returns (NodePublishVolume_check env v s t f m) w1 (Some (Inr u)) w2" for v s t f m w1 w2
  proof -
    from that obtain ms x x' mp where "MounterList (host env) x = ((ms, None), x')" "w2 = w1\<lparr>outside := x'\<rparr>"
      "List.find (\<lambda>m. MpPath m = t) ms = Some mp"
      by (auto simp: NodePublishVolume_check_def returns_simps)
    then show ?thesis using list find_Some_first [of "\<lambda>m. MpPath m = t" ms mp] by (auto simp: list_law_def)
  qed
  show ?thesis
    using run ok cap mount check
    by (cases ns)
      (auto simp: NodePublishVolume_def NodePublishVolume_rejects_def Let_def returns_simps split: if_splits)
qed

lemma NodeUnpublishVolume_unmounts:
  assumes laws: "mount_laws env mounted" and run: "returns (NodeUnpublishVolume env ns req) w (Inr u) w'"
  shows "NnTargetPath req \<notin> mounted (outside w')"
proof -
  have ok: "NodeUnpublishVolume_rejects req = None" using run by (rule node_unpublish.accepted)
  have likely: "p \<notin> mounted x'" if "IsLikelyNotMountPoint (host env) p x = ((b, err), x')"
      "err = None \<and> b \<or> err_that IsNotExist err" for p b err x x'
  proof -
    have "mounted x' = mounted x"
      using mount_lawsD(1) [OF laws] that(1) unfolding files_quiet_def by (metis snd_conv)
    then show ?thesis using mount_lawsD(4) [OF laws that(1)] that(2) by auto
  qed
  have remove: "mounted x' = mounted x" if "OsRemove (host env) p x = (e, x')" for p e x x'
    using mount_lawsD(1) [OF laws] that unfolding files_quiet_def by (metis snd_conv)
  show ?thesis
    using run ok likely remove mount_lawsD(3) [OF laws]
    by (cases ns)
      (fastforce simp: NodeUnpublishVolume_def NodeUnpublishVolume_rejects_def Let_def returns_simps split: if_splits)+
qed

lemma NodeStageVolume_effect:
  assumes lists: "casadm_lists env st" "ls_quiet env st" and quiet: "files_quiet env st" "mount_quiet env st"
    and laws: "mount_table_law env table" "casadm_quiet env table" "reads_quiet env table"
    and run: "returns (NodeStageVolume env ns req) w (Inr u) w'"
  shows "\<exists>cap v. NsVolumeCapability req = Some cap \<and>
    find_volume (st (outside w')) (GetByIdLinkPathForPv (NsVolumeId req)) = Some v \<and>
    table (outside w') =
      (if GetBlock cap \<or> table (outside w) (NsStagingTargetPath req) \<noteq> None then table (outside w)
       else (table (outside w))(NsStagingTargetPath req \<mapsto> (Path v, requested_fs cap, requested_flags cap)))"
proof (rule NodeStageVolume_success [OF laws(2,3) run])
  fix config cap pod cas w1 cached w2
  assume cap: "NsVolumeCapability req = Some cap" and before: "table (outside w1) = table (outside w)"
    and core: "returns (NodeStageVolume_core env cas (NodeID config) pod (GetByIdLinkPathForPv (NsVolumeId req))) w1 (Inr cached) w2"
    and rest: "GetBlock cap \<and> w' = w2 \<or> \<not> GetBlock cap \<and>
      returns (NodeStageVolume_mount env (NsVolumeId req) (NsStagingTargetPath req) cap cached) w2 (Inr u) w'"
  obtain v where v: "cached = Some v" "find_volume (st (outside w2)) (GetByIdLinkPathForPv (NsVolumeId req)) = Some v"
    using stage_attaches [OF lists core] by blast
  have table: "table (outside w2) = table (outside w)"
    using keeps_returns [OF stage_core_quiet [OF laws(2,3)] core] before by (simp add: same_obs_def)
  show ?thesis
  proof (cases "GetBlock cap")
    case True
    then show ?thesis using rest v(2) cap table by auto
  next
    case False
    then have mnt: "returns (NodeStageVolume_mount env (NsVolumeId req) (NsStagingTargetPath req) cap (Some v)) w2 (Inr u) w'"
      using rest v(1) by blast
    have "st (outside w') = st (outside w2)"
      using keeps_returns [OF stage_mount_quiet [OF quiet] mnt] by (simp add: same_obs_def)
    then show ?thesis using v(2) cap False NodeStageVolume_mount_table [OF laws(1) mnt] table by auto
  qed
qed

text \<open>A lookup that finds no persistent volume, without a real error, is right.\<close>

lemma GetPvByName_absent:
  assumes laws: "known_volumes_law env known" and run: "returns (GetPvByName env n) w (None, err) w'" "\<not> real_error err"
  shows "n \<notin> known (outside w)"
proof -
  obtain pv x where "PVs_Get (kube env) n (outside w) = ((pv, err), x)" "Name (PvMeta pv) = []"
    using run(1) by (auto simp: GetPvByName_def returns_simps split: if_splits)
  then show ?thesis using laws run(2) unfolding known_volumes_law_def by (cases err) fastforce+
qed

lemma NodeUnstageVolume_effect:
  assumes lists: "casadm_lists env st" "ls_quiet env st" and files: "files_quiet env st"
    and laws: "mount_laws env mounted" and quiet: "casadm_quiet env mounted" "reads_quiet env mounted"
    and looks: "links_law env links" "known_volumes_law env known"
    and run: "returns (NodeUnstageVolume env ns req) w (Inr u) w'"
    and link: "link = GetByIdLinkPathForPv (NuVolumeId req)"
  shows "NuStagingTargetPath req \<notin> mounted (outside w')"
    and "link \<in> links (outside w) \<Longrightarrow> NuVolumeId req \<in> known (outside w) \<Longrightarrow> find_volume (st (outside w')) link = None"
proof -
  from run obtain d r x w1 where dev: "GetDeviceNameFromMount (host env) (NuStagingTargetPath req) (outside w) = (((d, r), None), x)"
    and unmount: "if d = [] then w1 = w\<lparr>outside := x\<rparr>
     else \<exists>x1. MounterUnmount (host env) (NuStagingTargetPath req) x = (None, x1) \<and> w1 = w\<lparr>outside := x1\<rparr>"
    and rest: "returns (NodeUnstageVolume_detach env ns (NuVolumeId req)) w1 (Inr u) w'"
    by (rule NodeUnstageVolume_steps)
  have "NuStagingTargetPath req \<notin> mounted (outside w1)"
    using mount_lawsD(5) [OF laws dev] mount_lawsD(3) [OF laws] unmount by (auto split: if_splits)
  moreover have "mounted (outside w') = mounted (outside w1)"
    using keeps_returns [OF unstage_detach_quiet [OF mount_lawsD(1) [OF laws] quiet] rest] by (simp add: same_obs_def)
  ultimately show "NuStagingTargetPath req \<notin> mounted (outside w')" by simp
  have same: "obs (outside w1) = obs (outside w)" if "unmount_quiet env obs" for obs :: "'a \<Rightarrow> string set"
    using that dev unmount unfolding unmount_quiet_def by (metis snd_conv world.select_convs(3) world.surjective world.update_convs(3))
  assume there: "link \<in> links (outside w)" "NuVolumeId req \<in> known (outside w)"
  have stat: False if "OsStat (host env) link (outside w1) = (Some e, x)" "IsNotExist e" for e x
    using that looks(1) same [of links] there(1) unfolding links_law_def by blast
  have found: False if "OsStat (host env) link (outside w1) = (e, x)" "returns (NewK8sUtils env) (w1\<lparr>outside := x\<rparr>) None w2"
      "returns (GetPvByName env (NuVolumeId req)) w2 (None, err) w3" "\<not> real_error err" for e x w2 err w3
  proof -
    note law = looks(2) [unfolded known_volumes_law_def]
    have "known x = known (outside w1)" using law that(1) by (metis snd_conv)
    moreover have "known (outside w2) = known x"
      using keeps_returns [OF lookups_quiet(1) [of env known] that(2)] law by (simp add: same_obs_def)
    ultimately have "known (outside w2) = known (outside w)" using same law by metis
    then show False using GetPvByName_absent [OF looks(2) that(3,4)] there(2) by simp
  qed
  from unstage_detach_success [OF rest, folded link] stat found
  obtain cas pod w2 s w3 where core: "returns (NodeUnstageVolume_core env cas pod link) w2 (Inr s) w3"
    and clean: "returns (cleanupByIdDir env link) w3 () w'" by metis
  show "find_volume (st (outside w')) link = None"
    using unstage_detaches [OF lists core] keeps_returns [OF fs_quiet(3) [OF files] clean] by (simp add: same_obs_def)
qed

section \<open>An example node\<close>

lemma node_files:
  "files_quiet node_env mem_caches" "mount_quiet node_env mem_caches" "mount_laws node_env mem_mounted"
  "casadm_quiet node_env mem_mounted" "reads_quiet node_env mem_mounted" "list_law node_env mem_mounted"
proof -
  show "files_quiet node_env mem_caches" "mount_quiet node_env mem_caches"
    by (simp_all add: files_quiet_def mount_quiet_def node_env_def mem_env_def mem_host_def mem_caches_def)
  have quiet: "files_quiet node_env mem_mounted"
    by (simp add: files_quiet_def node_env_def mem_env_def mem_host_def mem_mounted_def)
  show "mount_laws node_env mem_mounted"
    unfolding mount_laws_def
  proof (intro conjI quiet allI impI)
    fix p x d r x'
    assume run: "GetDeviceNameFromMount (host node_env) p x = (((d, r), None), x')"
    then show "mem_mounted x' = mem_mounted x"
      by (auto simp: node_env_def mem_env_def mem_host_def split: list.splits)
    assume "d = []"
    with run show "p \<notin> mem_mounted x"
      by (auto simp: node_env_def mem_env_def mem_host_def mem_mounted_def filter_empty_conv split: list.splits)
  qed (auto simp: node_env_def mem_env_def mem_host_def mem_mounted_def IsNotExist_def split: if_splits)
  show "casadm_quiet node_env mem_mounted"
    unfolding casadm_quiet_def mem_mounted_def node_env_def mem_env_def
    by (simp add: mem_shell_keeps mem_kube_def)
  show "reads_quiet node_env mem_mounted" by (simp add: node_env_def mem_quiet)
  show "list_law node_env mem_mounted"
    by (auto simp: list_law_def node_env_def mem_env_def mem_host_def mem_mounted_def)
qed

text \<open>The mount table of the node, its paths and the persistent volumes of its cluster.\<close>

definition mem_table :: "mem \<Rightarrow> mount_table" where
  "mem_table x = map_of (map (\<lambda>m. (MpPath m, (MpDevice m, MpType m, MpOpts m))) (MemMounts x))"

lemma mem_table_dom: "dom (mem_table x) = mem_mounted x"
  by (force simp: mem_table_def mem_mounted_def dom_map_of_conv_image_fst)

lemma node_mounts:
  "mount_table_law node_env mem_table" "casadm_quiet node_env mem_table" "reads_quiet node_env mem_table"
  "links_law node_env (\<lambda>x. set (MemPaths x))" "known_volumes_law node_env (\<lambda>x. set (MemVolumes x) - {[]})"
proof -
  have files: "files_quiet node_env mem_table"
    by (simp add: files_quiet_def node_env_def mem_env_def mem_host_def mem_table_def)
  have enter: "mem_table x' = (mem_table x)(p \<mapsto> (src, fs, opts))"
    if "MounterMount (host node_env) src p fs opts x = (None, x')" for src p fs opts x x'
    using that by (auto simp: node_env_def mem_env_def mem_host_def mem_table_def)
  show "mount_table_law node_env mem_table"
    unfolding mount_table_law_def mem_table_dom using node_files(3) files enter by blast
  show "casadm_quiet node_env mem_table"
    unfolding casadm_quiet_def mem_table_def node_env_def mem_env_def
    by (simp add: mem_shell_keeps mem_kube_def)
  show "reads_quiet node_env mem_table" by (simp add: node_env_def mem_quiet)
  show "links_law node_env (\<lambda>x. set (MemPaths x))"
    by (auto simp: links_law_def unmount_quiet_def node_env_def mem_env_def mem_host_def split: if_splits list.split)
  let ?known = "\<lambda>x. set (MemVolumes x) - {[]}"
  have "unmount_quiet node_env ?known" "?known (snd (OsStat (host node_env) p x)) = ?known x" for p x
    by (simp_all add: unmount_quiet_def node_env_def mem_env_def mem_host_def split: list.split)
  moreover have "(err = None \<longrightarrow> Name (PvMeta pv) \<noteq> []) \<and> (err_that NotFoundText err \<longrightarrow> n \<notin> ?known x)"
    if "PVs_Get (kube node_env) n x = ((pv, err), x')" for n x pv err x'
    using that by (auto simp: node_env_def mem_env_def mem_kube_def named_def split: if_splits)
  moreover have "reads_quiet node_env ?known" by (simp add: node_env_def mem_quiet)
  ultimately show "known_volumes_law node_env ?known" unfolding known_volumes_law_def by blast
qed

definition node_config :: Config where
  "node_config = \<lparr>DriverName = ''csi.open-cas.com'', Endpoint = ''unix:///csi.sock'', NodeID = ''node1'',
     VendorVersion = ''v1'', ShowVersion = False, DeviceManager = [], SingleCache = False,
     StartControllerServer = False, StartNodeServer = True\<rparr>"

definition demo_stage :: NodeStageVolumeRequest where
  "demo_stage = \<lparr>NsVolumeId = ''pvc-0'', NsStagingTargetPath = ''/staging'', NsVolumeCapability = Some AccessBlock,
     NsPublishContext = Some [(''backendPvName'', ''pv-0'')]\<rparr>"

definition demo_unstage :: NodeUnstageVolumeRequest where
  "demo_unstage = \<lparr>NuVolumeId = ''pvc-0'', NuStagingTargetPath = ''/staging''\<rparr>"

lemma demo_process:
  "NewK8sUtils node_env demo_node = (Ret None, demo_node)" "NewK8sUtils node_env demo_attached = (Ret None, demo_attached)"
  "ConfiguredProtectedNamespace node_env demo_node = (Ret ''opencas-csi-protected'', demo_node)"
  "ConfiguredProtectedNamespace node_env demo_attached = (Ret ''opencas-csi-protected'', demo_attached)"
  "ConfiguredKubeletDir node_env demo_node = (Ret ''/var/lib/kubelet'', demo_node)"
  by (simp_all add: NewK8sUtils_def bnd_Ret bnd_call ConfiguredProtectedNamespace_run ConfiguredKubeletDir_run
      configured_namespace_def configured_kubelet_dir_def demo_attached_def demo_node_def node_env_def mem_env_def mem_kube_def)

lemma demo_pod:
  "\<exists>pod. GetIntermediatePodByName node_env ''node1-pvc-0'' ''opencas-csi-protected'' demo_node = (Ret (Some pod, None), demo_node)"
  "\<exists>pod. GetIntermediatePodByName node_env ''node1-pvc-0'' ''opencas-csi-protected'' demo_attached =
     (Ret (Some pod, None), demo_attached)"
  by (simp_all add: GetIntermediatePodByName_def bnd_call node_env_def mem_env_def mem_kube_def on_pods_def mem_get_def
      mem_obs_def demo_attached_def demo_node_def)

lemma demo_link: "ProvideByIdLinkForPv node_env ''pv-0'' ''pvc-0'' demo_node = (Ret (demo_path, None), demo_node)"
proof -
  have cmd: "last (Split (''mkdir -p '' @ CsiDriverByIdDir @ '' && ln -f -s '' @ ''/dev/sdb'' @ '' '' @ demo_path) '' '') =
      ''/dev/disk/by-id/opencas-csi/pvc-0''"
    by code_simp
  have dev: "TrimSpace (hd (SplitN2 ''/dev/sdb'' [NL])) = ''/dev/sdb''" by code_simp
  have find: "ExecLocalCommand node_env (''find'' @ cmd) demo_node = (Ret (Some \<lparr>StdOut = ''/dev/sdb'', ExitCode = 0\<rparr>, None), demo_node)" for cmd
    by (simp add: ExecLocalCommand_def bnd_call node_env_def mem_env_def mem_host_def)
  have link: "ExecLocalCommand node_env (''mkdir -p '' @ CsiDriverByIdDir @ '' && ln -f -s '' @ ''/dev/sdb'' @ '' '' @ demo_path) demo_node =
      (Ret (Some \<lparr>StdOut = [], ExitCode = 0\<rparr>, None), demo_node)"
    unfolding ExecLocalCommand_def bnd_call node_env_def mem_env_def mem_host_def
    by (simp add: cmd [simplified] demo_node_def)
  show ?thesis
    using find link
    by (simp add: ProvideByIdLinkForPv_def bnd_Ret demo_process dev demo_path_def Let_def)
qed

lemma demo_names: "getPodNameForPv ''pvc-0'' (NodeID node_config) = ''node1-pvc-0''"
  "GetByIdLinkPathForPv ''pvc-0'' = demo_path"
  by (simp_all add: getPodNameForPv_def node_config_def demo_path_def)

lemma demo_core_run:
  "NodeStageVolume_core node_env cas (NodeID node_config) pod demo_path demo_node = (Ret (Inr (Some demo_volume)), demo_attached)"
proof -
  have label: "mget (Labels (NodeMeta \<lparr>NodeMeta = named ''node1'', Conditions = []\<rparr>)) OperatingCacheLabelKey = None"
    by (simp add: named_def)
  have cache: "NodeStageVolume_cache node_env cas (NodeID node_config) pod demo_node = (Ret (Inr demo_cache), demo_node)"
    using label
    by (simp add: NodeStageVolume_cache_def GetCacheInstances_def Let_def bnd_Ret demo_lists bnd_assoc bnd_call)
      (simp add: node_env_def mem_env_def mem_kube_def node_config_def demo_node_def)
  show ?thesis
    using demo_add_run [of cas] by (simp add: NodeStageVolume_core_def bnd_Ret demo_gets cache returns_def)
qed

text \<open>A mount volume is staged: a core is added for it, the new device is formatted and mounted.\<close>

definition demo_stage_mount :: NodeStageVolumeRequest where
  "demo_stage_mount = demo_stage\<lparr>NsVolumeCapability := Some (AccessMount \<lparr>FsType = ''xfs'', MountFlags = [''noatime'']\<rparr>)\<rparr>"

definition demo_mounted_volume :: "mem world" where
  "demo_mounted_volume = demo_attached\<lparr>outside := (outside demo_attached)\<lparr>MemMounts :=
     [\<lparr>MpDevice = ''/dev/cas1-1'', MpPath = ''/staging'', MpType = ''xfs'', MpOpts = [''noatime'']\<rparr>]\<rparr>\<rparr>"

lemma demo_stage_mount_run:
  "returns (NodeStageVolume node_env (Some node_config) demo_stage_mount) demo_node (Inr ()) demo_mounted_volume"
proof -
  obtain pod where pod: "GetIntermediatePodByName node_env ''node1-pvc-0'' ''opencas-csi-protected'' demo_node =
      (Ret (Some pod, None), demo_node)" using demo_pod by blast
  have manager: "NewOpenCasManager node_env n ns demo_node = (Ret (Some \<lparr>CasNodeId = n, CasNamespace = ns\<rparr>, None), demo_node)" for n ns
    by (simp add: NewOpenCasManager_def bnd_Ret demo_process)
  have ctx: "mgets (NsPublishContext demo_stage_mount) ''backendPvName'' = ''pv-0''"
    by (simp add: demo_stage_mount_def demo_stage_def mgets_def)
  have cap: "NsVolumeCapability demo_stage_mount = Some (AccessMount \<lparr>FsType = ''xfs'', MountFlags = [''noatime'']\<rparr>)"
    and fields: "NsVolumeId demo_stage_mount = ''pvc-0''" "NsStagingTargetPath demo_stage_mount = ''/staging''"
    by (simp_all add: demo_stage_mount_def demo_stage_def)
  have trim: "TrimSpace [] = []" by (simp add: TrimSpace_def)
  have path: "Path demo_volume = ''/dev/cas1-1''" by (simp add: demo_volume_def)
  have fs: "GetDeviceFsType node_env d demo_attached = (Ret ([], None), demo_attached)" for d
    by (simp add: GetDeviceFsType_def bnd_call node_env_def mem_env_def mem_host_def trim)
  have "call (CmdOutput (host node_env) cmd args) demo_attached = (Ret ([], None), demo_attached)" for cmd args
    by (simp add: call_def node_env_def mem_env_def mem_host_def)
  then have prep: "PrepareFs node_env d ''xfs'' demo_attached = (Ret None, demo_attached)" for d
    by (simp add: PrepareFs_def CreateFs_def bnd_Ret fs)
  have mnt: "Mount node_env ''/dev/cas1-1'' ''/staging'' ''xfs'' [''noatime''] False demo_attached = (Ret None, demo_mounted_volume)"
    by (simp add: Mount_def bnd_call bnd_assoc node_env_def mem_env_def mem_host_def demo_attached_def demo_node_def
        demo_mounted_volume_def IsExist_def) (simp add: call_def)
  have mount: "NodeStageVolume_mount node_env ''pvc-0'' ''/staging'' (AccessMount \<lparr>FsType = ''xfs'', MountFlags = [''noatime'']\<rparr>)
      (Some demo_volume) demo_attached = (Ret (Inr ()), demo_mounted_volume)"
    using fs prep mnt by (simp add: NodeStageVolume_mount_def Let_def bnd_Ret path)
  show ?thesis
    using pod manager demo_core_run ctx mount
    by (simp add: returns_def NodeStageVolume_def Let_def bnd_Ret demo_process demo_names demo_link cap fields)
qed

definition demo_unstaged :: "mem world" where
  "demo_unstaged = demo_node\<lparr>outside := (outside demo_node)\<lparr>MemPaths := [''/staging'']\<rparr>\<rparr>"

lemma demo_detach_run: "NodeUnstageVolume_detach node_env (Some node_config) ''pvc-0'' demo_attached = (Ret (Inr ()), demo_unstaged)"
proof -
  obtain pod where pod: "GetIntermediatePodByName node_env ''node1-pvc-0'' ''opencas-csi-protected'' demo_attached =
      (Ret (Some pod, None), demo_attached)" using demo_pod by blast
  have manager: "NewOpenCasManager node_env n ns demo_attached = (Ret (Some \<lparr>CasNodeId = n, CasNamespace = ns\<rparr>, None), demo_attached)" for n ns
    by (simp add: NewOpenCasManager_def bnd_Ret demo_process)
  have core: "NodeUnstageVolume_core node_env cas pod demo_path demo_attached = (Ret (Inr ()), demo_node)" for cas
    using demo_remove_run [of cas] by (simp add: NodeUnstageVolume_core_def bnd_Ret demo_gets returns_def)
  have path: "demo_path = ''/dev/disk/by-id/opencas-csi/pvc-0''" "CsiDriverByIdDir = ''/dev/disk/by-id/opencas-csi''"
    by code_simp+
  have clean: "cleanupByIdDir node_env demo_path demo_node = (Ret (), demo_unstaged)"
    unfolding cleanupByIdDir_def path
    by (simp add: bnd_call node_env_def mem_env_def mem_host_def demo_unstaged_def demo_node_def)
  have pv: "\<exists>pv. GetPvByName node_env ''pvc-0'' demo_attached = (Ret (Some pv, None), demo_attached)"
    by (simp add: GetPvByName_def bnd_call node_env_def mem_env_def mem_kube_def named_def demo_attached_def demo_node_def)
  have stat: "call (OsStat (host node_env) demo_path) demo_attached = (Ret None, demo_attached)"
    unfolding path by (simp add: call_def node_env_def mem_env_def mem_host_def demo_attached_def demo_node_def)
  show ?thesis
    using pod manager core clean pv stat
    by (auto simp: NodeUnstageVolume_detach_def Let_def bnd_Ret demo_process demo_names)
qed

text \<open>Unstaging the mount volume unmounts it and takes its core off.\<close>

lemma demo_unstage_run:
  "returns (NodeUnstageVolume node_env (Some node_config) demo_unstage) demo_mounted_volume (Inr ()) demo_unstaged"
proof -
  have dev: "call (GetDeviceNameFromMount (host node_env) ''/staging'') demo_mounted_volume =
      (Ret ((''/dev/dev/cas1-1'', 1), None), demo_mounted_volume)"
    by (simp add: call_def node_env_def mem_env_def mem_host_def demo_mounted_volume_def)
  have unmount: "call (MounterUnmount (host node_env) ''/staging'') demo_mounted_volume = (Ret None, demo_attached)"
    by (simp add: call_def node_env_def mem_env_def mem_host_def demo_mounted_volume_def demo_attached_def demo_node_def)
  show ?thesis
    using dev unmount demo_detach_run by (simp add: returns_def NodeUnstageVolume_def Let_def bnd_Ret demo_unstage_def)
qed

section \<open>Properties of the node service\<close>

text \<open>
  C3: After a successful \<^verbatim>\<open>NodeStageVolume\<close> the node lists a cached volume on the link of the volume. For a
  volume that is not a block volume, the device of this cached volume is mounted on the staging path, with the requested
  file system and options; only if something was mounted there before the call, the mount is left as it is.
  For a block volume, and at every other path, nothing is mounted or unmounted.
\<close>

theorem NodeStageVolume_stages:
  assumes "casadm_lists env st" "ls_quiet env st" "files_quiet env st" "mount_quiet env st"
    and "mount_table_law env table" "casadm_quiet env table" "reads_quiet env table"
    and "returns (NodeStageVolume env ns req) w (Inr u) w'"
  shows "\<exists>cap v. NsVolumeCapability req = Some cap \<and>
    find_volume (st (outside w')) (GetByIdLinkPathForPv (NsVolumeId req)) = Some v \<and>
    table (outside w') =
      (if GetBlock cap \<or> table (outside w) (NsStagingTargetPath req) \<noteq> None then table (outside w)
       else (table (outside w))(NsStagingTargetPath req \<mapsto> (Path v, requested_fs cap, requested_flags cap)))"
  using NodeStageVolume_effect [OF assms] .

theorem NodeStageVolume_stages_witness:
  "\<exists>v. find_volume (mem_caches (outside demo_mounted_volume)) (GetByIdLinkPathForPv ''pvc-0'') = Some v \<and>
     mem_table (outside demo_node) ''/staging'' = None \<and>
     mem_table (outside demo_mounted_volume) ''/staging'' = Some (Path v, ''xfs'', [''noatime''])"
proof -
  have free: "mem_table (outside demo_node) ''/staging'' = None" by (simp add: mem_table_def demo_node_def)
  show ?thesis
    using NodeStageVolume_stages [OF node_laws node_files(1,2) node_mounts(1-3) demo_stage_mount_run] free
    by (auto simp: demo_stage_mount_def demo_stage_def requested_fs_def requested_flags_def)
qed

text \<open>
  C4: After a successful \<^verbatim>\<open>NodeUnstageVolume\<close> the staging path is no mount point. If the link of the volume
  exists and the cluster knows the persistent volume when the handler is called, the node lists no cached volume on the
  link any more. In the other two cases the handler does not look for one.
\<close>

theorem NodeUnstageVolume_unstages:
  assumes "casadm_lists env st" "ls_quiet env st" "files_quiet env st"
    and "mount_laws env mounted" "casadm_quiet env mounted" "reads_quiet env mounted"
    and "links_law env links" "known_volumes_law env known"
    and "returns (NodeUnstageVolume env ns req) w (Inr u) w'"
    and "link = GetByIdLinkPathForPv (NuVolumeId req)"
  shows "NuStagingTargetPath req \<notin> mounted (outside w') \<and>
    (link \<in> links (outside w) \<and> NuVolumeId req \<in> known (outside w) \<longrightarrow> find_volume (st (outside w')) link = None)"
  using NodeUnstageVolume_effect [OF assms] by blast

theorem NodeUnstageVolume_unstages_witness:
  "''/staging'' \<in> mem_mounted (outside demo_mounted_volume) \<and>
   find_volume (mem_caches (outside demo_mounted_volume)) demo_path \<noteq> None \<and>
   ''/staging'' \<notin> mem_mounted (outside demo_unstaged) \<and>
   find_volume (mem_caches (outside demo_unstaged)) demo_path = None"
proof -
  have "mem_caches (outside demo_mounted_volume) = mem_caches (outside demo_attached)"
    by (simp add: mem_caches_def demo_mounted_volume_def)
  then have before: "find_volume (mem_caches (outside demo_mounted_volume)) demo_path \<noteq> None"
    by (simp add: demo_caches demo_find del: find_volume.simps)
  have "demo_path = ''/dev/disk/by-id/opencas-csi/pvc-0''" by code_simp
  then have there: "demo_path \<in> set (MemPaths (outside demo_mounted_volume))"
    "''pvc-0'' \<in> set (MemVolumes (outside demo_mounted_volume)) - {[]}"
    by (simp_all add: demo_mounted_volume_def demo_attached_def demo_node_def)
  have "''/staging'' \<in> mem_mounted (outside demo_mounted_volume)" by (simp add: mem_mounted_def demo_mounted_volume_def)
  moreover have "NuStagingTargetPath demo_unstage = ''/staging''" "NuVolumeId demo_unstage = ''pvc-0''"
    by (simp_all add: demo_unstage_def)
  ultimately show ?thesis
    using NodeUnstageVolume_unstages [OF node_laws node_files(1,3,4,5) node_mounts(4,5) demo_unstage_run refl]
      before there unfolding demo_names(2) by (simp add: demo_names)
qed

text \<open>
  C17: A volume that is not attached yet is added only to a cache that the node lists: to the one whose
  id is the value of the operating-cache label of the node, and when the node has no such label, only if
  there is exactly one cache. An empty label means that no cache is used.
\<close>

theorem NodeStageVolume_cache_selection:
  assumes "returns (NodeStageVolume_cache env cas nodeId pod) w (Inr cache) w'"
  shows "\<exists>instances w1 node. returns (ListCaches env cas) w (instances, None) w1 \<and> cache \<in> set instances \<and>
    Nodes_Get (kube env) nodeId (outside w1) = ((node, None), outside w') \<and>
    (case mget (Labels (NodeMeta node)) OperatingCacheLabelKey of
       Some idString \<Rightarrow> idString \<noteq> [] \<and> Atoi idString = (CacheId cache, None)
     | None \<Rightarrow> instances = [cache])"
  using NodeStageVolume_cache_choice [OF assms] .

theorem NodeStageVolume_cache_selection_witness:
  "\<exists>instances. demo_cache \<in> set instances \<and> (\<exists>w1. returns (ListCaches node_env demo_cas) demo_node (instances, None) w1)"
proof -
  have label: "mget (Labels (NodeMeta \<lparr>NodeMeta = named ''node1'', Conditions = []\<rparr>)) OperatingCacheLabelKey = None"
    by (simp add: named_def)
  have "returns (NodeStageVolume_cache node_env demo_cas ''node1'' Pod_zero) demo_node (Inr demo_cache) demo_node"
    using label
    by (simp add: returns_def NodeStageVolume_cache_def GetCacheInstances_def Let_def bnd_Ret demo_lists bnd_assoc bnd_call)
      (simp add: node_env_def mem_env_def mem_kube_def demo_node_def)
  from NodeStageVolume_cache_selection [OF this] show ?thesis by blast
qed

text \<open>
  C18: Staging never formats a device that carries a file system. When the device of the cached volume
  reports one, no file system is made: with another type than the requested one the answer is
  \<^verbatim>\<open>AlreadyExists\<close> and nothing else is called, with the same type the device is mounted as it is.
\<close>

theorem NodeStageVolume_keeps_filesystem:
  assumes "CmdOutput (host env) ''lsblk'' (lsblk_args (Path v) ''FSTYPE'') (outside w) = ((out, None), x)"
    and "TrimSpace out \<noteq> []"
  shows "NodeStageVolume_mount env volId p cap (Some v) w =
    (if TrimSpace out = requested_fs cap then
       bnd (Mount env (Path v) p (requested_fs cap) (requested_flags cap) False) (\<lambda>err.
         if err \<noteq> None then
           fail Internal (''node stage volume - cannot mount volume '' @ fmt_q volId @ '': '' @ err_text err)
         else reply ()) (w\<lparr>outside := x\<rparr>)
     else (Ret (Inl (Status AlreadyExists (''node stage volume - file system '' @ fmt_q (TrimSpace out)
             @ '' found, requested file system '' @ fmt_q (requested_fs cap)))), w\<lparr>outside := x\<rparr>))"
  unfolding NodeStageVolume_mount_def requested_fs_def [symmetric] requested_flags_def [symmetric] Let_def
  using assms by (simp add: GetDeviceFsType_def bnd_call bnd_assoc)

definition formatted_env :: "mem env" where
  "formatted_env = node_env\<lparr>host := (host node_env)\<lparr>CmdOutput := (\<lambda>cmd args x. ((''xfs'', None), x))\<rparr>\<rparr>"

theorem NodeStageVolume_keeps_filesystem_witness:
  "fst (NodeStageVolume_mount formatted_env ''pvc-0'' ''/staging'' (AccessMount \<lparr>FsType = ''ext4'', MountFlags = []\<rparr>)
     (Some demo_volume) demo_node) = Ret (Inl (Status AlreadyExists (''node stage volume - file system '' @ fmt_q ''xfs''
       @ '' found, requested file system '' @ fmt_q ''ext4'')))"
proof -
  have "TrimSpace ''xfs'' = ''xfs''" by code_simp
  then show ?thesis
    using NodeStageVolume_keeps_filesystem [of formatted_env demo_volume demo_node "''xfs''" "outside demo_node" "''pvc-0''"
        "''/staging''" "AccessMount \<lparr>FsType = ''ext4'', MountFlags = []\<rparr>"]
    by (simp add: formatted_env_def requested_fs_def)
qed

text \<open>
  C24: After a successful \<^verbatim>\<open>NodePublishVolume\<close> the target path is a mount point, whether the handler
  mounted it or found a compatible mount there.
\<close>

theorem NodePublishVolume_publishes:
  assumes "mount_laws env mounted" "list_law env mounted" "returns (NodePublishVolume env ns req) w (Inr u) w'"
  shows "NpTargetPath req \<in> mounted (outside w')"
  using NodePublishVolume_mounts [OF assms] .

definition demo_node_publish :: NodePublishVolumeRequest where
  "demo_node_publish = \<lparr>NpVolumeId = ''pvc-0'', NpVolumeCapability = Some (AccessMount \<lparr>FsType = ''ext4'', MountFlags = [''noatime'']\<rparr>),
     NpTargetPath = ''/target'', NpStagingTargetPath = ''/staging'', NpReadonly = False\<rparr>"

definition demo_bound :: "mem world" where
  "demo_bound = snd (NodePublishVolume node_env (Some node_config) demo_node_publish demo_node)"

lemma demo_node_publish_run:
  "returns (NodePublishVolume node_env (Some node_config) demo_node_publish) demo_node (Inr ()) demo_bound"
  unfolding demo_bound_def by (rule returns_snd) code_simp

theorem NodePublishVolume_publishes_witness: "''/target'' \<in> mem_mounted (outside demo_bound)"
  using NodePublishVolume_publishes [OF node_files(3,6) demo_node_publish_run] by (simp add: demo_node_publish_def)

text \<open>
  C25: After a successful \<^verbatim>\<open>NodeUnpublishVolume\<close> the target path is no mount point, and on a target path
  that does not exist the handler succeeds without changing anything.
\<close>

theorem NodeUnpublishVolume_unpublishes:
  assumes "mount_laws env mounted"
  shows "(returns (NodeUnpublishVolume env ns req) w (Inr u) w' \<longrightarrow> NnTargetPath req \<notin> mounted (outside w')) \<and>
    (NodeUnpublishVolume_rejects req = None \<and>
     IsLikelyNotMountPoint (host env) (NnTargetPath req) (outside w) = ((b, Some (Error msg KNotExist)), x) \<longrightarrow>
       NodeUnpublishVolume env (Some c) req w = (Ret (Inr ()), w\<lparr>outside := x\<rparr>))"
proof (intro conjI impI)
  show "NnTargetPath req \<notin> mounted (outside w')" if "returns (NodeUnpublishVolume env ns req) w (Inr u) w'"
    using NodeUnpublishVolume_unmounts [OF assms that] .
  assume "NodeUnpublishVolume_rejects req = None \<and>
     IsLikelyNotMountPoint (host env) (NnTargetPath req) (outside w) = ((b, Some (Error msg KNotExist)), x)"
  then show "NodeUnpublishVolume env (Some c) req w = (Ret (Inr ()), w\<lparr>outside := x\<rparr>)"
    by (simp add: NodeUnpublishVolume_def NodeUnpublishVolume_rejects_def Let_def bnd_call IsNotExist_def split: if_splits)
qed

definition demo_node_unpublish :: NodeUnpublishVolumeRequest where
  "demo_node_unpublish = \<lparr>NnVolumeId = ''pvc-0'', NnTargetPath = ''/target''\<rparr>"

lemma demo_node_unpublish_run:
  "returns (NodeUnpublishVolume node_env (Some node_config) demo_node_unpublish) demo_bound (Inr ())
     (snd (NodeUnpublishVolume node_env (Some node_config) demo_node_unpublish demo_bound))"
  by (rule returns_snd) code_simp

theorem NodeUnpublishVolume_unpublishes_witness:
  "''/target'' \<notin> mem_mounted (outside (snd (NodeUnpublishVolume node_env (Some node_config) demo_node_unpublish demo_bound)))"
  using NodeUnpublishVolume_unpublishes [OF node_files(3), THEN conjunct1] demo_node_unpublish_run
  by (fastforce simp: demo_node_unpublish_def)

lemma findMountFlags_iff:
  "findMountFlags flags findIn \<longleftrightarrow>
     (\<forall>f\<in>set flags. f \<in> set findIn \<or> f = ''dax=always'' \<and> ''dax'' \<in> set findIn \<or> f = ''dax'' \<and> ''dax=always'' \<in> set findIn)"
  by (auto simp: findMountFlags_def list_all_iff list_ex_iff)

text \<open>
  C30: Publishing a mount volume again to the path it is mounted on is refused with \<^verbatim>\<open>AlreadyExists\<close>
  whenever the mount table does not show the option \<^verbatim>\<open>bind\<close> for the path, whatever else matches: the
  handler compares the options of the mount with the flags it mounts with, and \<^verbatim>\<open>bind\<close> is one of those.
\<close>

theorem NodePublishVolume_republish:
  assumes "NpVolumeId req \<noteq> []" "NpVolumeCapability req = Some (AccessMount mnt)" "NpTargetPath req \<noteq> []"
    and "NpStagingTargetPath req \<noteq> []"
    and "IsMountPoint (host env) (NpTargetPath req) (outside w) = ((True, None), x1)"
    and "MounterList (host env) x1 = ((ms, None), x2)"
    and "List.find (\<lambda>m. MpPath m = NpTargetPath req) ms = Some mp" and "''bind'' \<notin> set (MpOpts mp)"
  shows "NodePublishVolume env (Some c) req w =
    (Ret (Inl (Status AlreadyExists (''node publish volume - volume '' @ fmt_q (NpVolumeId req)
       @ '' is published but incompatible''))), w\<lparr>outside := x2\<rparr>)"
proof -
  have "\<not> findMountFlags (MountFlags mnt @ ''bind'' # fs) (MpOpts mp)" for fs
    using assms(8) by (auto simp: findMountFlags_iff)
  then show ?thesis
    using assms by (simp add: NodePublishVolume_def NodePublishVolume_check_def Let_def bnd_call bnd_assoc)
qed

definition demo_mounted :: "mem world" where
  "demo_mounted = demo_node\<lparr>outside := (outside demo_node)\<lparr>MemMounts :=
     [\<lparr>MpDevice = ''/dev/cas1-1'', MpPath = ''/target'', MpType = ''ext4'', MpOpts = [''rw'', ''noatime'']\<rparr>]\<rparr>\<rparr>"

theorem NodePublishVolume_republish_witness:
  "fst (NodePublishVolume node_env (Some node_config) demo_node_publish demo_mounted) =
     Ret (Inl (Status AlreadyExists (''node publish volume - volume '' @ fmt_q ''pvc-0'' @ '' is published but incompatible'')))"
  using NodePublishVolume_republish [of demo_node_publish "\<lparr>FsType = ''ext4'', MountFlags = [''noatime'']\<rparr>" node_env demo_mounted
      "outside demo_mounted" "MemMounts (outside demo_mounted)" "outside demo_mounted"
      "\<lparr>MpDevice = ''/dev/cas1-1'', MpPath = ''/target'', MpType = ''ext4'', MpOpts = [''rw'', ''noatime'']\<rparr>" node_config]
  by (simp add: demo_node_publish_def demo_mounted_def node_env_def mem_env_def mem_host_def)

end
