(* ===== verification/Driver_Main.thy ===== *)
theory Driver_Main
  imports Controller_Server Node_Server
begin

text \<open>
  The driver process: the identity service of \<^verbatim>\<open>pkg/csi-driver/identity.go\<close>, the construction of the driver
  and the setup of the protection webhook in \<^verbatim>\<open>csi-driver.go\<close>, the gRPC server of \<^verbatim>\<open>server.go\<close> up to the point
  where it serves requests, and \<^verbatim>\<open>main.go\<close>.

  Flag parsing is outside: \<open>Main\<close> takes the configuration the flags gave. What the gRPC library does with a
  registered service is outside too; the model says which services are registered and at which
  address, or with which message the process ends (\<^verbatim>\<open>klog.Fatal\<close>).
\<close>

section \<open>The identity service\<close>

datatype PluginCapability = CONTROLLER_SERVICE | VOLUME_ACCESSIBILITY_CONSTRAINTS

record GetPluginInfoResponse =
  InfoName :: string
  InfoVendorVersion :: string

definition NewIdentityServer :: "Config \<Rightarrow> Config" where
  "NewIdentityServer config = config"

definition GetPluginCapabilities :: "Config option \<Rightarrow> ('x, PluginCapability list) rpc" where
  "GetPluginCapabilities server = reply [CONTROLLER_SERVICE, VOLUME_ACCESSIBILITY_CONSTRAINTS]"

definition GetPluginInfo :: "Config option \<Rightarrow> ('x, GetPluginInfoResponse) rpc" where
  "GetPluginInfo server =
     bnd (deref server) (\<lambda>config.
     if DriverName config = [] then fail Unavailable ''Driver name not configured''
     else if VendorVersion config = [] then fail Unavailable ''Driver is missing version''
     else reply \<lparr>InfoName = DriverName config, InfoVendorVersion = VendorVersion config\<rparr>)"

text \<open>The value of \<^verbatim>\<open>Ready\<close>.\<close>

definition Probe :: "Config option \<Rightarrow> ('x, bool option) rpc" where
  "Probe server = reply (Some True)"

section \<open>The driver\<close>

text \<open>
  A service is its configuration, or \<^verbatim>\<open>nil\<close>. The package variable \<^verbatim>\<open>TopologyKey\<close> is written here and read
  nowhere; it is passed through.
\<close>

record csiDriver =
  DriverCfg :: Config
  controllerServer :: "Config option"
  nodeServer :: "Config option"
  identityServer :: "Config option"

definition protection_cmd :: "string \<Rightarrow> Config \<Rightarrow> string \<Rightarrow> string \<Rightarrow> string" where
  "protection_cmd script config ns rest =
     script @ '' '' @ ReplaceAll (DriverName config) ''.'' ''-'' @ '' '' @ ns @ '' '' @ DriverName config @ ''-protect'' @ rest"

definition SetupProtection :: "'x env \<Rightarrow> Config \<Rightarrow> ('x world, unit) io" where
  "SetupProtection env config =
     bnd (ConfiguredProtectedNamespace env) (\<lambda>ns.
     bnd (ExecLocalCommand env (protection_cmd ''/predeploy.sh'' config ns '''')) (\<lambda>(output, err).
     if err \<noteq> None then ret ()
     else
       bnd (deref output) (\<lambda>out.
       if ExitCode out \<noteq> 0 then ret ()
       else
         (let serverImage = Getenv env WebhookImageEnv in
          if serverImage = [] then ret ()
          else
            bnd (ConfiguredProtectedNamespace env) (\<lambda>ns.
            bnd (ExecLocalCommand env (protection_cmd ''/deploy.sh'' config ns ('' '' @ serverImage))) (\<lambda>(output, err).
            if err \<noteq> None then ret ()
            else bnd (deref output) (\<lambda>out. ret ())))))))"

definition NewCSIDriver ::
  "'x env \<Rightarrow> string \<Rightarrow> Config \<Rightarrow> ('x world, (csiDriver option \<times> error option) \<times> string) io" where
  "NewCSIDriver env topologyKey cfg =
     (if DriverName cfg = [] then ret ((None, Some (errorf ''no driver name provided'')), topologyKey)
      else if NodeID cfg = [] then ret ((None, Some (errorf ''no node id provided'')), topologyKey)
      else if Endpoint cfg = [] then ret ((None, Some (errorf ''no driver endpoint provided'')), topologyKey)
      else
        (let topologyKey = DriverName cfg @ ''/topology'';
             driver = \<lparr>DriverCfg = cfg, controllerServer = None, nodeServer = None, identityServer = None\<rparr>;
             withController = (StartControllerServer cfg \<or> \<not> StartNodeServer cfg);
             withNode = (StartNodeServer cfg \<or> \<not> StartControllerServer cfg) in
         if withController \<and> Getenv env CasadmImageEnv = [] then
           ret ((None, Some (errorf ''casadm image not configured, check config map'')), topologyKey)
         else
           bnd (if withController then
                  (let driver = driver\<lparr>controllerServer := Some cfg\<rparr> in
                   bnd (SetupProtection env (DriverCfg driver)) (\<lambda>_. ret driver))
                else ret driver) (\<lambda>driver.
           let driver = (if withNode then driver\<lparr>nodeServer := Some cfg\<rparr> else driver) in
           ret ((Some (driver\<lparr>identityServer := Some (NewIdentityServer cfg)\<rparr>), None), topologyKey))))"

section \<open>The gRPC server\<close>

definition ParseEndpoint :: "string \<Rightarrow> (string \<times> string \<times> error option) outcome" where
  "ParseEndpoint ep =
     (let invalid = Ret ([], [], Some (errorf (''invalid endpoint: '' @ ep))) in
      if HasPrefix (ToLower ep) ''unix://'' \<or> HasPrefix (ToLower ep) ''tcp://'' then
        (let s = SplitN2 ep ''://'' in
         obnd (idx s 1) (\<lambda>s1.
         if s1 \<noteq> [] then obnd (idx s 0) (\<lambda>s0. Ret (s0, s1, None)) else invalid))
      else invalid)"

definition getLogLevel :: "string \<Rightarrow> 32 word" where
  "getLogLevel method =
     (if method = ''/csi.v1.Identity/Probe'' \<or> method = ''/csi.v1.Node/NodeGetCapabilities'' \<or>
         method = ''/csi.v1.Node/NodeGetVolumeStats''
      then 8 else 2)"

text \<open>
  The interceptor, with what it logs as part of its result: \<open>strip\<close> is \<^verbatim>\<open>protosanitizer.StripSecrets\<close> of the
  request and of the response.
\<close>

datatype log_line = LogV "32 word" string | LogError string

definition logGRPC ::
  "('req \<Rightarrow> string) \<Rightarrow> ('resp \<Rightarrow> string) \<Rightarrow> ('e \<Rightarrow> string) \<Rightarrow> string \<Rightarrow> ('req \<Rightarrow> ('w, 'e + 'resp) io) \<Rightarrow> 'req
     \<Rightarrow> ('w, ('e + 'resp) \<times> log_line list) io" where
  "logGRPC strip_req strip_resp show_err fullMethod handler req =
     (let level = getLogLevel fullMethod;
          before = [LogV level (''GRPC call: '' @ fullMethod), LogV level (''GRPC request: '' @ strip_req req)] in
      bnd (handler req) (\<lambda>r.
      case r of
        Inl err \<Rightarrow> ret (r, before @ [LogError (''GRPC error: '' @ show_err err)])
      | Inr resp \<Rightarrow> ret (r, before @ [LogV level (''GRPC response: '' @ strip_resp resp)])))"

text \<open>
  A service handed to the server is an interface value: \<^term>\<open>None\<close> is the \<^verbatim>\<open>nil\<close> interface, \<^term>\<open>Some p\<close> one
  that holds the pointer \<open>p\<close>, which may itself be \<^verbatim>\<open>nil\<close>.
\<close>

datatype service = IdentityService "Config option" | ControllerService "Config option" | NodeService "Config option"

datatype serving = Fatal string | Serving string string "service list"

type_synonym 'x listener = "string \<Rightarrow> string \<Rightarrow> 'x \<Rightarrow> error option \<times> 'x"

definition registered ::
  "Config option option \<Rightarrow> Config option option \<Rightarrow> Config option option \<Rightarrow> service list" where
  "registered ids cs ns =
     (case ids of None \<Rightarrow> [] | Some s \<Rightarrow> [IdentityService s])
     @ (case cs of None \<Rightarrow> [] | Some s \<Rightarrow> [ControllerService s])
     @ (case ns of None \<Rightarrow> [] | Some s \<Rightarrow> [NodeService s])"

definition serve ::
  "'x env \<Rightarrow> 'x listener \<Rightarrow> string \<Rightarrow> Config option option \<Rightarrow> Config option option \<Rightarrow> Config option option
     \<Rightarrow> ('x world, serving) io" where
  "serve env listen endpoint ids cs ns =
     bnd (of_outcome (ParseEndpoint endpoint)) (\<lambda>(proto, addr, err).
     if err \<noteq> None then ret (Fatal (err_text err))
     else
       (let addr = (if proto = ''unix'' then CHR ''/'' # addr else addr) in
        bnd (if proto = ''unix'' then call (OsRemove (host env) addr) else ret None) (\<lambda>err.
        if err \<noteq> None \<and> \<not> err_that IsNotExist err then
          ret (Fatal (''Failed to remove '' @ addr @ '', error: '' @ err_text err))
        else
          bnd (call (listen proto addr)) (\<lambda>err.
          if err \<noteq> None then ret (Fatal (''Failed to listen: '' @ err_text err))
          else ret (Serving proto addr (registered ids cs ns))))))"

text \<open>
  The object around the server: the counter of its wait group and the gRPC server, \<^verbatim>\<open>nil\<close> until the goroutine that
  \<open>server_Start\<close> spawns has created it, then with whether it was stopped. \<^verbatim>\<open>Wait\<close> returns once the counter is 0.
\<close>

record nonBlockingGRPCServer =
  wg :: int
  grpc_stopped :: "bool option"

definition NewNonBlockingGRPCServer :: nonBlockingGRPCServer where
  "NewNonBlockingGRPCServer = \<lparr>wg = 0, grpc_stopped = None\<rparr>"

definition server_Start :: "nonBlockingGRPCServer \<Rightarrow> nonBlockingGRPCServer" where
  "server_Start s = s\<lparr>wg := wg s + 1\<rparr>"

text \<open>What \<^verbatim>\<open>serve\<close> does to it once it listens.\<close>

definition serve_created :: "bool \<Rightarrow> nonBlockingGRPCServer \<Rightarrow> nonBlockingGRPCServer" where
  "serve_created testMode s =
     (let s = s\<lparr>grpc_stopped := Some False\<rparr> in if testMode then s\<lparr>wg := wg s - 1\<rparr> else s)"

definition server_Wait :: "nonBlockingGRPCServer \<Rightarrow> bool" where
  "server_Wait s \<longleftrightarrow> wg s = 0"

definition server_Stop :: "nonBlockingGRPCServer \<Rightarrow> nonBlockingGRPCServer outcome" where
  "server_Stop s = (case grpc_stopped s of None \<Rightarrow> Panic NilDereference | Some _ \<Rightarrow> Ret (s\<lparr>grpc_stopped := Some True\<rparr>))"

definition server_ForceStop :: "nonBlockingGRPCServer \<Rightarrow> nonBlockingGRPCServer outcome" where
  "server_ForceStop s = (case grpc_stopped s of None \<Rightarrow> Panic NilDereference | Some _ \<Rightarrow> Ret (s\<lparr>grpc_stopped := Some True\<rparr>))"

text \<open>\<^verbatim>\<open>Run\<close> converts the three pointers of the driver to interface values. It does not return while the server runs.\<close>

definition Run :: "'x env \<Rightarrow> 'x listener \<Rightarrow> csiDriver \<Rightarrow> ('x world, serving) io" where
  "Run env listen d =
     serve env listen (Endpoint (DriverCfg d)) (Some (identityServer d)) (Some (controllerServer d)) (Some (nodeServer d))"

datatype process = Exit nat | Runs serving

definition DriverMain ::
  "'x env \<Rightarrow> 'x listener \<Rightarrow> string \<Rightarrow> bool \<Rightarrow> Config \<Rightarrow> ('x world, process) io" where
  "DriverMain env listen version showVersion config =
     (if showVersion then ret (Exit 0)
      else
        bnd (NewCSIDriver env [] (config\<lparr>VendorVersion := version\<rparr>)) (\<lambda>((driver, err), _).
        if err \<noteq> None then ret (Exit 1)
        else bnd (deref driver) (\<lambda>driver. bnd (Run env listen driver) (\<lambda>s. ret (Runs s)))))"

section \<open>Endpoints\<close>

definition endpoint_parts :: "string \<Rightarrow> string \<Rightarrow> string \<Rightarrow> bool" where
  "endpoint_parts ep proto addr \<longleftrightarrow>
     ep = proto @ ''://'' @ addr \<and> (ToLower proto = ''unix'' \<or> ToLower proto = ''tcp'') \<and> addr \<noteq> []"

lemma lower_punct: "lower c = CHR '':'' \<longleftrightarrow> c = CHR '':''" "lower c = CHR ''/'' \<longleftrightarrow> c = CHR ''/''"
proof -
  have "lower c = CHR '':'' \<longleftrightarrow> c = CHR '':''" "lower c = CHR ''/'' \<longleftrightarrow> c = CHR ''/''" if "65 \<le> (of_char c :: nat)" "(of_char c :: nat) \<le> 90"
  proof -
    have "(of_char (lower c) :: nat) = of_char c + 32" using that by (simp add: lower_def)
    moreover have "(of_char CHR '':'' :: nat) = 58" "(of_char CHR ''/'' :: nat) = 47" by simp_all
    ultimately show "lower c = CHR '':'' \<longleftrightarrow> c = CHR '':''" "lower c = CHR ''/'' \<longleftrightarrow> c = CHR ''/''" using that by auto
  qed
  then show "lower c = CHR '':'' \<longleftrightarrow> c = CHR '':''" "lower c = CHR ''/'' \<longleftrightarrow> c = CHR ''/''"
    by (cases "65 \<le> (of_char c :: nat) \<and> (of_char c :: nat) \<le> 90"; auto simp: lower_def)+
qed

lemma ToLower_punct:
  assumes "ToLower s = d # t" "d = CHR '':'' \<or> d = CHR ''/''"
  shows "\<exists>a. s = d # a \<and> ToLower a = t"
  using assms by (cases s) (auto simp: lower_punct lower_punct [THEN iffD2, OF refl] split: if_splits)

lemma ToLower_unsplit: "ToLower s = p @ CHR '':'' # t \<Longrightarrow> \<exists>u v. s = u @ CHR '':'' # v \<and> ToLower u = p \<and> ToLower v = t"
proof (induction s arbitrary: p rule: ToLower.induct)
  case (2 c s)
  show ?case
  proof (cases p)
    case Nil
    then show ?thesis using ToLower_punct [OF 2(4) [unfolded Nil, simplified append_Nil]] by force
  next
    case (Cons x p')
    consider (dotted) s' where "c # s = CHR 0xC4 # CHR 0xB0 # s'" | (kelvin) s' where "c # s = CHR 0xE2 # CHR 0x84 # CHR 0xAA # s'"
      | (plain) "\<not> HasPrefix (c # s) [CHR 0xC4, CHR 0xB0]" "\<not> HasPrefix (c # s) [CHR 0xE2, CHR 0x84, CHR 0xAA]"
      by (auto simp: HasPrefix_iff simp del: HasPrefix.simps)
    then show ?thesis
    proof cases
      case dotted
      then have "\<exists>u v. s' = u @ CHR '':'' # v \<and> ToLower u = p' \<and> ToLower v = t" using 2 Cons by simp
      then obtain u v where "s' = u @ CHR '':'' # v" "ToLower u = p'" "ToLower v = t" by blast
      then show ?thesis using dotted Cons 2(4) by (intro exI [of _ "CHR 0xC4 # CHR 0xB0 # u"] exI [of _ v]) simp
    next
      case kelvin
      then have "\<exists>u v. s' = u @ CHR '':'' # v \<and> ToLower u = p' \<and> ToLower v = t" using 2 Cons by simp
      then obtain u v where "s' = u @ CHR '':'' # v" "ToLower u = p'" "ToLower v = t" by blast
      then show ?thesis using kelvin Cons 2(4)
        by (intro exI [of _ "CHR 0xE2 # CHR 0x84 # CHR 0xAA # u"] exI [of _ v]) simp
    next
      case plain
      then have "ToLower s = p' @ CHR '':'' # t" "x = lower c" using 2(4) Cons by (simp_all del: HasPrefix.simps)
      then obtain u v where uv: "s = u @ CHR '':'' # v" "ToLower u = p'" "ToLower v = t" using 2(3) [OF plain] by blast
      have high: "ascii CHR '':''" "list_all (\<lambda>c. \<not> ascii c) [CHR 0xC4, CHR 0xB0]" "list_all (\<lambda>c. \<not> ascii c) [CHR 0xE2, CHR 0x84, CHR 0xAA]"
        by (simp_all add: ascii_def)
      have "ToLower (c # u) = p"
        using plain HasPrefix_split [OF high(1,2), of "c # u" v] HasPrefix_split [OF high(1,3), of "c # u" v] uv Cons \<open>x = lower c\<close>
        by (simp del: HasPrefix.simps)
      then show ?thesis using uv by (intro exI [of _ "c # u"] exI [of _ v]) simp
    qed
  qed
qed simp

lemma ToLower_prefix:
  assumes "HasPrefix (ToLower ep) (p @ ''://'')"
  shows "\<exists>u a. ep = u @ ''://'' @ a \<and> ToLower u = p"
proof -
  from assms obtain t where "ToLower ep = p @ CHR '':'' # CHR ''/'' # CHR ''/'' # t" by (auto simp: HasPrefix_iff)
  from ToLower_unsplit [OF this] obtain u v where ep: "ep = u @ CHR '':'' # v" "ToLower u = p" and
    v: "ToLower v = CHR ''/'' # CHR ''/'' # t" by blast
  from ToLower_punct [OF v] obtain a where a: "v = CHR ''/'' # a" "ToLower a = CHR ''/'' # t" by blast
  from ToLower_punct [OF a(2)] obtain b where "a = CHR ''/'' # b" by blast
  then show ?thesis using ep a by auto
qed

lemma ToLower_scheme: "ToLower (u @ ''://'' @ a) = ToLower u @ ''://'' @ ToLower a"
  using ToLower_split [of "CHR '':''" u "''//'' @ a"] ToLower_split [of "CHR ''/''" "[]" "CHR ''/'' # a"]
    ToLower_split [of "CHR ''/''" "[]" a] by (simp add: ascii_def lower_def)

text \<open>A text whose lower case has no colon has none itself.\<close>

lemma ToLower_colon: "CHR '':'' \<in> set u \<Longrightarrow> CHR '':'' \<in> set (ToLower u)"
  using ToLower_split [of "CHR '':''"] by (auto simp: in_set_conv_decomp ascii_def lower_def)

lemma Index_scheme: "CHR '':'' \<notin> set u \<Longrightarrow> Index (u @ ''://'' @ a) ''://'' = Some (length u)"
  by (induction u) auto

lemma ParseEndpoint_parts:
  assumes "endpoint_parts ep proto addr"
  shows "ParseEndpoint ep = Ret (proto, addr, None)"
proof -
  have ep: "ep = proto @ ''://'' @ addr" and scheme: "ToLower proto = ''unix'' \<or> ToLower proto = ''tcp''" and addr: "addr \<noteq> []"
    using assms by (auto simp: endpoint_parts_def)
  have "CHR '':'' \<notin> set proto"
  proof
    assume "CHR '':'' \<in> set proto"
    then have "CHR '':'' \<in> set (ToLower proto)" by (rule ToLower_colon)
    then show False using scheme by auto
  qed
  then have "SplitN2 ep ''://'' = [proto, addr]" by (simp add: SplitN2_def ep Index_scheme [simplified])
  moreover have "HasPrefix (ToLower ep) ''unix://'' \<or> HasPrefix (ToLower ep) ''tcp://''"
    using scheme unfolding ep ToLower_scheme by (auto simp: HasPrefix_iff)
  ultimately show ?thesis using addr by (simp add: ParseEndpoint_def idx_def)
qed

section \<open>Properties of the process\<close>

text \<open>
  C39: \<^verbatim>\<open>ParseEndpoint\<close> splits an endpoint into scheme and address and joins to it again: it accepts exactly the texts that are
  a scheme \<^verbatim>\<open>unix\<close> or \<^verbatim>\<open>tcp\<close> in any case, the separator and an address that is not empty. It never panics, although
  it reads the second part without looking at the number of parts.
\<close>

theorem ParseEndpoint_exact:
  "(ParseEndpoint ep = Ret (proto, addr, None) \<longleftrightarrow> endpoint_parts ep proto addr) \<and> (\<exists>r. ParseEndpoint ep = Ret r)"
proof (cases "HasPrefix (ToLower ep) ''unix://'' \<or> HasPrefix (ToLower ep) ''tcp://''")
  case False
  then have "ParseEndpoint ep = Ret ([], [], Some (errorf (''invalid endpoint: '' @ ep)))" by (simp add: ParseEndpoint_def)
  then show ?thesis using ParseEndpoint_parts by auto
next
  case True
  then obtain u a where ep: "ep = u @ ''://'' @ a" and u: "ToLower u = ''unix'' \<or> ToLower u = ''tcp''"
    using ToLower_prefix [of ep "''unix''"] ToLower_prefix [of ep "''tcp''"] by auto
  show ?thesis
  proof (cases "a = []")
    case False
    then have parts: "endpoint_parts ep u a" using ep u by (simp add: endpoint_parts_def)
    then show ?thesis using ParseEndpoint_parts [OF parts] ParseEndpoint_parts [of ep proto addr] by auto
  next
    case True
    have "CHR '':'' \<notin> set u"
    proof
      assume "CHR '':'' \<in> set u"
      then have "CHR '':'' \<in> set (ToLower u)" by (rule ToLower_colon)
      then show False using u by auto
    qed
    then have "SplitN2 ep ''://'' = [u, []]" by (simp add: SplitN2_def ep True Index_scheme [where a = "[]", simplified])
    then have "ParseEndpoint ep = Ret ([], [], Some (errorf (''invalid endpoint: '' @ ep)))"
      by (simp add: ParseEndpoint_def idx_def Let_def)
    then show ?thesis using ParseEndpoint_parts by auto
  qed
qed

lemma ExecLocalCommand_no_panic: "no_panic (ExecLocalCommand env cmd)"
  unfolding ExecLocalCommand_def
proof (intro no_panic_bnd no_panic_call)
  show "no_panic (case r of Exited out c \<Rightarrow> ret (f out c) | NotStarted e \<Rightarrow> ret (g e))" for r f g
    by (cases r) (simp_all add: no_panic_ret)
qed

text \<open>A command whose output is read only when it ran.\<close>

lemma no_panic_command:
  assumes "no_panic m" "\<And>o'. no_panic (f o')"
  shows "no_panic (bnd (ExecLocalCommand env cmd) (\<lambda>(out, err). if err \<noteq> None then m else bnd (deref out) f))"
  unfolding no_panic_def
proof
  fix w
  obtain out err w1 where run: "returns (ExecLocalCommand env cmd) w (out, err) w1"
    using no_panic_returns [OF ExecLocalCommand_no_panic] by (metis surj_pair)
  have np: "no_panic (if err \<noteq> None then m else bnd (deref out) f)"
    using ExecLocalCommand_result [OF run] assms by (cases out) auto
  from no_panic_returns [OF np, of w1] obtain a w2 where "returns (if err \<noteq> None then m else bnd (deref out) f) w1 a w2"
    by blast
  then show "\<exists>a w'. returns (bnd (ExecLocalCommand env cmd) (\<lambda>(out, err). if err \<noteq> None then m else bnd (deref out) f)) w a w'"
    using run by (intro exI [of _ a] exI [of _ w2]) (simp add: returns_def bnd_Ret)
qed

lemma SetupProtection_no_panic [no_panic_intros]: "no_panic (SetupProtection env config)"
  unfolding SetupProtection_def Let_def by (intro no_panic_command no_panic_intros)

section \<open>The server is not waited for\<close>

text \<open>The states of a server that was started, in a mode.\<close>

inductive server_state :: "bool \<Rightarrow> nonBlockingGRPCServer \<Rightarrow> bool" for testMode where
  server_started: "server_state testMode (server_Start NewNonBlockingGRPCServer)"
| server_created: "server_state testMode s \<Longrightarrow> grpc_stopped s = None \<Longrightarrow> server_state testMode (serve_created testMode s)"
| server_stopped: "server_state testMode s \<Longrightarrow> server_Stop s = Ret s' \<Longrightarrow> server_state testMode s'"
| server_killed: "server_state testMode s \<Longrightarrow> server_ForceStop s = Ret s' \<Longrightarrow> server_state testMode s'"

lemma server_wg: "server_state testMode s \<Longrightarrow> wg s = (if testMode \<and> grpc_stopped s \<noteq> None then 0 else 1)"
  by (induction rule: server_state.induct)
    (auto simp: server_Start_def NewNonBlockingGRPCServer_def serve_created_def Let_def server_Stop_def server_ForceStop_def
      split: option.splits)

text \<open>
  Outside of tests nothing takes the counter back to 0, not even stopping the server: \<^verbatim>\<open>Run\<close> does not come back, and the deferred
  \<^verbatim>\<open>ForceStop\<close> is never reached.
\<close>

lemma server_Wait_blocks: "server_state False s \<Longrightarrow> \<not> server_Wait s"
  by (simp add: server_Wait_def server_wg)

lemma server_Wait_test: "server_state True s \<Longrightarrow> server_Wait s \<longleftrightarrow> grpc_stopped s \<noteq> None"
  by (auto simp: server_Wait_def server_wg)

definition wants_controller :: "Config \<Rightarrow> bool" where
  "wants_controller cfg \<longleftrightarrow> StartControllerServer cfg \<or> \<not> StartNodeServer cfg"

definition config_ok :: "'x env \<Rightarrow> Config \<Rightarrow> bool" where
  "config_ok env cfg \<longleftrightarrow> DriverName cfg \<noteq> [] \<and> NodeID cfg \<noteq> [] \<and> Endpoint cfg \<noteq> [] \<and>
     (wants_controller cfg \<longrightarrow> Getenv env CasadmImageEnv \<noteq> [])"

text \<open>
  C40: \<^verbatim>\<open>NewCSIDriver\<close> always returns. It gives a driver exactly for a configuration that names driver, node and endpoint and,
  where the controller service is wanted, a \<^verbatim>\<open>casadm\<close> image; the driver then has the services that were asked for, both if none
  was named, and its identity service answers with the name and the version of the configuration.
\<close>

theorem NewCSIDriver_services:
  "\<exists>driver err key' w'. returns (NewCSIDriver env key cfg) w ((driver, err), key') w' \<and>
     (if config_ok env cfg then
        err = None \<and> (\<exists>d. driver = Some d \<and> DriverCfg d = cfg \<and>
          controllerServer d = (if wants_controller cfg then Some cfg else None) \<and>
          nodeServer d = (if StartControllerServer cfg \<and> \<not> StartNodeServer cfg then None else Some cfg) \<and>
          \<not> (controllerServer d = None \<and> nodeServer d = None) \<and>
          returns (GetPluginInfo (identityServer d)) v
            (if VendorVersion cfg = [] then Inl (Status Unavailable ''Driver is missing version'')
             else Inr \<lparr>InfoName = DriverName cfg, InfoVendorVersion = VendorVersion cfg\<rparr>) v)
      else driver = None \<and> err \<noteq> None)"
proof -
  obtain u w1 where prot: "returns (SetupProtection env cfg) w u w1"
    using no_panic_returns [OF SetupProtection_no_panic] by blast
  show ?thesis
  proof (cases "config_ok env cfg")
    case False
    then show ?thesis
      by (auto simp: config_ok_def NewCSIDriver_def returns_def Let_def wants_controller_def)
  next
    case ok: True
    show ?thesis
    proof (cases "wants_controller cfg")
      case True
      then show ?thesis using ok prot
        by (auto simp: config_ok_def NewCSIDriver_def returns_def Let_def wants_controller_def bnd_Ret bnd_assoc
            NewIdentityServer_def GetPluginInfo_def)
    next
      case False
      then show ?thesis using ok
        by (auto simp: config_ok_def NewCSIDriver_def returns_def Let_def wants_controller_def bnd_Ret bnd_assoc
            NewIdentityServer_def GetPluginInfo_def)
    qed
  qed
qed

end
