(* ===== verification/Volume_Service.thy ===== *)
theory Volume_Service
  imports Controller_Server
begin

text \<open>
  The controller service as a whole: sequences of calls, for any volumes, with any outcome, and the
  promise the service makes about the volumes through all of them.

  The specification is a machine over the states of the volumes: a volume is absent, live, or on its
  way out. It says which state a call may lead to, for a call that succeeds and for one that
  fails, and that no call has an effect on another volume. Between the calls, and while a call waits for a
  pod, the cluster may change the claims: it binds them to volumes and finishes their deletion. The state of a
  volume in a world is that of its claim in the protected namespace. The handlers are shown to implement the machine step
  by step; what holds for all its runs holds for the service.
\<close>

section \<open>Runs and simulations\<close>

inductive runs :: "('s \<Rightarrow> 'e \<Rightarrow> 's \<Rightarrow> bool) \<Rightarrow> 's \<Rightarrow> 'e list \<Rightarrow> 's \<Rightarrow> bool" for step where
  runs_start: "runs step s [] s"
| runs_step: "step s e s1 \<Longrightarrow> runs step s1 es s' \<Longrightarrow> runs step s (e # es) s'"

inductive_simps runs_Nil [simp]: "runs step s [] s'"
inductive_simps runs_Cons: "runs step s (e # es) s'"

lemma runs_append: "runs step s (es @ fs) s' \<longleftrightarrow> (\<exists>s1. runs step s es s1 \<and> runs step s1 fs s')"
  by (induction es arbitrary: s) (auto simp: runs_Cons)

lemma runs_invariant:
  assumes "runs step s es s'" and "Q s" and "\<And>s e s1. e \<in> set es \<Longrightarrow> step s e s1 \<Longrightarrow> Q s \<Longrightarrow> Q s1"
  shows "Q s'"
  using assms by (induction rule: runs.induct) auto

text \<open>A concrete machine whose every step is, seen through \<open>view\<close>, a step of an abstract one.\<close>

locale simulation =
  fixes cstep :: "'c \<Rightarrow> 'e \<Rightarrow> 'c \<Rightarrow> bool"
    and astep :: "'a \<Rightarrow> 'e \<Rightarrow> 'a \<Rightarrow> bool"
    and view :: "'c \<Rightarrow> 'a"
    and lawful :: bool
  assumes simulates: "lawful \<Longrightarrow> cstep s e s' \<Longrightarrow> astep (view s) e (view s')"
begin

lemma refines:
  assumes "lawful" and "runs cstep s es s'"
  shows "runs astep (view s) es (view s')"
  using assms(2) by (induction rule: runs.induct) (auto intro: runs.intros simulates [OF assms(1)])

lemma inherits:
  assumes "lawful" and "runs cstep s es s'" and "Q (view s)"
    and "\<And>a e a'. e \<in> set es \<Longrightarrow> astep a e a' \<Longrightarrow> Q a \<Longrightarrow> Q a'"
  shows "Q (view s')"
  using refines [OF assms(1,2)] assms(3,4) by (rule runs_invariant)

end

section \<open>The specification\<close>

datatype volume_state = Absent | Live | Terminating

text \<open>
  What happens to the service: a call to create or delete a volume with whether it succeeded, a call that does not
  concern the existence of volumes, the cluster finishing the removal of claims, or the cluster changing claims
  that stay, as it does to bind one. What the cluster may do by itself at any time is that a volume on its way out is gone.
\<close>

datatype service_event = CreateCall string bool | DeleteCall string bool | OtherCall | Finalized | Updated

definition fades :: "(string \<Rightarrow> volume_state) \<Rightarrow> (string \<Rightarrow> volume_state) \<Rightarrow> bool" where
  "fades s s' \<longleftrightarrow> (\<forall>v. s' v = s v \<or> s v = Terminating \<and> s' v = Absent)"

inductive volume_step :: "(string \<Rightarrow> volume_state) \<Rightarrow> service_event \<Rightarrow> (string \<Rightarrow> volume_state) \<Rightarrow> bool" where
  create_new: "s v = Absent \<Longrightarrow> volume_step s (CreateCall v True) (s(v := Live))"
| create_known: "s v \<noteq> Absent \<Longrightarrow> volume_step s (CreateCall v ok) s"
| create_failed: "s v = Absent \<Longrightarrow> volume_step s (CreateCall v False) (s(v := a))"
| delete_absent: "s v = Absent \<Longrightarrow> volume_step s (DeleteCall v ok) s"
| delete_done: "s v \<noteq> Absent \<Longrightarrow> a \<noteq> Live \<Longrightarrow> volume_step s (DeleteCall v True) (s(v := a))"
| delete_failed: "s v \<noteq> Absent \<Longrightarrow> volume_step s (DeleteCall v False) (s(v := a))"
| other_call: "fades s s' \<Longrightarrow> volume_step s OtherCall s'"
| finalized: "fades s s' \<Longrightarrow> volume_step s Finalized s'"
| updated: "volume_step s Updated s"

inductive_cases volume_stepE: "volume_step s e s'"

text \<open>A live volume stays live until a call to delete it.\<close>

lemma volume_step_live: "volume_step s e s' \<Longrightarrow> \<forall>ok. e \<noteq> DeleteCall v ok \<Longrightarrow> s v = Live \<Longrightarrow> s' v = Live"
  by (erule volume_stepE) (auto simp: fades_def, (metis volume_state.distinct(5))+)

text \<open>An absent volume comes into existence only by a call to create it.\<close>

lemma volume_step_absent: "volume_step s e s' \<Longrightarrow> \<forall>ok. e \<noteq> CreateCall v ok \<Longrightarrow> s v = Absent \<Longrightarrow> s' v = Absent"
  by (erule volume_stepE) (auto simp: fades_def, (metis volume_state.distinct(1,3))+)

section \<open>The service\<close>

definition claim_state :: "PersistentVolumeClaim option \<Rightarrow> volume_state" where
  "claim_state z = (case z of None \<Rightarrow> Absent | Some pvc \<Rightarrow> if DeletionTimestamp (PvcMeta pvc) = None then Live else Terminating)"

definition volumes ::
  "'x env \<Rightarrow> ('x \<Rightarrow> key \<Rightarrow> PersistentVolumeClaim option) \<Rightarrow> 'x world \<Rightarrow> string \<Rightarrow> volume_state" where
  "volumes env obs w v = claim_state (obs (outside w) (configured_namespace env w, getPvcNameForPv v))"

definition succeeded :: "'e + 'a \<Rightarrow> bool" where
  "succeeded r = (case r of Inl _ \<Rightarrow> False | Inr _ \<Rightarrow> True)"

inductive service_step ::
  "'x env \<Rightarrow> ('x \<Rightarrow> key \<Rightarrow> PersistentVolumeClaim option) \<Rightarrow> 'x world \<Rightarrow> service_event \<Rightarrow> 'x world \<Rightarrow> bool"
  for env obs where
  serve_create: "returns (CreateVolume env cs req) w r w' \<Longrightarrow>
     service_step env obs w (CreateCall (CvName req) (succeeded r)) w'"
| serve_delete: "returns (DeleteVolume env cs v) w r w' \<Longrightarrow> service_step env obs w (DeleteCall v (succeeded r)) w'"
| serve_publish: "returns (ControllerPublishVolume env cs preq) w pr w' \<Longrightarrow> service_step env obs w OtherCall w'"
| serve_unpublish: "returns (ControllerUnpublishVolume env cs ureq) w r w' \<Longrightarrow> service_step env obs w OtherCall w'"
| cluster_finalizes: "(\<And>k. obs x k = obs (outside w) k \<or> terminating PvcMeta (obs (outside w) k) \<and> obs x k = None) \<Longrightarrow>
     service_step env obs w Finalized (w\<lparr>outside := x\<rparr>)"
| cluster_updates: "(\<And>k. claim_state (obs x k) = claim_state (obs (outside w) k)) \<Longrightarrow>
     service_step env obs w Updated (w\<lparr>outside := x\<rparr>)"

text \<open>
  What may happen to the claims while the driver deals with a pod and waits for it: starting the pod binds its claim,
  so the claims may change in any way, except that none comes into being, none that is live goes away or is marked for
  deletion, and no mark for deletion is taken back.
\<close>

definition settles :: "('x \<Rightarrow> key \<Rightarrow> PersistentVolumeClaim option) \<Rightarrow> 'x \<Rightarrow> 'x \<Rightarrow> bool" where
  "settles obs x x' \<longleftrightarrow>
     (\<forall>k. claim_state (obs x' k) = claim_state (obs x k) \<or>
          claim_state (obs x k) = Terminating \<and> claim_state (obs x' k) = Absent)"

definition pods_apart :: "'x env \<Rightarrow> ('x \<Rightarrow> key \<Rightarrow> PersistentVolumeClaim option) \<Rightarrow> bool" where
  "pods_apart env obs \<longleftrightarrow>
     (\<forall>ns pod x. settles obs x (snd (Pods_Create (kube env) ns pod x)) \<and>
        settles obs x (snd (Pods_Update (kube env) ns pod x))) \<and>
     (\<forall>ns n x. settles obs x (snd (Pods_Delete (kube env) ns n x))) \<and>
     (\<forall>ns m x. settles obs x (snd (Pods_Watch (kube env) ns m x)))"

lemma claim_state_simps [simp]:
  "claim_state z = Absent \<longleftrightarrow> z = None" "claim_state z = Live \<longleftrightarrow> live PvcMeta z"
  "claim_state z = Terminating \<longleftrightarrow> terminating PvcMeta z"
  by (auto simp: claim_state_def live_def terminating_def split: option.splits)

section \<open>What a handler leaves alone\<close>

text \<open>The namespace in use is the same, and so are all claims with another name.\<close>

definition apart :: "'x env \<Rightarrow> ('x \<Rightarrow> key \<Rightarrow> 'o option) \<Rightarrow> string \<Rightarrow> 'x world \<Rightarrow> 'x world \<Rightarrow> bool" where
  "apart env obs n w w' \<longleftrightarrow> configured_namespace env w' = configured_namespace env w \<and>
     (\<forall>k. snd k = n \<or> obs (outside w') k = obs (outside w) k)"

definition ns_kept :: "'x env \<Rightarrow> 'x world \<Rightarrow> 'x world \<Rightarrow> bool" where
  "ns_kept env w w' \<longleftrightarrow> configured_namespace env w' = configured_namespace env w"

lemma ns_kept_reflp [simp]: "reflp (ns_kept env)"
  by (simp add: ns_kept_def reflp_def)

lemma ns_kept_transp [simp]: "transp (ns_kept env)"
  by (auto simp: ns_kept_def transp_def)

lemma apart_reflp [simp]: "reflp (apart env obs n)"
  by (simp add: apart_def reflp_def)

lemma apart_transp [simp]: "transp (apart env obs n)"
  by (auto simp: apart_def transp_def) metis

lemma ns_kept_call: "keeps (ns_kept env) (call f)"
  by (simp add: keeps_def call_def ns_kept_def split: prod.split)

lemma ns_kept_config:
  "keeps (ns_kept env) (ConfiguredProtectedNamespace env)" "keeps (ns_kept env) (ConfiguredKubeletDir env)"
  "keeps (ns_kept env) the_protectedNamespace"
  by (simp_all add: keeps_def ns_kept_def ConfiguredProtectedNamespace_run ConfiguredKubeletDir_run configured_set
      the_protectedNamespace_def)

lemmas keeps_ns = keeps_deref [OF ns_kept_reflp] keeps_ret [OF ns_kept_reflp] keeps_panic [OF ns_kept_reflp]
  keeps_bnd [OF ns_kept_transp] keeps_if keeps_case_prod keeps_case_option keeps_Let ns_kept_call ns_kept_config

lemmas keeps_apart = keeps_deref [OF apart_reflp] keeps_ret [OF apart_reflp] keeps_panic [OF apart_reflp]
  keeps_bnd [OF apart_transp] keeps_if keeps_case_prod keeps_case_option

lemma keeps_apartI: "keeps (same_obs obs) m \<Longrightarrow> keeps (ns_kept env) m \<Longrightarrow> keeps (apart env obs n) m"
  by (simp add: keeps_def same_obs_def ns_kept_def apart_def)


text \<open>Setting up and looking up leave everything as it is.\<close>

lemma lookups_ns:
  "keeps (ns_kept env) (NewK8sUtils env)" "keeps (ns_kept env) (GetSubproviderPvcByName env n)"
  "keeps (ns_kept env) (GetPvByName env n)" "keeps (ns_kept env) (GetScByName env n)"
  "keeps (ns_kept env) (GetIntermediatePodByName env n ns)" "keeps (ns_kept env) (CreateIntermediatePod env config)"
  "keeps (ns_kept env) (DeleteIntermediatePod env n ns)"
  unfolding NewK8sUtils_def GetSubproviderPvcByName_def GetPvByName_def GetScByName_def
    GetIntermediatePodByName_def CreateIntermediatePod_def DeleteIntermediatePod_def
  by (intro keeps_ns)+

lemma lookups_apart:
  assumes "reads_quiet env obs"
  shows "keeps (apart env obs n) (NewK8sUtils env)" "keeps (apart env obs n) (GetSubproviderPvcByName env m)"
    "keeps (apart env obs n) (GetScByName env m)"
  using lookups_quiet [OF assms] lookups_ns by (blast intro: keeps_apartI)+

lemma create_apart:
  assumes "pvc_laws env obs"
  shows "keeps (apart env obs (PvcName config)) (CreateSubproviderPvc env config)"
proof (rule keepsI)
  fix w a w' assume run: "returns (CreateSubproviderPvc env config) w a w'"
  then obtain p err where a: "a = (p, err)" by (cases a)
  from CreateSubproviderPvc_spec [OF assms run [unfolded a]]
  show "apart env obs (PvcName config) w w'"
    by (auto simp: apart_def frame_def configured_namespace_def)
qed (rule lookups_no_panic)

lemma delete_apart:
  assumes "pvc_laws env obs"
  shows "keeps (apart env obs n) (DeleteSubproviderPvc env n)"
proof (rule keepsI)
  fix w err w' assume "returns (DeleteSubproviderPvc env n) w err w'"
  from DeleteSubproviderPvc_spec [OF assms this] show "apart env obs n w w'"
    by (auto simp: apart_def frame_def configured_namespace_def)
qed (rule deletes_no_panic)

text \<open>The handlers that create and delete a volume leave all other claims alone, whatever they answer.\<close>

lemma CreateVolume_apart:
  assumes "pvc_laws env obs" "reads_quiet env obs"
  shows "keeps (apart env obs (getPvcNameForPv (CvName req))) (CreateVolume env cs req)"
proof (cases "CreateVolume_rejects req")
  case (Some st)
  then show ?thesis using create.rejected [OF Some, of env cs] by (simp add: keeps_def apart_def)
next
  case None
  have name: "PvcName (CreateVolume_claim req) = getPvcNameForPv (CvName req)" by (simp add: CreateVolume_claim_def)
  have lock: "keeps R (lock_key cs key)" if "reflp R" for R key
    using that by (cases cs) (simp_all add: keeps_ret keeps_panic)
  show ?thesis
    unfolding CreateVolume_accepted [OF None] fail_def reply_def
    by (intro keeps_apart lock apart_reflp lookups_apart [OF assms(2)] create_apart [OF assms(1), of "CreateVolume_claim req", unfolded name])
qed

lemma DeleteVolume_apart:
  assumes laws: "pvc_laws env obs" and quiet: "reads_quiet env obs"
    and run: "returns (DeleteVolume env cs v) w r w'"
  shows "apart env obs (getPvcNameForPv v) w w'"
    and "obs (outside w) (configured_namespace env w, getPvcNameForPv v) = None \<Longrightarrow> obs (outside w') = obs (outside w)"
proof -
  have "apart env obs (getPvcNameForPv v) w w' \<and>
    (obs (outside w) (configured_namespace env w, getPvcNameForPv v) = None \<longrightarrow> obs (outside w') = obs (outside w))"
  proof (cases "DeleteVolume_rejects v")
    case (Some st)
    then show ?thesis using run delete.rejected [OF Some, of env cs] by (simp add: returns_def apart_def)
  next
    case None
    then have id: "v \<noteq> []" by (auto simp: DeleteVolume_rejects_def)
    obtain c where c: "cs = Some c" using run id by (cases cs) (simp_all add: DeleteVolume_def)
    obtain cc cd where "DeleteVolume env cs v = bnd (NewK8sUtils env) (\<lambda>err.
        if err \<noteq> None then fail Internal (err_text err) else claims.release env cc cd () (getPvcNameForPv v))"
      using DeleteVolume_release [OF id] c by blast
    with run obtain err w1 where new: "returns (NewK8sUtils env) w err w1"
      and rest: "(err \<noteq> None \<and> w' = w1) \<or>
        (err = None \<and> returns (claims.release env cc cd () (getPvcNameForPv v)) w1 r w')"
      by (auto simp: returns_simps fail_def)
    have obs1: "obs (outside w1) = obs (outside w)" and ns1: "configured_namespace env w1 = configured_namespace env w"
      using keeps_returns [OF lookups_quiet(1) [OF quiet] new] keeps_returns [OF lookups_ns(1) new]
      by (simp_all add: same_obs_def ns_kept_def)
    from rest show ?thesis
    proof (elim disjE conjE)
      assume "w' = w1"
      then show ?thesis using obs1 ns1 by (simp add: apart_def)
    next
      assume err: "err = None" and rel: "returns (claims.release env cc cd () (getPvcNameForPv v)) w1 r w'"
      have ns: "protectedNamespace w1 = configured_namespace env w"
        using prepared(2) [OF quiet] new err by blast
      have got: "obs (outside w2) = obs (outside w) \<and> configured_namespace env w2 = configured_namespace env w \<and>
          (pvc \<noteq> None \<longrightarrow> obs (outside w) (configured_namespace env w, getPvcNameForPv v) \<noteq> None) \<and>
          (\<forall>p. pvc = Some p \<longrightarrow> Name (PvcMeta p) = getPvcNameForPv v)"
        if "returns (GetSubproviderPvcByName env (getPvcNameForPv v)) w1 (pvc, e) w2" for pvc e w2
        using GetSubproviderPvcByName_spec(1,2) [OF laws that] keeps_returns [OF lookups_ns(2) that] obs1 ns1 ns
        by (auto simp: ns_kept_def)
      have del: "apart env obs (getPvcNameForPv v) w w3"
        if "returns (GetSubproviderPvcByName env (getPvcNameForPv v)) w1 (Some pvc, e) w2"
          "returns (DeleteSubproviderPvc env (Name (PvcMeta pvc))) w2 e' w3" for pvc e w2 e' w3
        using keeps_returns [OF delete_apart [OF laws] that(2)] got [OF that(1)] by (auto simp: apart_def)
      from rel show ?thesis
      proof (cases rule: claims.release_cases)
        case (removed pvc e w2 e')
        then show ?thesis using got [OF removed(1)] del [OF removed(1,3)] by auto
      next
        case (failed_remove pvc e w2 e')
        then show ?thesis using got [OF failed_remove(1)] del [OF failed_remove(1,3)] by auto
      qed (auto simp: apart_def dest: got)
    qed
  qed
  then show "apart env obs (getPvcNameForPv v) w w'"
    "obs (outside w) (configured_namespace env w, getPvcNameForPv v) = None \<Longrightarrow> obs (outside w') = obs (outside w)" by blast+
qed

text \<open>Publishing ends no live volume and starts none.\<close>

definition settled :: "('x \<Rightarrow> key \<Rightarrow> PersistentVolumeClaim option) \<Rightarrow> 'x world \<Rightarrow> 'x world \<Rightarrow> bool" where
  "settled obs w w' \<longleftrightarrow> settles obs (outside w) (outside w')"

lemma settled_reflp [simp]: "reflp (settled obs)"
  by (simp add: settled_def settles_def reflp_def)

lemma settled_transp [simp]: "transp (settled obs)"
  unfolding settled_def settles_def transp_def by (metis (no_types, lifting))

lemma settled_quiet: "keeps (same_obs obs) m \<Longrightarrow> keeps (settled obs) m"
  by (erule keeps_mono) (simp add: same_obs_def settled_def settles_def)

lemma settled_call: "(\<And>x. settles obs x (snd (f x))) \<Longrightarrow> keeps (settled obs) (call f)"
  by (simp add: keeps_def call_def settled_def split: prod.split) (metis snd_conv)

lemmas keeps_settled = keeps_deref [OF settled_reflp] keeps_ret [OF settled_reflp] keeps_panic [OF settled_reflp]
  keeps_bnd [OF settled_transp] keeps_if keeps_case_prod keeps_case_option keeps_Let

lemma pods_apart_calls:
  assumes "pods_apart env obs"
  shows "keeps (settled obs) (call (Pods_Create (kube env) ns pod))" "keeps (settled obs) (call (Pods_Update (kube env) ns pod))"
    "keeps (settled obs) (call (Pods_Delete (kube env) ns n))" "keeps (settled obs) (call (Pods_Watch (kube env) ns m))"
  using assms by (auto simp: pods_apart_def intro!: settled_call)

lemmas lookups_settled = lookups_quiet [THEN settled_quiet]

lemma pod_helpers_quiet:
  assumes "pods_apart env obs" "reads_quiet env obs"
  shows "keeps (settled obs) (CreateIntermediatePod env config)" "keeps (settled obs) (DeleteIntermediatePod env n ns)"
    "keeps (settled obs) (ControllerPublishVolume_pod env config)"
proof -
  show create: "keeps (settled obs) (CreateIntermediatePod env config)" for config
    unfolding CreateIntermediatePod_def by (intro keeps_settled pods_apart_calls [OF assms(1)])
  show delete: "keeps (settled obs) (DeleteIntermediatePod env n ns)" for n ns
    unfolding DeleteIntermediatePod_def
    by (intro keeps_settled pods_apart_calls [OF assms(1)] reads_quiet_calls [OF assms(2), THEN settled_quiet])
  show "keeps (settled obs) (ControllerPublishVolume_pod env config)"
    unfolding ControllerPublishVolume_pod_def
    by (intro keeps_settled lookups_settled [OF assms(2)] create delete)
qed

lemma pod_helpers_ns: "keeps (ns_kept env) (ControllerPublishVolume_pod env config)"
  unfolding ControllerPublishVolume_pod_def by (intro keeps_ns lookups_ns)

lemma lock_keeps: "reflp R \<Longrightarrow> keeps R (lock_key cs key)"
  by (cases cs) (simp_all add: keeps_ret keeps_panic)

lemma publish_quiet:
  assumes "pods_apart env obs" "reads_quiet env obs"
  shows "keeps (settled obs) (ControllerPublishVolume env cs preq)" "keeps (settled obs) (ControllerUnpublishVolume env cs ureq)"
  unfolding ControllerPublishVolume_def ControllerUnpublishVolume_def ControllerPublishVolume_bound_def fail_def reply_def
  by (intro keeps_settled keeps_obs_config [THEN settled_quiet] lock_keeps settled_reflp lookups_settled [OF assms(2)]
      pod_helpers_quiet [OF assms])+

lemma publish_ns:
  "keeps (ns_kept env) (ControllerPublishVolume env cs preq)" "keeps (ns_kept env) (ControllerUnpublishVolume env cs ureq)"
  unfolding ControllerPublishVolume_def ControllerUnpublishVolume_def ControllerPublishVolume_bound_def fail_def reply_def
  by (intro keeps_ns lock_keeps ns_kept_reflp lookups_ns pod_helpers_ns)+

section \<open>The handlers implement the specification\<close>

lemma apart_volumes:
  assumes "apart env obs (getPvcNameForPv v) w w'"
  shows "volumes env obs w' = (volumes env obs w)(v := volumes env obs w' v)"
proof
  fix u
  show "volumes env obs w' u = ((volumes env obs w)(v := volumes env obs w' v)) u"
  proof (cases "u = v")
    case False
    then have "getPvcNameForPv u \<noteq> getPvcNameForPv v" by (simp add: getPvcNameForPv_inj)
    then have "obs (outside w') (ns, getPvcNameForPv u) = obs (outside w) (ns, getPvcNameForPv u)" for ns
      using assms by (auto simp: apart_def)
    then show ?thesis using False assms by (simp add: volumes_def apart_def)
  qed simp
qed

lemma create_refines:
  assumes laws: "pvc_laws env obs" and quiet: "reads_quiet env obs"
    and run: "returns (CreateVolume env cs req) w r w'"
  shows "volume_step (volumes env obs w) (CreateCall (CvName req) (succeeded r)) (volumes env obs w')"
proof -
  let ?v = "CvName req" let ?s = "volumes env obs w" let ?s' = "volumes env obs w'"
  have ap: "apart env obs (getPvcNameForPv ?v) w w'"
    by (rule keeps_returns [OF CreateVolume_apart [OF laws quiet] run])
  show ?thesis
  proof (cases "?s ?v = Absent")
    case False
    then have "obs (outside w') = obs (outside w)"
      using CreateVolume_existing [OF laws quiet _ run] by (simp add: volumes_def)
    then have "?s' = ?s" using ap by (simp add: volumes_def fun_eq_iff apart_def)
    then show ?thesis using create_known [of ?s ?v "succeeded r"] False by simp
  next
    case absent: True
    show ?thesis
    proof (cases r)
      case (Inl st)
      then show ?thesis
        using create_failed [of ?s ?v "?s' ?v"] absent apart_volumes [OF ap] by (simp add: succeeded_def)
    next
      case (Inr resp)
      have "?s' ?v = Live"
        using CreateVolume_effect(4) [OF laws quiet run [unfolded Inr] refl refl] absent ap
        by (auto simp: volumes_def apart_def pvc_stored_def)
      then show ?thesis
        using create_new [of ?s ?v] absent apart_volumes [OF ap] Inr by (simp add: succeeded_def)
    qed
  qed
qed

lemma delete_refines:
  assumes laws: "pvc_laws env obs" and quiet: "reads_quiet env obs"
    and run: "returns (DeleteVolume env cs v) w r w'"
  shows "volume_step (volumes env obs w) (DeleteCall v (succeeded r)) (volumes env obs w')"
proof -
  let ?s = "volumes env obs w" let ?s' = "volumes env obs w'"
  note ap = DeleteVolume_apart(1) [OF laws quiet run]
  show ?thesis
  proof (cases "?s v = Absent")
    case True
    then have "obs (outside w') = obs (outside w)"
      using DeleteVolume_apart(2) [OF laws quiet run] by (simp add: volumes_def)
    then have "?s' = ?s" using ap by (simp add: volumes_def fun_eq_iff apart_def)
    then show ?thesis using delete_absent [of ?s v "succeeded r"] True by simp
  next
    case there: False
    show ?thesis
    proof (cases r)
      case (Inl st)
      then show ?thesis
        using delete_failed [of ?s v "?s' v"] there apart_volumes [OF ap] by (simp add: succeeded_def)
    next
      case (Inr u)
      have "?s' v \<noteq> Live"
        using DeleteVolume_effect(1,2) [OF laws quiet run [unfolded Inr]] ap
        by (simp add: volumes_def claim_present_def apart_def)
      then show ?thesis
        using delete_done [of ?s v "?s' v"] there apart_volumes [OF ap] Inr by (simp add: succeeded_def)
    qed
  qed
qed

interpretation service: simulation "service_step env obs" volume_step "volumes env obs"
    "pvc_laws env obs \<and> reads_quiet env obs \<and> pods_apart env obs"
  for env :: "'x env" and obs :: "'x \<Rightarrow> key \<Rightarrow> PersistentVolumeClaim option"
proof
  fix w w' :: "'x world" and e
  assume laws: "pvc_laws env obs \<and> reads_quiet env obs \<and> pods_apart env obs" and step: "service_step env obs w e w'"
  have other: "volume_step (volumes env obs w) OtherCall (volumes env obs w')"
    if "settled obs w w'" "ns_kept env w w'" for w' :: "'x world"
    using that by (intro other_call) (simp add: fades_def volumes_def settled_def settles_def ns_kept_def)
  from step show "volume_step (volumes env obs w) e (volumes env obs w')"
  proof cases
    case (serve_publish cs preq pr)
    then show ?thesis using other laws keeps_returns [OF publish_quiet(1)] keeps_returns [OF publish_ns(1)] by metis
  next
    case (serve_unpublish cs ureq r)
    then show ?thesis using other laws keeps_returns [OF publish_quiet(2)] keeps_returns [OF publish_ns(2)] by metis
  next
    case (cluster_finalizes x)
    have "volumes env obs w' v = volumes env obs w v \<or> volumes env obs w v = Terminating \<and> volumes env obs w' v = Absent" for v
      using cluster_finalizes(3) [of "(configured_namespace env w, getPvcNameForPv v)"] cluster_finalizes(2)
      by (auto simp: volumes_def)
    then show ?thesis unfolding cluster_finalizes(1) by (intro finalized) (simp add: fades_def)
  next
    case (cluster_updates x)
    then have "volumes env obs w' = volumes env obs w" by (simp add: volumes_def fun_eq_iff)
    then show ?thesis unfolding cluster_updates(1) by (simp add: updated)
  qed (use laws create_refines delete_refines in blast)+
qed

section \<open>An example\<close>

text \<open>
  A cluster with a class that waits for its first consumer: a claim is bound to a volume while the driver waits for the
  pod that uses it.
\<close>

definition bind_claim :: "PersistentVolumeClaim \<Rightarrow> PersistentVolumeClaim" where
  "bind_claim pvc = (if VolumeName pvc = [] then pvc\<lparr>VolumeName := ''pv-for-'' @ Name (PvcMeta pvc)\<rparr> else pvc)"

definition bind_claims :: "mem \<Rightarrow> mem" where
  "bind_claims x = (let cs = map (\<lambda>(k, pvc). (k, bind_claim pvc)) (MemClaims x) in
     x\<lparr>MemClaims := cs, MemVolumes := map (\<lambda>(k, pvc). VolumeName pvc) cs @ MemVolumes x\<rparr>)"

definition late_env :: "mem env" where
  "late_env = demo_env\<lparr>kube := (kube demo_env)\<lparr>Pods_Watch := (\<lambda>ns m x.
     case Pods_Watch (kube demo_env) ns m x of (r, x') \<Rightarrow> (r, bind_claims x'))\<rparr>\<rparr>"

lemma bind_claim_meta [simp]: "PvcMeta (bind_claim pvc) = PvcMeta pvc"
  by (simp add: bind_claim_def)

lemma on_pods_claims: "MemClaims (snd (on_pods f x)) = MemClaims x"
  by (simp add: on_pods_def split: prod.split)

lemma bind_claims_obs: "mem_claims (bind_claims x) k = map_option bind_claim (mem_claims x k)"
proof -
  have "map_of (map (\<lambda>(k, pvc). (k, bind_claim pvc)) xs) k = map_option bind_claim (map_of xs k)" for xs :: "PersistentVolumeClaim store"
    by (induction xs) auto
  then show ?thesis
    by (simp add: mem_claims_def bind_claims_def Let_def mem_obs_def split: option.split)
qed

lemma bind_claims_settles: "settles mem_claims x (bind_claims x)"
  by (auto simp: settles_def bind_claims_obs claim_state_def split: option.split)

lemma late_pods_apart: "pods_apart late_env mem_claims"
proof -
  have same: "settles mem_claims x x'" if "MemClaims x' = MemClaims x" for x x'
    using that by (simp add: settles_def mem_claims_def)
  show ?thesis
    by (simp add: pods_apart_def late_env_def demo_env_def mem_env_def mem_kube_def same on_pods_claims bind_claims_settles)
qed

lemma late_laws: "pvc_laws late_env mem_claims" "reads_quiet late_env obs"
  using demo_laws(1,3) by (simp_all add: pvc_laws_def reads_quiet_def late_env_def)

text \<open>
  A volume is created and published to a node, whereby its claim is bound; the one that was there is deleted, and the
  new one is left alone by it.
\<close>

definition late_create :: "mem world" where
  "late_create = snd (CreateVolume late_env (Some demo_config) demo_create demo_world)"

definition late_publish :: ControllerPublishVolumeRequest where
  "late_publish = demo_publish\<lparr>CpVolumeId := ''pvc-1''\<rparr>"

definition late_published :: "mem world" where
  "late_published = snd (ControllerPublishVolume late_env (Some demo_config) late_publish late_create)"

definition demo_after :: "mem world" where
  "demo_after = snd (DeleteVolume late_env (Some demo_config) ''pvc-0'' late_published)"

lemma late_publish_run:
  "returns (ControllerPublishVolume late_env (Some demo_config) late_publish) late_create
     (Inr (Some [(''backendPvName'', ''pv-for-opencas-csi-pvc-1'')])) late_published"
  unfolding late_published_def by (rule returns_snd) code_simp

lemma demo_service_run:
  "runs (service_step late_env mem_claims) demo_world
     [CreateCall ''pvc-1'' True, OtherCall, DeleteCall ''pvc-0'' True] demo_after"
proof -
  have new: "returns (CreateVolume late_env (Some demo_config) demo_create) demo_world
      (Inr (CreateVolume_response demo_create)) late_create"
    unfolding late_create_def by (rule returns_snd) code_simp
  have del: "returns (DeleteVolume late_env (Some demo_config) ''pvc-0'') late_published (Inr ()) demo_after"
    unfolding demo_after_def by (rule returns_snd) code_simp
  have name: "CvName demo_create = ''pvc-1''" by (simp add: demo_create_def)
  show ?thesis
    using serve_create [OF new, of mem_claims] serve_publish [OF late_publish_run, of mem_claims]
      serve_delete [OF del, of mem_claims]
    by (auto simp: runs_Cons succeeded_def name)
qed

section \<open>Properties of the service\<close>

text \<open>
  C1: The controller service implements the machine of the volumes. Any sequence of calls to create, delete, publish
  and unpublish volumes, with whatever outcomes, mixed with the cluster finishing the removal of claims and changing
  claims that stay, as it does to bind them, is a run of the specification: a call that creates a volume makes it live
  where it was absent and changes nothing where it was there, a call that deletes one ends its life, and no call
  changes the state of another volume. While a pod is awaited the cluster may bind claims and finish deletions.
\<close>

theorem volume_service_refines:
  assumes "pvc_laws env obs" "reads_quiet env obs" "pods_apart env obs"
    and "runs (service_step env obs) w es w'"
  shows "runs volume_step (volumes env obs w) es (volumes env obs w')"
  using service.refines [OF _ assms(4)] assms(1-3) by blast

theorem volume_service_refines_witness:
  "runs volume_step (volumes late_env mem_claims demo_world)
     [CreateCall ''pvc-1'' True, OtherCall, DeleteCall ''pvc-0'' True] (volumes late_env mem_claims demo_after)"
  by (rule volume_service_refines [OF late_laws late_pods_apart demo_service_run])

text \<open>
  C2: The life of a volume through any sequence of calls. A live volume stays live until a call to delete it,
  and one that does not exist comes into being only by a call to create it. A volume that was created with success is
  live until a call to delete it, unless its claim was on its way out at that time: then the success is reported
  although the claim still disappears.
\<close>

theorem volume_lifetimes:
  assumes laws: "pvc_laws env obs" "reads_quiet env obs" "pods_apart env obs"
    and run: "runs (service_step env obs) w es w'"
  shows "(volumes env obs w v = Live \<and> (\<forall>ok. DeleteCall v ok \<notin> set es) \<longrightarrow> volumes env obs w' v = Live) \<and>
    (volumes env obs w v = Absent \<and> (\<forall>ok. CreateCall v ok \<notin> set es) \<longrightarrow> volumes env obs w' v = Absent) \<and>
    (volumes env obs w v \<noteq> Terminating \<and> (\<exists>rest. es = CreateCall v True # rest \<and> (\<forall>ok. DeleteCall v ok \<notin> set rest)) \<longrightarrow>
       volumes env obs w' v = Live) \<and>
    (volumes env obs w v = Terminating \<and> es = [CreateCall v True, Finalized] \<longrightarrow> volumes env obs w' v \<noteq> Live)"
proof (intro conjI impI; elim conjE exE)
  note lawful = conjI [OF laws(1) conjI [OF laws(2,3)]]
  have lasts: "volumes env obs w2 v = Live"
    if "runs (service_step env obs) w1 fs w2" "volumes env obs w1 v = Live" "\<forall>ok. DeleteCall v ok \<notin> set fs" for w1 fs w2
    by (rule service.inherits [OF lawful that(1), of "\<lambda>s. s v = Live"]) (use that volume_step_live in metis)+
  show "volumes env obs w' v = Live" if "volumes env obs w v = Live" "\<forall>ok. DeleteCall v ok \<notin> set es"
    using lasts [OF run that] .
  show "volumes env obs w' v = Absent" if "volumes env obs w v = Absent" "\<forall>ok. CreateCall v ok \<notin> set es"
    by (rule service.inherits [OF lawful run, of "\<lambda>s. s v = Absent"]) (use that volume_step_absent in metis)+
  show "volumes env obs w' v = Live"
    if s: "volumes env obs w v \<noteq> Terminating" and es: "es = CreateCall v True # rest" "\<forall>ok. DeleteCall v ok \<notin> set rest" for rest
  proof -
    from run es(1) obtain w1 where step: "service_step env obs w (CreateCall v True) w1" and rest: "runs (service_step env obs) w1 rest w'"
      by (auto simp: runs_Cons)
    have "volume_step (volumes env obs w) (CreateCall v True) (volumes env obs w1)"
      by (rule service.simulates [OF lawful step])
    then have "volumes env obs w1 v = Live" using s by (cases "volumes env obs w v") (auto elim: volume_stepE)
    then show ?thesis using lasts [OF rest _ es(2)] by simp
  qed
  show "volumes env obs w' v \<noteq> Live" if "volumes env obs w v = Terminating" "es = [CreateCall v True, Finalized]"
    using service.refines [OF lawful run] that
    by (auto simp: runs_Cons fades_def elim!: volume_stepE) (metis volume_state.distinct)+
qed

theorem volume_lifetimes_witness:
  "volumes late_env mem_claims demo_world ''pvc-1'' = Absent \<and> volumes late_env mem_claims demo_after ''pvc-1'' = Live"
proof
  show absent: "volumes late_env mem_claims demo_world ''pvc-1'' = Absent" by code_simp
  then show "volumes late_env mem_claims demo_after ''pvc-1'' = Live"
    using volume_lifetimes [OF late_laws late_pods_apart demo_service_run, of "''pvc-1''"] by simp
qed

end
