(* ===== verification/Deep_Copy.thy ===== *)
theory Deep_Copy
  imports Cache_Reconciler Driver_Helpers "HOL-Library.DAList"
begin

text \<open>
  \<^verbatim>\<open>pkg/csi-operator/api/v1alpha1/zz_generated.deepcopy.go\<close>: the deep copies of the API types. In the other theories
  an object is a value, so a copy is the object itself; here the objects live in an explicit memory, with
  pointers, maps and slices as addresses, and the copies are shown to have the value of the original and to share nothing
  with it. This is what lets the reconcilers change an object after \<^verbatim>\<open>client.MergeFrom(c.DeepCopy())\<close> and still send
  the difference to what it was.

  The memory has one total function for each type of cell and one limit, below which the addresses are in use. A map is a list of entries
  with distinct keys, in the order in which a \<^verbatim>\<open>range\<close> loop visits them. The metadata of an object
  and of a list are types of apimachinery; their representation, what they look like, what they refer to and their own \<^verbatim>\<open>DeepCopyInto\<close>
  are parameters, with the documented behaviour as \<open>copy_laws\<close>.
\<close>

section \<open>Objects in memory\<close>

text \<open>
  The structs as they are stored. \<open>'o\<close> and \<open>'l\<close> stand for \<^verbatim>\<open>ObjectMeta\<close> and \<^verbatim>\<open>ListMeta\<close>; \<open>'r\<close> is the type of a field that
  holds a map: an address or \<^verbatim>\<open>nil\<close> in memory, the map itself in a value. In the same way \<open>'i\<close> is a slice.
\<close>

record 'r SpecStruct =
  SLogLevel :: "16 word"
  SNodeSelector :: 'r
  SLabels :: 'r
  SBuildArgs :: 'r
  SDriverConfig :: DriverConf

record 'o CacheStruct =
  CacheType :: TypeMeta
  CacheObjectMeta :: 'o
  CacheSpecOf :: CacheSpec
  CacheStatusField :: CacheStatusOf

record ('o, 'r) DriverStruct =
  DriverType :: TypeMeta
  DriverObjectMeta :: 'o
  DriverSpecOf :: "'r SpecStruct"
  DriverStatusOf :: unit

record ('l, 'i) ListStruct =
  ListType :: TypeMeta
  ListMetaOf :: 'l
  Items :: 'i

record ('o, 'l, 'x) memory =
  lim :: nat
  maps :: "nat \<Rightarrow> (string, string) alist"
  caches :: "nat \<Rightarrow> 'o CacheStruct"
  cacheArrays :: "nat \<Rightarrow> 'o CacheStruct list"
  cacheLists :: "nat \<Rightarrow> ('l, nat option) ListStruct"
  cacheSpecs :: "nat \<Rightarrow> CacheSpec"
  cacheStatuses :: "nat \<Rightarrow> CacheStatusOf"
  drivers :: "nat \<Rightarrow> ('o, nat option) DriverStruct"
  driverArrays :: "nat \<Rightarrow> ('o, nat option) DriverStruct list"
  driverLists :: "nat \<Rightarrow> ('l, nat option) ListStruct"
  driverSpecs :: "nat \<Rightarrow> nat option SpecStruct"
  driverConfs :: "nat \<Rightarrow> DriverConf"
  driverStatuses :: "nat \<Rightarrow> unit"
  others :: "nat \<Rightarrow> 'x"

text \<open>What is stored at an address, and memories that agree on a set of addresses.\<close>

definition cell where
  "cell h a = ((maps h a, caches h a, cacheArrays h a, cacheLists h a, cacheSpecs h a, cacheStatuses h a),
     (drivers h a, driverArrays h a, driverLists h a, driverSpecs h a, driverConfs h a, driverStatuses h a, others h a))"

definition same_at :: "nat set \<Rightarrow> ('o, 'l, 'x) memory \<Rightarrow> ('o, 'l, 'x) memory \<Rightarrow> bool" where
  "same_at A h h' \<longleftrightarrow> (\<forall>a\<in>A. cell h a = cell h' a)"

text \<open>The zero values of the structs, given those of the metadata.\<close>

definition TypeMeta_zero :: TypeMeta where
  "TypeMeta_zero = \<lparr>TypeKind = [], APIVersion = ([], [])\<rparr>"

definition CacheSpec_zero :: CacheSpec where
  "CacheSpec_zero = \<lparr>DeviceById = [], CacheLizeSize = 0, SpecCacheMode = []\<rparr>"

definition CacheStatus_zero :: CacheStatusOf where
  "CacheStatus_zero = \<lparr>StatusReady = False, StatusCacheId = 0\<rparr>"

definition DriverConf_zero :: DriverConf where
  "DriverConf_zero = \<lparr>DriverImage = [], ConfCasadmImage = [], WebhookImage = [], DriverNamespace = [],
     ConfProtectedNamespace = [], ControllerReplicas = 0\<rparr>"

definition SpecStruct_zero :: "nat option SpecStruct" where
  "SpecStruct_zero = \<lparr>SLogLevel = 0, SNodeSelector = None, SLabels = None, SBuildArgs = None, SDriverConfig = DriverConf_zero\<rparr>"

definition CacheStruct_zero :: "'o \<Rightarrow> 'o CacheStruct" where
  "CacheStruct_zero z = \<lparr>CacheType = TypeMeta_zero, CacheObjectMeta = z, CacheSpecOf = CacheSpec_zero, CacheStatusField = CacheStatus_zero\<rparr>"

definition DriverStruct_zero :: "'o \<Rightarrow> ('o, nat option) DriverStruct" where
  "DriverStruct_zero z = \<lparr>DriverType = TypeMeta_zero, DriverObjectMeta = z, DriverSpecOf = SpecStruct_zero, DriverStatusOf = ()\<rparr>"

definition ListStruct_zero :: "'l \<Rightarrow> ('l, nat option) ListStruct" where
  "ListStruct_zero z = \<lparr>ListType = TypeMeta_zero, ListMetaOf = z, Items = None\<rparr>"

text \<open>\<^verbatim>\<open>new\<close> and \<^verbatim>\<open>make\<close> take the address at the limit.\<close>

definition new :: "(nat \<Rightarrow> 'a \<Rightarrow> ('o, 'l, 'x) memory \<Rightarrow> ('o, 'l, 'x) memory) \<Rightarrow> 'a \<Rightarrow> ('o, 'l, 'x) memory \<Rightarrow> nat \<times> ('o, 'l, 'x) memory" where
  "new put v h = (lim h, put (lim h) v (h\<lparr>lim := Suc (lim h)\<rparr>))"

section \<open>Pointers\<close>

text \<open>
  A pointer to a struct points to a cell of its own or into another object: to an element of a slice or to the field
  \<^verbatim>\<open>Spec\<close> of a driver instance.
\<close>

datatype cache_ptr = CachePtr nat | CacheElem nat nat
datatype driver_ptr = DriverPtr nat | DriverElem nat nat
datatype spec_ptr = SpecPtr nat | SpecField driver_ptr

fun read_cache where
  "read_cache h (CachePtr a) = caches h a"
| "read_cache h (CacheElem a i) = cacheArrays h a ! i"

fun put_cache where
  "put_cache (CachePtr a) c h = h\<lparr>caches := (caches h)(a := c)\<rparr>"
| "put_cache (CacheElem a i) c h = h\<lparr>cacheArrays := (cacheArrays h)(a := (cacheArrays h a)[i := c])\<rparr>"

fun read_driver where
  "read_driver h (DriverPtr a) = drivers h a"
| "read_driver h (DriverElem a i) = driverArrays h a ! i"

fun put_driver where
  "put_driver (DriverPtr a) c h = h\<lparr>drivers := (drivers h)(a := c)\<rparr>"
| "put_driver (DriverElem a i) c h = h\<lparr>driverArrays := (driverArrays h)(a := (driverArrays h a)[i := c])\<rparr>"

fun read_spec where
  "read_spec h (SpecPtr a) = driverSpecs h a"
| "read_spec h (SpecField p) = DriverSpecOf (read_driver h p)"

fun put_spec where
  "put_spec (SpecPtr a) s h = h\<lparr>driverSpecs := (driverSpecs h)(a := s)\<rparr>"
| "put_spec (SpecField p) s h = put_driver p ((read_driver h p)\<lparr>DriverSpecOf := s\<rparr>) h"

definition put_map where "put_map a m h = h\<lparr>maps := (maps h)(a := m)\<rparr>"
definition put_cacheArray where "put_cacheArray a cs h = h\<lparr>cacheArrays := (cacheArrays h)(a := cs)\<rparr>"
definition put_cacheList where "put_cacheList a l h = h\<lparr>cacheLists := (cacheLists h)(a := l)\<rparr>"
definition put_cacheSpec where "put_cacheSpec a s h = h\<lparr>cacheSpecs := (cacheSpecs h)(a := s)\<rparr>"
definition put_cacheStatus where "put_cacheStatus a s h = h\<lparr>cacheStatuses := (cacheStatuses h)(a := s)\<rparr>"
definition put_driverArray where "put_driverArray a ds h = h\<lparr>driverArrays := (driverArrays h)(a := ds)\<rparr>"
definition put_driverList where "put_driverList a l h = h\<lparr>driverLists := (driverLists h)(a := l)\<rparr>"
definition put_driverConf where "put_driverConf a s h = h\<lparr>driverConfs := (driverConfs h)(a := s)\<rparr>"
definition put_driverStatus where "put_driverStatus a s h = h\<lparr>driverStatuses := (driverStatuses h)(a := s)\<rparr>"

section \<open>The copies\<close>

text \<open>
  \<^verbatim>\<open>DeepCopyInto\<close> needs pointers that are not \<^verbatim>\<open>nil\<close>, as its comment says; \<^verbatim>\<open>DeepCopy\<close> checks its receiver. The types without
  references are assigned.
\<close>

definition CacheSpec_DeepCopyInto where
  "CacheSpec_DeepCopyInto i out h = put_cacheSpec out (cacheSpecs h i) h"

definition CacheSpec_DeepCopy where
  "CacheSpec_DeepCopy p h = (case p of None \<Rightarrow> (None, h) | Some i \<Rightarrow>
     let (out, h) = new put_cacheSpec CacheSpec_zero h in (Some out, CacheSpec_DeepCopyInto i out h))"

definition CacheStatus_DeepCopyInto where
  "CacheStatus_DeepCopyInto i out h = put_cacheStatus out (cacheStatuses h i) h"

definition CacheStatus_DeepCopy where
  "CacheStatus_DeepCopy p h = (case p of None \<Rightarrow> (None, h) | Some i \<Rightarrow>
     let (out, h) = new put_cacheStatus CacheStatus_zero h in (Some out, CacheStatus_DeepCopyInto i out h))"

definition DriverConf_DeepCopyInto where
  "DriverConf_DeepCopyInto i out h = put_driverConf out (driverConfs h i) h"

definition DriverConf_DeepCopy where
  "DriverConf_DeepCopy p h = (case p of None \<Rightarrow> (None, h) | Some i \<Rightarrow>
     let (out, h) = new put_driverConf DriverConf_zero h in (Some out, DriverConf_DeepCopyInto i out h))"

definition DriverInstanceStatus_DeepCopyInto where
  "DriverInstanceStatus_DeepCopyInto i out h = put_driverStatus out (driverStatuses h i) h"

definition DriverInstanceStatus_DeepCopy where
  "DriverInstanceStatus_DeepCopy p h = (case p of None \<Rightarrow> (None, h) | Some i \<Rightarrow>
     let (out, h) = new put_driverStatus () h in (Some out, DriverInstanceStatus_DeepCopyInto i out h))"

text \<open>
  One map of a specification: \<open>get\<close> and \<open>upd\<close> are its field. The loop visits the entries in the order of the list.
\<close>

fun copy_entries where
  "copy_entries out [] h = h"
| "copy_entries out ((key, val) # es) h = copy_entries out es (put_map out (DAList.update key val (maps h out)) h)"

definition copy_map_field where
  "copy_map_field get upd i out h =
     (case get (read_spec h i) of None \<Rightarrow> h
      | Some m \<Rightarrow>
        let (m', h) = new put_map DAList.empty h;
            h = put_spec out (upd (Some m') (read_spec h out)) h
        in copy_entries m' (DAList.impl_of (maps h m)) h)"

definition DriverInstanceSpec_DeepCopyInto where
  "DriverInstanceSpec_DeepCopyInto i out h =
     (let h = put_spec out (read_spec h i) h;
          h = copy_map_field SNodeSelector (\<lambda>r. SNodeSelector_update (\<lambda>_. r)) i out h;
          h = copy_map_field SLabels (\<lambda>r. SLabels_update (\<lambda>_. r)) i out h;
          h = copy_map_field SBuildArgs (\<lambda>r. SBuildArgs_update (\<lambda>_. r)) i out h
      in put_spec out ((read_spec h out)\<lparr>SDriverConfig := SDriverConfig (read_spec h i)\<rparr>) h)"

definition DriverInstanceSpec_DeepCopy where
  "DriverInstanceSpec_DeepCopy p h = (case p of None \<Rightarrow> (None, h) | Some i \<Rightarrow>
     let (out, h) = new (\<lambda>a. put_spec (SpecPtr a)) SpecStruct_zero h
     in (Some out, DriverInstanceSpec_DeepCopyInto (SpecPtr i) (SpecPtr out) h))"

text \<open>
  \<^verbatim>\<open>ObjectMeta\<close> and \<^verbatim>\<open>ListMeta\<close>: their zero value and their \<^verbatim>\<open>DeepCopyInto\<close>, which returns the copy and allocates what it
  refers to.
\<close>

record ('m, 'h) meta_ops =
  MetaZero :: 'm
  MetaCopy :: "'m \<Rightarrow> 'h \<Rightarrow> 'm \<times> 'h"

definition Cache_DeepCopyInto where
  "Cache_DeepCopyInto om i out h =
     (let h = put_cache out (read_cache h i) h;
          h = put_cache out ((read_cache h out)\<lparr>CacheType := CacheType (read_cache h i)\<rparr>) h;
          (m, h) = MetaCopy om (CacheObjectMeta (read_cache h i)) h;
          h = put_cache out ((read_cache h out)\<lparr>CacheObjectMeta := m\<rparr>) h;
          h = put_cache out ((read_cache h out)\<lparr>CacheSpecOf := CacheSpecOf (read_cache h i)\<rparr>) h
      in put_cache out ((read_cache h out)\<lparr>CacheStatusField := CacheStatusField (read_cache h i)\<rparr>) h)"

definition Cache_DeepCopy where
  "Cache_DeepCopy om p h = (case p of None \<Rightarrow> (None, h) | Some i \<Rightarrow>
     let (out, h) = new (\<lambda>a. put_cache (CachePtr a)) (CacheStruct_zero (MetaZero om)) h
     in (Some out, Cache_DeepCopyInto om (CachePtr i) (CachePtr out) h))"

definition DriverInstance_DeepCopyInto where
  "DriverInstance_DeepCopyInto om i out h =
     (let h = put_driver out (read_driver h i) h;
          h = put_driver out ((read_driver h out)\<lparr>DriverType := DriverType (read_driver h i)\<rparr>) h;
          (m, h) = MetaCopy om (DriverObjectMeta (read_driver h i)) h;
          h = put_driver out ((read_driver h out)\<lparr>DriverObjectMeta := m\<rparr>) h;
          h = DriverInstanceSpec_DeepCopyInto (SpecField i) (SpecField out) h
      in put_driver out ((read_driver h out)\<lparr>DriverStatusOf := DriverStatusOf (read_driver h i)\<rparr>) h)"

definition DriverInstance_DeepCopy where
  "DriverInstance_DeepCopy om p h = (case p of None \<Rightarrow> (None, h) | Some i \<Rightarrow>
     let (out, h) = new (\<lambda>a. put_driver (DriverPtr a)) (DriverStruct_zero (MetaZero om)) h
     in (Some out, DriverInstance_DeepCopyInto om (DriverPtr i) (DriverPtr out) h))"

text \<open>The lists: a new array of zero values, and a copy into each of its elements.\<close>

definition CacheList_DeepCopyInto where
  "CacheList_DeepCopyInto om lm i out h =
     (let h = put_cacheList out (cacheLists h i) h;
          h = put_cacheList out ((cacheLists h out)\<lparr>ListType := ListType (cacheLists h i)\<rparr>) h;
          (m, h) = MetaCopy lm (ListMetaOf (cacheLists h i)) h;
          h = put_cacheList out ((cacheLists h out)\<lparr>ListMetaOf := m\<rparr>) h
      in case Items (cacheLists h i) of None \<Rightarrow> h
         | Some a \<Rightarrow>
           let (b, h) = new put_cacheArray (replicate (length (cacheArrays h a)) (CacheStruct_zero (MetaZero om))) h;
               h = put_cacheList out ((cacheLists h out)\<lparr>Items := Some b\<rparr>) h
           in fold (\<lambda>k. Cache_DeepCopyInto om (CacheElem a k) (CacheElem b k)) [0..<length (cacheArrays h a)] h)"

definition CacheList_DeepCopy where
  "CacheList_DeepCopy om lm p h = (case p of None \<Rightarrow> (None, h) | Some i \<Rightarrow>
     let (out, h) = new put_cacheList (ListStruct_zero (MetaZero lm)) h in (Some out, CacheList_DeepCopyInto om lm i out h))"

definition DriverInstanceList_DeepCopyInto where
  "DriverInstanceList_DeepCopyInto om lm i out h =
     (let h = put_driverList out (driverLists h i) h;
          h = put_driverList out ((driverLists h out)\<lparr>ListType := ListType (driverLists h i)\<rparr>) h;
          (m, h) = MetaCopy lm (ListMetaOf (driverLists h i)) h;
          h = put_driverList out ((driverLists h out)\<lparr>ListMetaOf := m\<rparr>) h
      in case Items (driverLists h i) of None \<Rightarrow> h
         | Some a \<Rightarrow>
           let (b, h) = new put_driverArray (replicate (length (driverArrays h a)) (DriverStruct_zero (MetaZero om))) h;
               h = put_driverList out ((driverLists h out)\<lparr>Items := Some b\<rparr>) h
           in fold (\<lambda>k. DriverInstance_DeepCopyInto om (DriverElem a k) (DriverElem b k)) [0..<length (driverArrays h a)] h)"

definition DriverInstanceList_DeepCopy where
  "DriverInstanceList_DeepCopy om lm p h = (case p of None \<Rightarrow> (None, h) | Some i \<Rightarrow>
     let (out, h) = new put_driverList (ListStruct_zero (MetaZero lm)) h in (Some out, DriverInstanceList_DeepCopyInto om lm i out h))"

text \<open>
  \<^verbatim>\<open>DeepCopyObject\<close> returns an interface value: \<^verbatim>\<open>nil\<close>, or a pointer with its type, where the pointer itself could be \<^verbatim>\<open>nil\<close>.
\<close>

datatype runtime_Object =
    CacheObject "nat option"
  | CacheListObject "nat option"
  | DriverInstanceObject "nat option"
  | DriverInstanceListObject "nat option"

definition Cache_DeepCopyObject where
  "Cache_DeepCopyObject om p h =
     (let (c, h) = Cache_DeepCopy om p h in (if c \<noteq> None then Some (CacheObject c) else None, h))"

definition CacheList_DeepCopyObject where
  "CacheList_DeepCopyObject om lm p h =
     (let (c, h) = CacheList_DeepCopy om lm p h in (if c \<noteq> None then Some (CacheListObject c) else None, h))"

definition DriverInstance_DeepCopyObject where
  "DriverInstance_DeepCopyObject om p h =
     (let (c, h) = DriverInstance_DeepCopy om p h in (if c \<noteq> None then Some (DriverInstanceObject c) else None, h))"

definition DriverInstanceList_DeepCopyObject where
  "DriverInstanceList_DeepCopyObject om lm p h =
     (let (c, h) = DriverInstanceList_DeepCopy om lm p h in (if c \<noteq> None then Some (DriverInstanceListObject c) else None, h))"

section \<open>Memories that agree\<close>

lemma same_atD:
  assumes "same_at A h h'" and "a \<in> A"
  shows "maps h' a = maps h a" "caches h' a = caches h a" "cacheArrays h' a = cacheArrays h a"
    "cacheLists h' a = cacheLists h a" "cacheSpecs h' a = cacheSpecs h a" "cacheStatuses h' a = cacheStatuses h a"
    "drivers h' a = drivers h a" "driverArrays h' a = driverArrays h a" "driverLists h' a = driverLists h a"
    "driverSpecs h' a = driverSpecs h a" "driverConfs h' a = driverConfs h a" "driverStatuses h' a = driverStatuses h a"
    "others h' a = others h a"
  using assms by (auto simp: same_at_def cell_def)

lemma same_at_refl [simp]: "same_at A h h"
  by (simp add: same_at_def)

lemma same_at_sym: "same_at A h h' \<Longrightarrow> same_at A h' h"
  by (simp add: same_at_def)

lemma same_at_trans [trans]: "same_at A h h' \<Longrightarrow> same_at A h' h'' \<Longrightarrow> same_at A h h''"
  by (simp add: same_at_def)

lemma same_at_mono: "same_at A h h' \<Longrightarrow> B \<subseteq> A \<Longrightarrow> same_at B h h'"
  by (auto simp: same_at_def)

lemma cell_lim [simp]: "cell (h\<lparr>lim := n\<rparr>) a = cell h a"
  by (simp add: cell_def)

fun cache_base where
  "cache_base (CachePtr a) = a"
| "cache_base (CacheElem a i) = a"

fun cache_inside where
  "cache_inside h (CachePtr a) = True"
| "cache_inside h (CacheElem a i) = (i < length (cacheArrays h a))"

fun driver_base where
  "driver_base (DriverPtr a) = a"
| "driver_base (DriverElem a i) = a"

fun driver_inside where
  "driver_inside h (DriverPtr a) = True"
| "driver_inside h (DriverElem a i) = (i < length (driverArrays h a))"

fun spec_base where
  "spec_base (SpecPtr a) = a"
| "spec_base (SpecField p) = driver_base p"

fun spec_inside where
  "spec_inside h (SpecPtr a) = True"
| "spec_inside h (SpecField p) = driver_inside h p"

lemma put_cell [simp]:
  shows "cache_base p \<noteq> b \<Longrightarrow> cell (put_cache p c h) b = cell h b"
    and "driver_base q \<noteq> b \<Longrightarrow> cell (put_driver q d h) b = cell h b"
proof -
  show "cache_base p \<noteq> b \<Longrightarrow> cell (put_cache p c h) b = cell h b" by (cases p) (simp_all add: cell_def)
  show "driver_base q \<noteq> b \<Longrightarrow> cell (put_driver q d h) b = cell h b" by (cases q) (simp_all add: cell_def)
qed

lemma put_cell_spec [simp]: "spec_base s \<noteq> b \<Longrightarrow> cell (put_spec s sp h) b = cell h b"
  by (cases s) (simp add: cell_def, simp)

lemma put_cell_nat [simp]:
  assumes "a \<noteq> b"
  shows "cell (put_map a m h) b = cell h b" "cell (put_cacheArray a cs h) b = cell h b"
    "cell (put_cacheList a l h) b = cell h b" "cell (put_cacheSpec a s h) b = cell h b"
    "cell (put_cacheStatus a t h) b = cell h b" "cell (put_driverArray a ds h) b = cell h b"
    "cell (put_driverList a dl h) b = cell h b" "cell (put_driverConf a cf h) b = cell h b"
    "cell (put_driverStatus a u h) b = cell h b"
  using assms by (simp_all add: cell_def put_map_def put_cacheArray_def put_cacheList_def put_cacheSpec_def
      put_cacheStatus_def put_driverArray_def put_driverList_def put_driverConf_def put_driverStatus_def)

lemma put_lim [simp]:
  "lim (put_cache p c h) = lim h" "lim (put_driver q d h) = lim h"
  by (cases p; simp) (cases q; simp)

lemma put_lim_spec [simp]: "lim (put_spec s sp h) = lim h"
  by (cases s) simp_all

lemma put_lim_nat [simp]:
  "lim (put_map a m h) = lim h" "lim (put_cacheArray a cs h) = lim h"
  "lim (put_cacheList a l h) = lim h" "lim (put_cacheSpec a s h) = lim h"
  "lim (put_cacheStatus a t h) = lim h" "lim (put_driverArray a ds h) = lim h"
  "lim (put_driverList a dl h) = lim h" "lim (put_driverConf a cf h) = lim h"
  "lim (put_driverStatus a u h) = lim h"
  by (simp_all add: put_map_def put_cacheArray_def put_cacheList_def put_cacheSpec_def
      put_cacheStatus_def put_driverArray_def put_driverList_def put_driverConf_def put_driverStatus_def)

text \<open>A later memory: more addresses may be in use, and those that were in use are unchanged.\<close>

definition extends :: "('o, 'l, 'x) memory \<Rightarrow> ('o, 'l, 'x) memory \<Rightarrow> bool" where
  "extends h h' \<longleftrightarrow> lim h \<le> lim h' \<and> same_at {..<lim h} h h'"

lemma extendsD:
  assumes "extends h h'"
  shows "lim h \<le> lim h'" "A \<subseteq> {..<lim h} \<Longrightarrow> same_at A h h'" "a < lim h \<Longrightarrow> cell h' a = cell h a"
  using assms by (auto simp: extends_def same_at_def)

lemma extends_refl [simp]: "extends h h"
  by (simp add: extends_def)

lemma extends_trans [trans]: "extends h h' \<Longrightarrow> extends h' h'' \<Longrightarrow> extends h h''"
  by (auto simp: extends_def same_at_def)

section \<open>What a copy has to do\<close>

text \<open>
  A value read off the memory by \<open>value\<close> depends on what \<open>refs\<close> says it refers to, and on nothing else. The documented behaviour of a deep
  copy of a type of apimachinery: it changes nothing that exists, and the copy has the value of the original and refers to nothing that existed before.
\<close>

definition framed where
  "framed value refs \<longleftrightarrow> (\<forall>h h' m. same_at (refs h m) h h' \<longrightarrow> value h' m = value h m \<and> refs h' m = refs h m)"

definition copy_laws where
  "copy_laws copy value refs \<longleftrightarrow> framed value refs \<and>
     (\<forall>m h m' h'. copy m h = (m', h') \<longrightarrow> refs h m \<subseteq> {..<lim h} \<longrightarrow>
        extends h h' \<and> value h' m' = value h m \<and> refs h' m' \<subseteq> {lim h..<lim h'})"

text \<open>
  What the generated code promises for the pointers to a type: \<^verbatim>\<open>nil\<close> is copied to \<^verbatim>\<open>nil\<close>. A pointer to an object is copied to a new
  one with the same value, that shares nothing with what existed: whatever is written later to the memory there was before the copy, the
  copy keeps its value.
\<close>

definition deep_copies where
  "deep_copies DeepCopy value refs \<longleftrightarrow>
     (\<forall>h. DeepCopy None h = (None, h)) \<and>
     (\<forall>a h. insert a (refs h a) \<subseteq> {..<lim h} \<longrightarrow>
        (\<exists>b h'. DeepCopy (Some a) h = (Some b, h') \<and> extends h h' \<and>
           insert b (refs h' b) \<subseteq> {lim h..<lim h'} \<and> value h' b = value h a \<and>
           (\<forall>h2. same_at {lim h..<lim h'} h' h2 \<longrightarrow> value h2 b = value h a)))"

lemma framedD: "framed value refs \<Longrightarrow> same_at (refs h m) h h' \<Longrightarrow> value h' m = value h m \<and> refs h' m = refs h m"
  by (simp add: framed_def)

lemma copy_lawsD:
  assumes "copy_laws copy value refs"
  shows "framed value refs"
    and "copy m h = (m', h') \<Longrightarrow> refs h m \<subseteq> {..<lim h} \<Longrightarrow> extends h h'"
    and "copy m h = (m', h') \<Longrightarrow> refs h m \<subseteq> {..<lim h} \<Longrightarrow> value h' m' = value h m"
    and "copy m h = (m', h') \<Longrightarrow> refs h m \<subseteq> {..<lim h} \<Longrightarrow> refs h' m' \<subseteq> {lim h..<lim h'}"
  using assms unfolding copy_laws_def by blast+

section \<open>Places\<close>

text \<open>The laws of reading and writing through the pointers of one type; \<open>base\<close> is the address of the cell a pointer points into.\<close>

locale places =
  fixes rd :: "('o, 'l, 'x) memory \<Rightarrow> 'p \<Rightarrow> 'a"
    and wr :: "'p \<Rightarrow> 'a \<Rightarrow> ('o, 'l, 'x) memory \<Rightarrow> ('o, 'l, 'x) memory"
    and base :: "'p \<Rightarrow> nat"
    and inside :: "('o, 'l, 'x) memory \<Rightarrow> 'p \<Rightarrow> bool"
  assumes rd_wr: "inside h p \<Longrightarrow> rd (wr p v h) p = v"
    and wr_cell: "b \<noteq> base p \<Longrightarrow> cell (wr p v h) b = cell h b"
    and wr_lim: "lim (wr p v h) = lim h"
    and wr_wr: "wr p v (wr p u h) = wr p v h"
    and wr_rd: "wr p (rd h p) h = h"
    and wr_same: "cell h (base p) = cell h' (base p) \<Longrightarrow> cell (wr p v h) (base p) = cell (wr p v h') (base p)"
    and rd_same: "cell h (base p) = cell h' (base p) \<Longrightarrow> rd h p = rd h' p"
    and inside_same: "cell h (base p) = cell h' (base p) \<Longrightarrow> inside h p = inside h' p"
    and inside_wr: "inside (wr q v h) p = inside h p"
begin

text \<open>\<open>extends (wr p v h) h'\<close>: compared to \<open>h\<close>, the memory \<open>h'\<close> has \<open>v\<close> at the place \<open>p\<close> and is otherwise a later memory.\<close>

lemma written_wr: "extends (wr p v h) h1 \<Longrightarrow> extends (wr p u h1) h2 \<Longrightarrow> extends (wr p u h) h2"
proof -
  assume "extends (wr p v h) h1" "extends (wr p u h1) h2"
  then have lims: "lim h \<le> lim h1" "lim h1 \<le> lim h2"
    and cells: "\<And>a. a < lim h \<Longrightarrow> cell h1 a = cell (wr p v h) a" "\<And>a. a < lim h1 \<Longrightarrow> cell h2 a = cell (wr p u h1) a"
    by (auto simp: extends_def same_at_def wr_lim)
  have "cell (wr p u h) a = cell h2 a" if "a < lim h" for a
    using cells(1) [OF that] cells(2) [of a] lims(1) that wr_same [of h1 p "wr p v h" u] by (cases "a = base p") (auto simp: wr_cell wr_wr)
  then show "extends (wr p u h) h2"
    using lims by (auto simp: extends_def same_at_def wr_lim)
qed

lemma written_read:
  assumes "extends (wr p v h) h'" and "inside h p" and "base p < lim h"
  shows "rd h' p = v" "inside h' p"
  using assms rd_same [of h' p "wr p v h"] inside_same [of h' p "wr p v h"] extendsD(3) [OF assms(1), of "base p"]
  by (simp_all add: rd_wr wr_lim inside_wr)

lemma written_cell:
  assumes "extends (wr p v h) h'" and "a \<noteq> base p" and "a < lim h"
  shows "cell h' a = cell h a"
  using extendsD(3) [OF assms(1), of a] assms(2,3) by (simp add: wr_lim wr_cell)

lemma written_lim: "extends (wr p v h) h' \<Longrightarrow> lim h \<le> lim h'"
  using extendsD(1) wr_lim by metis

lemma written_other:
  assumes "extends (wr p v h) h'" and "base q \<noteq> base p" and "base q < lim h"
  shows "rd h' q = rd h q"
  by (rule rd_same) (rule written_cell [OF assms])

lemma written_same:
  assumes "extends (wr p v h) h'" and "A \<subseteq> {..<lim h} - {base p}"
  shows "same_at A h h'"
  unfolding same_at_def using written_cell [OF assms(1)] assms(2) by fastforce

end

interpretation cache_place: places read_cache put_cache cache_base cache_inside
proof (unfold_locales, goal_cases)
  case (1 h p v) then show ?case by (cases p) auto
next
  case (3 p v h) show ?case by simp
next
  case (4 p v u h) then show ?case by (cases p) auto
next
  case (5 p h) then show ?case by (cases p) auto
next
  case (6 h p h' v) then show ?case by (cases p) (auto simp: cell_def)
next
  case (7 h p h') then show ?case by (cases p) (auto simp: cell_def)
next
  case (8 h p h') then show ?case by (cases p) (auto simp: cell_def)
next
  case (9 q v h p) then show ?case by (cases p; cases q) auto
qed auto

interpretation driver_place: places read_driver put_driver driver_base driver_inside
proof (unfold_locales, goal_cases)
  case (1 h p v) then show ?case by (cases p) auto
next
  case (3 p v h) show ?case by simp
next
  case (4 p v u h) then show ?case by (cases p) auto
next
  case (5 p h) then show ?case by (cases p) auto
next
  case (6 h p h' v) then show ?case by (cases p) (auto simp: cell_def)
next
  case (7 h p h') then show ?case by (cases p) (auto simp: cell_def)
next
  case (8 h p h') then show ?case by (cases p) (auto simp: cell_def)
next
  case (9 q v h p) then show ?case by (cases p; cases q) auto
qed auto

interpretation spec_place: places read_spec put_spec spec_base spec_inside
proof (unfold_locales, goal_cases)
  case (1 h p v) then show ?case by (cases p) (auto simp: driver_place.rd_wr)
next
  case (4 p v u h)
  show ?case
  proof (cases p)
    case (SpecField q)
    show ?thesis
      by (cases "driver_inside h q"; cases q) (simp_all add: SpecField driver_place.rd_wr driver_place.wr_wr list_update_beyond)
  qed simp
next
  case (5 p h) then show ?case by (cases p) (auto simp: driver_place.wr_rd)
next
  case (6 h p h' v)
  then show ?case
    by (cases p) (auto simp: cell_def [where a = "spec_base p"] driver_place.rd_same [of h _ h'] intro!: driver_place.wr_same, simp add: cell_def)
next
  case (7 h p h') then show ?case by (cases p) (auto simp: driver_place.rd_same [of h _ h'], simp add: cell_def)
next
  case (8 h p h') then show ?case by (cases p) (auto simp: driver_place.inside_same [of h _ h'])
next
  case (9 q v h p)
  have [simp]: "driver_inside (h\<lparr>driverSpecs := f\<rparr>) r = driver_inside h r" for f r by (cases r) simp_all
  show ?case by (cases p; cases q) (simp_all add: driver_place.inside_wr)
qed auto

text \<open>A new cell is at the old limit, and the memory before is as it was.\<close>

lemma new_eq: "new put v h = (b, h') \<longleftrightarrow> b = lim h \<and> h' = put (lim h) v (h\<lparr>lim := Suc (lim h)\<rparr>)"
  by (auto simp: new_def)

lemma new_extends:
  assumes "\<And>b g. b \<noteq> lim h \<Longrightarrow> cell (put (lim h) v g) b = cell g b" "\<And>g. lim (put (lim h) v g) = lim g"
  shows "extends h (put (lim h) v (h\<lparr>lim := Suc (lim h)\<rparr>))"
  using assms by (auto simp: extends_def same_at_def)

section \<open>Copies through pointers\<close>

text \<open>
  A \<^verbatim>\<open>DeepCopyInto\<close> for the places of a type: the target, which is another place, gets the value of the source, refers to new memory only,
  and nothing else changes.
\<close>

locale copier = places rd wr base inside
  for rd :: "('o, 'l, 'x) memory \<Rightarrow> 'p \<Rightarrow> 'a" and wr base inside +
  fixes into :: "'p \<Rightarrow> 'p \<Rightarrow> ('o, 'l, 'x) memory \<Rightarrow> ('o, 'l, 'x) memory"
    and value_of :: "('o, 'l, 'x) memory \<Rightarrow> 'a \<Rightarrow> 'v"
    and refs :: "('o, 'l, 'x) memory \<Rightarrow> 'a \<Rightarrow> nat set"
  assumes framed: "framed value_of refs"
    and into: "base i \<noteq> base out \<Longrightarrow> base i < lim h \<Longrightarrow> base out < lim h \<Longrightarrow> inside h out \<Longrightarrow>
      refs h (rd h i) \<subseteq> {..<lim h} - {base out} \<Longrightarrow> h' = into i out h \<Longrightarrow>
      extends (wr out (rd h' out) h) h' \<and> value_of h' (rd h' out) = value_of h (rd h i) \<and>
      refs h' (rd h' out) \<subseteq> {lim h..<lim h'}"
begin

text \<open>The \<^verbatim>\<open>DeepCopy\<close> of the generated code: a new cell, and a copy into it.\<close>

lemma clone:
  assumes ptr: "\<And>a. base (ptr a) = a" "\<And>h a. inside h (ptr a)"
    and copy: "\<And>p h. DeepCopy p h = (case p of None \<Rightarrow> (None, h) | Some i \<Rightarrow>
      let (out, h) = new (\<lambda>a. wr (ptr a)) z h in (Some out, into (ptr i) (ptr out) h))"
  shows "deep_copies DeepCopy (\<lambda>h a. value_of h (rd h (ptr a))) (\<lambda>h a. refs h (rd h (ptr a)))"
  unfolding deep_copies_def
proof (intro conjI allI impI)
  show "DeepCopy None h = (None, h)" for h by (simp add: copy)
  fix a h
  assume old: "insert a (refs h (rd h (ptr a))) \<subseteq> {..<lim h}"
  define h1 where "h1 = wr (ptr (lim h)) z (h\<lparr>lim := Suc (lim h)\<rparr>)"
  define h' where "h' = into (ptr a) (ptr (lim h)) h1"
  have ext: "extends h h1" unfolding h1_def
    by (rule new_extends [of h "\<lambda>a. wr (ptr a)" z]) (simp_all add: ptr wr_cell wr_lim)
  have lim1: "lim h1 = Suc (lim h)" by (simp add: h1_def wr_lim)
  have read: "rd h1 (ptr a) = rd h (ptr a)"
    using old extendsD(3) [OF ext, of a] by (intro rd_same) (simp add: ptr)
  have same: "value_of h1 (rd h (ptr a)) = value_of h (rd h (ptr a))" "refs h1 (rd h (ptr a)) = refs h (rd h (ptr a))"
    using framedD [OF framed extendsD(2) [OF ext]] old by auto
  have "refs h1 (rd h1 (ptr a)) \<subseteq> {..<lim h1} - {base (ptr (lim h))}"
    using old by (auto simp: read same lim1 ptr)
  then have new: "extends (wr (ptr (lim h)) (rd h' (ptr (lim h))) h1) h'"
      "value_of h' (rd h' (ptr (lim h))) = value_of h (rd h (ptr a))"
      "refs h' (rd h' (ptr (lim h))) \<subseteq> {lim h1..<lim h'}"
    using into [of "ptr a" "ptr (lim h)" h1 h'] old by (auto simp: ptr lim1 h'_def read same)
  have le: "lim h1 \<le> lim h'" by (rule written_lim [OF new(1)])
  have "cell h' b = cell h b" if "b < lim h" for b
    using that written_cell [OF new(1), of b] extendsD(3) [OF ext that] by (simp add: ptr lim1)
  then have ext': "extends h h'" using le by (auto simp: extends_def same_at_def lim1)
  have sub: "insert (lim h) (refs h' (rd h' (ptr (lim h)))) \<subseteq> {lim h..<lim h'}"
    using new(3) le by (auto simp: lim1)
  have "value_of h2 (rd h2 (ptr (lim h))) = value_of h (rd h (ptr a))" if "same_at {lim h..<lim h'} h' h2" for h2
  proof -
    have "rd h2 (ptr (lim h)) = rd h' (ptr (lim h))"
      using that sub by (intro rd_same) (simp add: ptr same_at_def)
    then show ?thesis using framedD [OF framed same_at_mono [OF that]] sub new(2) by auto
  qed
  moreover have "DeepCopy (Some a) h = (Some (lim h), h')" by (simp add: copy new_def h1_def h'_def)
  ultimately show "\<exists>b h'. DeepCopy (Some a) h = (Some b, h') \<and> extends h h' \<and>
      insert b (refs h' (rd h' (ptr b))) \<subseteq> {lim h..<lim h'} \<and> value_of h' (rd h' (ptr b)) = value_of h (rd h (ptr a)) \<and>
      (\<forall>h2. same_at {lim h..<lim h'} h' h2 \<longrightarrow> value_of h2 (rd h2 (ptr b)) = value_of h (rd h (ptr a)))"
    using ext' sub new(2) by blast
qed

end

section \<open>Values and references\<close>

definition map_value :: "('o, 'l, 'x) memory \<Rightarrow> nat option \<Rightarrow> (string \<rightharpoonup> string) option" where
  "map_value h r = map_option (\<lambda>a. DAList.lookup (maps h a)) r"

definition spec_value where
  "spec_value h s = \<lparr>SLogLevel = SLogLevel s, SNodeSelector = map_value h (SNodeSelector s), SLabels = map_value h (SLabels s),
     SBuildArgs = map_value h (SBuildArgs s), SDriverConfig = SDriverConfig s\<rparr>"

definition spec_refs where
  "spec_refs s = set_option (SNodeSelector s) \<union> set_option (SLabels s) \<union> set_option (SBuildArgs s)"

lemma map_value_same: "same_at (set_option r) h h' \<Longrightarrow> map_value h' r = map_value h r"
  by (cases r) (auto simp: map_value_def dest: same_atD(1))

lemma spec_framed: "framed spec_value (\<lambda>h. spec_refs)"
  unfolding framed_def spec_value_def spec_refs_def
  by (auto intro!: map_value_same elim!: same_at_mono)

section \<open>The specification of a driver instance\<close>

lemma copy_entries_put:
  "copy_entries out es (put_map out m h) = put_map out (fold (\<lambda>(k, v). DAList.update k v) es m) h"
proof (induction es arbitrary: m)
  case (Cons e es)
  have "put_map out m2 (put_map out m h) = put_map out m2 h" "maps (put_map out m h) out = m" for m2
    by (simp_all add: put_map_def)
  then show ?case using Cons.IH by (cases e) simp
qed simp

lemma lookup_fold_update:
  "DAList.lookup (fold (\<lambda>(k, v). DAList.update k v) es m) = DAList.lookup m ++ map_of (rev es)"
  by (induction es arbitrary: m) (auto simp: DAList.lookup_update map_add_def fun_eq_iff split: option.splits)

lemma lookup_copied:
  "DAList.lookup (fold (\<lambda>(k, v). DAList.update k v) (DAList.impl_of m) DAList.empty) = DAList.lookup m"
proof -
  have "map_of (rev (DAList.impl_of m)) = map_of (DAList.impl_of m)"
    by (subst map_of_inject_set) (simp_all add: rev_map [symmetric])
  then show ?thesis unfolding lookup_fold_update by (simp add: DAList.lookup.rep_eq DAList.empty.rep_eq)
qed

lemma copy_entries_eq: "copy_entries out es h = put_map out (fold (\<lambda>(k, v). DAList.update k v) es (maps h out)) h"
  using copy_entries_put [of out es "maps h out" h] by (simp add: put_map_def)

lemma put_spec_maps [simp]: "maps (put_spec p s h) = maps h"
proof (cases p)
  case (SpecField q) then show ?thesis by (cases q) simp_all
qed simp

lemma map_field_copied:
  assumes bases: "spec_base i \<noteq> spec_base out" "spec_base i < lim h" "spec_base out < lim h"
    and source: "set_option (get (read_spec h i)) \<subseteq> {..<lim h}"
    and none: "get (read_spec h i) = None \<Longrightarrow> upd None (read_spec h out) = read_spec h out"
    and run: "h' = copy_map_field get upd i out h"
  shows "\<exists>r. extends (put_spec out (upd r (read_spec h out)) h) h' \<and>
    map_value h' r = map_value h (get (read_spec h i)) \<and> set_option r \<subseteq> {lim h..<lim h'}"
proof (cases "get (read_spec h i)")
  case None
  then show ?thesis using run none by (intro exI [of _ None]) (simp add: copy_map_field_def spec_place.wr_rd map_value_def)
next
  case (Some m)
  define h1 where "h1 = put_map (lim h) DAList.empty (h\<lparr>lim := Suc (lim h)\<rparr>)"
  define s where "s = upd (Some (lim h)) (read_spec h out)"
  define c where "c = fold (\<lambda>(k, v). DAList.update k v) (DAList.impl_of (maps h m)) DAList.empty"
  have old: "cell h1 a = cell h a" if "a < lim h" for a using that by (simp add: h1_def)
  have m: "m < lim h" using source Some by simp
  have "read_spec h1 out = read_spec h out" by (rule spec_place.rd_same) (rule old [OF bases(3)])
  moreover have "maps h1 m = maps h m" "maps h1 (lim h) = DAList.empty" using m by (simp_all add: h1_def put_map_def)
  ultimately have h': "h' = put_map (lim h) c (put_spec out s h1)"
    using Some by (simp add: run copy_map_field_def new_def h1_def [symmetric] s_def copy_entries_eq c_def)
  have "cell (put_spec out s h1) a = cell (put_spec out s h) a" if "a < lim h" for a
    using that old spec_place.wr_same [OF old [OF bases(3)], of s] by (cases "a = spec_base out") auto
  then have "extends (put_spec out s h) h'"
    by (simp add: extends_def same_at_def h' h1_def)
  moreover have "map_value h' (Some (lim h)) = map_value h (get (read_spec h i))"
    by (simp add: map_value_def Some h' put_map_def c_def lookup_copied)
  moreover have "lim h' = Suc (lim h)" by (simp add: h' h1_def)
  ultimately show ?thesis unfolding s_def by (intro exI [of _ "Some (lim h)"]) simp
qed

lemma map_field_step:
  assumes bases: "spec_base i \<noteq> spec_base out" "spec_base i < lim h" "spec_base out < lim h" "spec_inside h out"
    and so_far: "extends (put_spec out t h) g"
    and source: "set_option (get (read_spec h i)) \<subseteq> {..<lim h} - {spec_base out}"
    and none: "get (read_spec h i) = None \<longrightarrow> upd None t = t"
  shows "\<exists>g' r. g' = copy_map_field get upd i out g \<and> extends (put_spec out (upd r t) h) g' \<and> lim g \<le> lim g' \<and>
    map_value g' r = map_value h (get (read_spec h i)) \<and> set_option r \<subseteq> {lim h..<lim g'} \<and>
    (\<forall>q. set_option q \<subseteq> {lim h..<lim g} \<longrightarrow> map_value g' q = map_value g q)"
proof -
  note lim = spec_place.written_lim [OF so_far]
  have reads: "read_spec g i = read_spec h i" "read_spec g out = t"
    using spec_place.written_other [OF so_far bases(1,2)] spec_place.written_read(1) [OF so_far bases(4,3)] by simp_all
  have "map_value g (get (read_spec h i)) = map_value h (get (read_spec h i))"
    by (rule map_value_same) (rule spec_place.written_same [OF so_far source])
  then obtain r where r: "extends (put_spec out (upd r t) g) (copy_map_field get upd i out g)"
      "map_value (copy_map_field get upd i out g) r = map_value h (get (read_spec h i))"
      "set_option r \<subseteq> {lim g..<lim (copy_map_field get upd i out g)}"
    using map_field_copied [of i out g get upd] bases source none reads lim by force
  have "map_value (copy_map_field get upd i out g) q = map_value g q" if "set_option q \<subseteq> {lim h..<lim g}" for q
    using that bases(3) by (intro map_value_same spec_place.written_same [OF r(1)]) auto
  moreover have "set_option r \<subseteq> {lim h..<lim (copy_map_field get upd i out g)}" using r(3) lim by auto
  ultimately show ?thesis
    using r(2) spec_place.written_wr [OF so_far r(1)] spec_place.written_lim [OF r(1)] by blast
qed

interpretation spec_copy: copier read_spec put_spec spec_base spec_inside DriverInstanceSpec_DeepCopyInto spec_value "\<lambda>h. spec_refs"
proof (unfold_locales, goal_cases)
  case 1 show ?case by (rule spec_framed)
next
  case (2 i out h h')
  define s where "s = read_spec h i"
  note step = map_field_step [OF 2(1-4), folded s_def]
  have refs: "set_option (SNodeSelector s) \<subseteq> {..<lim h} - {spec_base out}" "set_option (SLabels s) \<subseteq> {..<lim h} - {spec_base out}"
      "set_option (SBuildArgs s) \<subseteq> {..<lim h} - {spec_base out}"
    using 2(5) by (auto simp: s_def spec_refs_def)
  obtain h2 n where n: "h2 = copy_map_field SNodeSelector (\<lambda>r. SNodeSelector_update (\<lambda>_. r)) i out (put_spec out s h)"
      "extends (put_spec out (s\<lparr>SNodeSelector := n\<rparr>) h) h2" "map_value h2 n = map_value h (SNodeSelector s)"
      "set_option n \<subseteq> {lim h..<lim h2}" "lim h \<le> lim h2"
    using step [of s "put_spec out s h" SNodeSelector "\<lambda>r. SNodeSelector_update (\<lambda>_. r)"] refs(1) by force
  obtain h3 l where l: "h3 = copy_map_field SLabels (\<lambda>r. SLabels_update (\<lambda>_. r)) i out h2"
      "extends (put_spec out (s\<lparr>SNodeSelector := n, SLabels := l\<rparr>) h) h3" "lim h2 \<le> lim h3" "map_value h3 l = map_value h (SLabels s)"
      "set_option l \<subseteq> {lim h..<lim h3}" "\<forall>q. set_option q \<subseteq> {lim h..<lim h2} \<longrightarrow> map_value h3 q = map_value h2 q"
    using step [OF n(2), of SLabels "\<lambda>r. SLabels_update (\<lambda>_. r)"] refs(2) by force
  have none: "SBuildArgs s = None \<longrightarrow> s\<lparr>SNodeSelector := n, SLabels := l, SBuildArgs := None\<rparr> = s\<lparr>SNodeSelector := n, SLabels := l\<rparr>"
    by (cases s) simp
  obtain h4 b where b: "h4 = copy_map_field SBuildArgs (\<lambda>r. SBuildArgs_update (\<lambda>_. r)) i out h3"
      "extends (put_spec out (s\<lparr>SNodeSelector := n, SLabels := l, SBuildArgs := b\<rparr>) h) h4" "lim h3 \<le> lim h4" "map_value h4 b = map_value h (SBuildArgs s)"
      "set_option b \<subseteq> {lim h..<lim h4}" "\<forall>q. set_option q \<subseteq> {lim h..<lim h3} \<longrightarrow> map_value h4 q = map_value h3 q"
    using step [OF l(2), of SBuildArgs "\<lambda>r. SBuildArgs_update (\<lambda>_. r)", OF refs(3) none] by (elim exE conjE) (rule that)
  have sub: "set_option n \<subseteq> {lim h..<lim h3}" using n(4) l(3) by auto
  have keep: "map_value h4 n = map_value h2 n" "map_value h4 l = map_value h3 l"
    using l(5,6) b(6) n(4) sub by simp_all
  define s' where "s' = s\<lparr>SNodeSelector := n, SLabels := l, SBuildArgs := b\<rparr>"
  note e4 = b(2) [folded s'_def]
  have "read_spec h4 i = s" "read_spec h4 out = s'"
    using spec_place.written_other [OF e4 2(1,2)] spec_place.written_read(1) [OF e4 2(4,3)] by (simp_all add: s_def)
  then have "h' = put_spec out s' h4"
    using 2(6) by (simp add: DriverInstanceSpec_DeepCopyInto_def Let_def s_def [symmetric] n(1) [symmetric] l(1) [symmetric] b(1) [symmetric])
      (simp add: s'_def)
  moreover have "put_spec out s' h4 = h4" using spec_place.wr_rd [of out h4] \<open>read_spec h4 out = s'\<close> by simp
  ultimately have h': "h' = h4" by simp
  have "spec_value h4 s' = spec_value h s"
    by (simp add: spec_value_def s'_def n(3) l(4) b(4) keep)
  moreover have "spec_refs s' \<subseteq> {lim h..<lim h4}"
    using sub l(5) b(3,5) by (auto simp: spec_refs_def s'_def)
  ultimately show ?case
    using e4 \<open>read_spec h4 out = s'\<close> by (simp add: h' s_def)
qed

section \<open>Types without references\<close>

context places
begin

lemma assigned: "copier rd wr base inside (\<lambda>i out h. wr out (rd h i) h) (\<lambda>h v. v) (\<lambda>h v. {})"
proof (unfold_locales, goal_cases)
  case 1 show ?case by (simp add: framed_def)
next
  case (2 i out h h')
  then show ?case by (simp add: rd_wr)
qed

end

interpretation cacheSpec_place: places cacheSpecs put_cacheSpec "\<lambda>a. a" "\<lambda>h a. True"
  by unfold_locales (auto simp: put_cacheSpec_def cell_def)

interpretation cacheStatus_place: places cacheStatuses put_cacheStatus "\<lambda>a. a" "\<lambda>h a. True"
  by unfold_locales (auto simp: put_cacheStatus_def cell_def)

interpretation driverConf_place: places driverConfs put_driverConf "\<lambda>a. a" "\<lambda>h a. True"
  by unfold_locales (auto simp: put_driverConf_def cell_def)

lemma unit_upd [simp]: "(f :: nat \<Rightarrow> unit)(p := u) = f"
  by (rule ext) simp

interpretation driverStatus_place: places driverStatuses put_driverStatus "\<lambda>a. a" "\<lambda>h a. True"
  by unfold_locales (auto simp: put_driverStatus_def cell_def)

interpretation cacheList_place: places cacheLists put_cacheList "\<lambda>a. a" "\<lambda>h a. True"
  by unfold_locales (auto simp: put_cacheList_def cell_def)

interpretation driverList_place: places driverLists put_driverList "\<lambda>a. a" "\<lambda>h a. True"
  by unfold_locales (auto simp: put_driverList_def cell_def)

section \<open>Caches and driver instances\<close>

definition cache_value where
  "cache_value ov h c = \<lparr>CacheType = CacheType c, CacheObjectMeta = ov h (CacheObjectMeta c),
     CacheSpecOf = CacheSpecOf c, CacheStatusField = CacheStatusField c\<rparr>"

definition cache_refs where
  "cache_refs rs h c = rs h (CacheObjectMeta c)"

definition driver_value where
  "driver_value ov h d = \<lparr>DriverType = DriverType d, DriverObjectMeta = ov h (DriverObjectMeta d),
     DriverSpecOf = spec_value h (DriverSpecOf d), DriverStatusOf = DriverStatusOf d\<rparr>"

definition driver_refs where
  "driver_refs rs h d = rs h (DriverObjectMeta d) \<union> spec_refs (DriverSpecOf d)"

lemma cache_framed: "framed ov rs \<Longrightarrow> framed (cache_value ov) (cache_refs rs)"
  by (auto simp: framed_def cache_value_def cache_refs_def)

lemma driver_framed:
  assumes "framed ov rs"
  shows "framed (driver_value ov) (driver_refs rs)"
  unfolding framed_def driver_value_def driver_refs_def
proof (intro allI impI)
  fix h h' :: "('a, 'b, 'c) memory" and d
  assume "same_at (rs h (DriverObjectMeta d) \<union> spec_refs (DriverSpecOf d)) h h'"
  then have "same_at (rs h (DriverObjectMeta d)) h h'" "same_at (spec_refs (DriverSpecOf d)) h h'"
    by (auto elim: same_at_mono)
  then show "\<lparr>DriverType = DriverType d, DriverObjectMeta = ov h' (DriverObjectMeta d), DriverSpecOf = spec_value h' (DriverSpecOf d),
        DriverStatusOf = DriverStatusOf d\<rparr> = \<lparr>DriverType = DriverType d, DriverObjectMeta = ov h (DriverObjectMeta d),
        DriverSpecOf = spec_value h (DriverSpecOf d), DriverStatusOf = DriverStatusOf d\<rparr> \<and>
      rs h' (DriverObjectMeta d) \<union> spec_refs (DriverSpecOf d) = rs h (DriverObjectMeta d) \<union> spec_refs (DriverSpecOf d)"
    using framedD [OF assms] framedD [OF spec_framed] by simp
qed

text \<open>
  The step that both share: the metadata \<open>m\<close> of the source, which is not at the target, is copied after the target has been written. The target
  is then given the copy.
\<close>

context places
begin

lemma metadata_copied:
  assumes laws: "copy_laws copy ov rs" and place: "inside h out" "base out < lim h"
    and refs: "rs h m \<subseteq> {..<lim h} - {base out}" and run: "copy m (wr out v h) = (m', g)"
  shows "extends (wr out u h) (wr out u g)" "ov (wr out u g) m' = ov h m" "rs (wr out u g) m' \<subseteq> {lim h..<lim g}"
    "rd (wr out u g) out = u" "rd g out = v" "base i \<noteq> base out \<Longrightarrow> base i < lim h \<Longrightarrow> rd g i = rd h i"
proof -
  have "same_at (rs h m) h (wr out v h)" using refs by (auto simp: same_at_def intro!: wr_cell [symmetric])
  then have same: "ov (wr out v h) m = ov h m" "rs (wr out v h) m = rs h m" using framedD [OF copy_lawsD(1) [OF laws]] by blast+
  then have old: "rs (wr out v h) m \<subseteq> {..<lim (wr out v h)}" using refs by (auto simp: wr_lim)
  note ext = copy_lawsD(2) [OF laws run old]
  show "rd g out = v" by (rule written_read(1) [OF ext place])
  show "rd (wr out u g) out = u" by (rule rd_wr) (rule written_read(2) [OF ext place])
  show "base i \<noteq> base out \<Longrightarrow> base i < lim h \<Longrightarrow> rd g i = rd h i" by (rule written_other [OF ext])
  show "extends (wr out u h) (wr out u g)" by (rule written_wr [OF ext]) simp
  have fresh: "rs g m' \<subseteq> {lim h..<lim g}" using copy_lawsD(4) [OF laws run old] by (simp add: wr_lim)
  then have "same_at (rs g m') g (wr out u g)" using place(2) by (auto simp: same_at_def intro!: wr_cell [symmetric])
  then have "ov (wr out u g) m' = ov g m'" "rs (wr out u g) m' = rs g m'" using framedD [OF copy_lawsD(1) [OF laws]] by blast+
  then show "ov (wr out u g) m' = ov h m" "rs (wr out u g) m' \<subseteq> {lim h..<lim g}"
    using copy_lawsD(3) [OF laws run old] same fresh by simp_all
qed

end

text \<open>The types of apimachinery.\<close>

locale apimachinery =
  fixes om :: "('o, ('o, 'l, 'x) memory) meta_ops" and ovalue :: "('o, 'l, 'x) memory \<Rightarrow> 'o \<Rightarrow> 'ov" and orefs
    and lm :: "('l, ('o, 'l, 'x) memory) meta_ops" and lvalue :: "('o, 'l, 'x) memory \<Rightarrow> 'l \<Rightarrow> 'lv" and lrefs
  assumes object_meta: "copy_laws (MetaCopy om) ovalue orefs"
    and list_meta: "copy_laws (MetaCopy lm) lvalue lrefs"

sublocale apimachinery \<subseteq> cache: copier read_cache put_cache cache_base cache_inside "Cache_DeepCopyInto om"
  "cache_value ovalue" "cache_refs orefs"
proof (unfold_locales, goal_cases)
  case 1 show ?case by (rule cache_framed) (rule copy_lawsD(1) [OF object_meta])
next
  case (2 i out h h')
  define c where "c = read_cache h i"
  obtain m g where run: "MetaCopy om (CacheObjectMeta c) (put_cache out c h) = (m, g)" by (cases "MetaCopy om (CacheObjectMeta c) (put_cache out c h)")
  note meta = cache_place.metadata_copied [OF object_meta 2(4,3) 2(5) [folded c_def, unfolded cache_refs_def] run]
  have first: "read_cache (put_cache out c h) out = c" "read_cache (put_cache out c h) i = c"
    using cache_place.rd_wr [OF 2(4)] cache_place.written_other [OF extends_refl 2(1,2)] by (simp_all add: c_def)
  define c' where "c' = c\<lparr>CacheObjectMeta := m\<rparr>"
  have other: "read_cache (put_cache out c' g) i = c"
    using meta(6) [OF 2(1,2)] 2(1) by (subst cache_place.rd_same [of _ i g]) (simp_all add: c_def)
  have "h' = put_cache out c' g"
    using 2(6) run other meta(4) [of c'] meta(5)
    by (simp add: Cache_DeepCopyInto_def Let_def c_def [symmetric] first cache_place.wr_wr c'_def)
  then show ?case
    using meta(1-4) [of c'] by (simp add: cache_value_def cache_refs_def c_def [symmetric] c'_def)
qed

sublocale apimachinery \<subseteq> driver: copier read_driver put_driver driver_base driver_inside "DriverInstance_DeepCopyInto om"
  "driver_value ovalue" "driver_refs orefs"
proof (unfold_locales, goal_cases)
  case 1 show ?case by (rule driver_framed) (rule copy_lawsD(1) [OF object_meta])
next
  case (2 i out h h')
  define d where "d = read_driver h i"
  have refs: "orefs h (DriverObjectMeta d) \<subseteq> {..<lim h} - {driver_base out}" "spec_refs (DriverSpecOf d) \<subseteq> {..<lim h} - {driver_base out}"
    using 2(5) by (auto simp: driver_refs_def d_def)
  obtain m g where run: "MetaCopy om (DriverObjectMeta d) (put_driver out d h) = (m, g)"
    by (cases "MetaCopy om (DriverObjectMeta d) (put_driver out d h)")
  note meta = driver_place.metadata_copied [OF object_meta 2(4,3) refs(1) run]
  define d1 where "d1 = d\<lparr>DriverObjectMeta := m\<rparr>"
  define g1 where "g1 = put_driver out d1 g"
  define g2 where "g2 = DriverInstanceSpec_DeepCopyInto (SpecField i) (SpecField out) g1"
  define s where "s = read_spec g2 (SpecField out)"
  define d2 where "d2 = d1\<lparr>DriverSpecOf := s\<rparr>"
  note ext1 = meta(1) [of d1, folded g1_def]
  note lim1 = driver_place.written_lim [OF ext1]
  have read1: "read_driver g1 i = d" "read_driver g1 out = d1" "driver_inside g1 out"
    using driver_place.written_other [OF ext1 2(1,2)] driver_place.written_read [OF ext1 2(4,3)] by (simp_all add: d_def)
  have "spec_refs (DriverSpecOf d) \<subseteq> {..<lim g1} - {driver_base out}" using refs(2) lim1 by fastforce
  then have spec: "extends (put_spec (SpecField out) s g1) g2" "spec_value g2 s = spec_value g1 (DriverSpecOf d)" "spec_refs s \<subseteq> {lim g1..<lim g2}"
    using spec_copy.into [of "SpecField i" "SpecField out" g1 g2] 2(1-3) read1 lim1 by (simp_all add: g2_def s_def)
  then have ext2: "extends (put_driver out d2 h) g2" "extends (put_driver out d2 g1) g2"
    using driver_place.written_wr [OF ext1, of d2 g2] by (simp_all add: read1 d2_def)
  have read2: "read_driver g2 i = d" "read_driver g2 out = d2"
    using driver_place.written_other [OF ext2(1) 2(1,2)] driver_place.written_read [OF ext2(1) 2(4,3)] by (simp_all add: d_def)
  have first: "read_driver (put_driver out d h) out = d" "read_driver (put_driver out d h) i = d"
    using driver_place.rd_wr [OF 2(4)] driver_place.written_other [OF extends_refl 2(1,2)] by (simp_all add: d_def)
  have same: "d2\<lparr>DriverStatusOf := ()\<rparr> = d2" "put_driver out d2 g2 = g2"
    using driver_place.wr_rd [of out g2] read2 by (cases d2, simp_all)
  have "h' = put_driver out (d2\<lparr>DriverStatusOf := ()\<rparr>) g2"
    using 2(6) run read2 meta(5)
    by (simp add: DriverInstance_DeepCopyInto_def Let_def d_def [symmetric] first driver_place.wr_wr d1_def [symmetric] g1_def [symmetric] g2_def [symmetric])
  then have h': "h' = g2" unfolding same .
  have old: "spec_value g1 (DriverSpecOf d) = spec_value h (DriverSpecOf d)"
    using framedD [OF spec_framed driver_place.written_same [OF ext1 refs(2)]] by simp
  have "same_at (orefs g1 m) g1 g2"
    using meta(3) [of d1, folded g1_def] 2(3) lim1 driver_place.written_lim [OF meta(1) [of d1]]
    by (intro driver_place.written_same [OF ext2(2)]) (auto simp: g1_def)
  then have "ovalue g2 m = ovalue h (DriverObjectMeta d)" "orefs g2 m \<subseteq> {lim h..<lim g2}"
    using framedD [OF copy_lawsD(1) [OF object_meta]] meta(2,3) [of d1, folded g1_def] driver_place.written_lim [OF ext2(2)]
    by (fastforce simp: g1_def)+
  then show ?case
    using ext2(1) spec(2,3) old read2 lim1
    by (auto simp: h' d_def [symmetric] driver_value_def driver_refs_def d2_def d1_def)
qed

section \<open>Lists\<close>

text \<open>A type whose places are also the elements of arrays.\<close>

locale array_copier = copier rd wr base inside into value_of refs
  for rd :: "('o, 'l, 'x) memory \<Rightarrow> 'p \<Rightarrow> 'a" and wr base inside into
    and value_of :: "('o, 'l, 'x) memory \<Rightarrow> 'a \<Rightarrow> 'v" and refs +
  fixes arr :: "('o, 'l, 'x) memory \<Rightarrow> nat \<Rightarrow> 'a list"
    and put_arr :: "nat \<Rightarrow> 'a list \<Rightarrow> ('o, 'l, 'x) memory \<Rightarrow> ('o, 'l, 'x) memory"
    and elem :: "nat \<Rightarrow> nat \<Rightarrow> 'p"
  assumes elem: "base (elem a k) = a" "inside h (elem a k) = (k < length (arr h a))" "rd h (elem a k) = arr h a ! k"
    "arr (wr (elem a k) v h) a = (arr h a)[k := v]"
    and arr_same: "cell h a = cell h' a \<Longrightarrow> arr h a = arr h' a"
    and put_arr: "arr (put_arr a vs h) a = vs" "b \<noteq> a \<Longrightarrow> cell (put_arr a vs h) b = cell h b" "lim (put_arr a vs h) = lim h"
begin

lemma elements:
  assumes "a \<noteq> b" "a < lim h" "b < lim h" "length (arr h b) = length (arr h a)"
    and "\<And>c. c \<in> set (arr h a) \<Longrightarrow> refs h c \<subseteq> {..<lim h} - {b}"
  shows "n \<le> length (arr h a) \<Longrightarrow> h' = fold (\<lambda>k. into (elem a k) (elem b k)) [0..<n] h \<Longrightarrow>
    lim h \<le> lim h' \<and> same_at ({..<lim h} - {b}) h h' \<and> length (arr h' b) = length (arr h a) \<and>
    (\<forall>j<n. value_of h' (arr h' b ! j) = value_of h (arr h a ! j) \<and> refs h' (arr h' b ! j) \<subseteq> {lim h..<lim h'})"
proof (induction n arbitrary: h')
  case 0
  then show ?case using assms(4) by simp
next
  case (Suc n)
  define g where "g = fold (\<lambda>k. into (elem a k) (elem b k)) [0..<n] h"
  have IH: "lim h \<le> lim g" "same_at ({..<lim h} - {b}) h g" "length (arr g b) = length (arr h a)"
      "\<And>j. j < n \<Longrightarrow> value_of g (arr g b ! j) = value_of h (arr h a ! j) \<and> refs g (arr g b ! j) \<subseteq> {lim h..<lim g}"
    using Suc.IH [of g] Suc.prems(1) by (simp_all add: g_def)
  have n: "n < length (arr h a)" using Suc.prems(1) by simp
  have h': "h' = into (elem a n) (elem b n) g" using Suc.prems(2) by (simp add: g_def)
  have a: "arr g a = arr h a" using IH(2) assms(1,2) by (intro arr_same) (simp add: same_at_def)
  have old: "same_at (refs h (arr h a ! n)) h g" using assms(5) [of "arr h a ! n"] n by (intro same_at_mono [OF IH(2)]) simp
  note source = framedD [OF framed old]
  define v where "v = rd h' (elem b n)"
  have "refs h (arr h a ! n) \<subseteq> {..<lim g} - {b}" using assms(5) [of "arr h a ! n"] n IH(1) by fastforce
  then have step: "extends (wr (elem b n) v g) h'" "value_of h' v = value_of h (arr h a ! n)" "refs h' v \<subseteq> {lim g..<lim h'}"
    using into [of "elem a n" "elem b n" g h'] assms(1-3) IH(1,3) n source
    by (simp_all add: elem a h' v_def)
  note lim = written_lim [OF step(1)]
  have b: "arr h' b = (arr g b)[n := v]"
    using extendsD(3) [OF step(1), of b] assms(3) IH(1) by (subst arr_same [of h' b "wr (elem b n) v g"]) (simp_all add: wr_lim elem)
  have same: "same_at ({..<lim g} - {b}) g h'"
    by (rule written_same [OF step(1)]) (simp add: elem)
  then have "same_at ({..<lim h} - {b}) g h'" using IH(1) by (auto elim: same_at_mono)
  then have kept: "same_at ({..<lim h} - {b}) h h'" by (rule same_at_trans [OF IH(2)])
  have "value_of h' (arr h' b ! j) = value_of h (arr h a ! j) \<and> refs h' (arr h' b ! j) \<subseteq> {lim h..<lim h'}" if "j < Suc n" for j
  proof (cases "j = n")
    case True
    then show ?thesis using step(2,3) IH(1,3) n by (auto simp: b)
  next
    case False
    then have j: "j < n" using that by simp
    have "same_at (refs g (arr g b ! j)) g h'"
      using IH(4) [OF j] assms(3) by (intro same_at_mono [OF same]) auto
    then show ?thesis using framedD [OF framed] IH(4) [OF j] False lim by (fastforce simp: b)
  qed
  then show ?case using lim IH(1,3) kept by (simp add: b)
qed

lemma array_copied:
  assumes "a \<noteq> b" "a < lim h" "b < lim h" "length (arr h b) = length (arr h a)"
    and "\<And>c. c \<in> set (arr h a) \<Longrightarrow> refs h c \<subseteq> {..<lim h} - {b}"
    and "h' = fold (\<lambda>k. into (elem a k) (elem b k)) [0..<length (arr h a)] h"
  shows "lim h \<le> lim h'" "same_at ({..<lim h} - {b}) h h'" "map (value_of h') (arr h' b) = map (value_of h) (arr h a)"
    "c \<in> set (arr h' b) \<Longrightarrow> refs h' c \<subseteq> {lim h..<lim h'}"
  using elements [OF assms(1-5) le_refl assms(6)] by (auto intro: nth_equalityI simp: in_set_conv_nth)

end

definition list_value where
  "list_value lv arr val h l = \<lparr>ListType = ListType l, ListMetaOf = lv h (ListMetaOf l),
     Items = map_option (\<lambda>a. map (val h) (arr h a)) (Items l)\<rparr>"

definition list_refs where
  "list_refs lr arr refs h l =
     lr h (ListMetaOf l) \<union> (case Items l of None \<Rightarrow> {} | Some a \<Rightarrow> insert a (\<Union>c\<in>set (arr h a). refs h c))"

text \<open>A list over such an array. The copy has to make a new array and to copy into each element.\<close>

locale list_copier = array_copier rd wr base inside into value_of refs arr put_arr elem +
    lists: places getl putl "\<lambda>a. a" "\<lambda>h a. True"
  for rd :: "('o, 'l, 'x) memory \<Rightarrow> 'p \<Rightarrow> 'a" and wr base inside into
    and value_of :: "('o, 'l, 'x) memory \<Rightarrow> 'a \<Rightarrow> 'v" and refs arr put_arr elem
    and getl :: "('o, 'l, 'x) memory \<Rightarrow> nat \<Rightarrow> ('l, nat option) ListStruct" and putl +
  fixes list_into :: "nat \<Rightarrow> nat \<Rightarrow> ('o, 'l, 'x) memory \<Rightarrow> ('o, 'l, 'x) memory"
    and copy_meta :: "'l \<Rightarrow> ('o, 'l, 'x) memory \<Rightarrow> 'l \<times> ('o, 'l, 'x) memory" and lvalue lrefs and zero :: 'a
  assumes laws: "copy_laws copy_meta lvalue lrefs"
    and list_into: "list_into i out h =
     (let h = putl out (getl h i) h;
          h = putl out ((getl h out)\<lparr>ListType := ListType (getl h i)\<rparr>) h;
          (m, h) = copy_meta (ListMetaOf (getl h i)) h;
          h = putl out ((getl h out)\<lparr>ListMetaOf := m\<rparr>) h
      in case Items (getl h i) of None \<Rightarrow> h
         | Some a \<Rightarrow>
           let (b, h) = new put_arr (replicate (length (arr h a)) zero) h;
               h = putl out ((getl h out)\<lparr>Items := Some b\<rparr>) h
           in fold (\<lambda>k. into (elem a k) (elem b k)) [0..<length (arr h a)] h)"
begin

lemma list_framed: "framed (list_value lvalue arr value_of) (list_refs lrefs arr refs)"
  unfolding framed_def
proof (intro allI impI)
  fix h h' l
  assume same: "same_at (list_refs lrefs arr refs h l) h h'"
  have meta: "lvalue h' (ListMetaOf l) = lvalue h (ListMetaOf l)" "lrefs h' (ListMetaOf l) = lrefs h (ListMetaOf l)"
    using framedD [OF copy_lawsD(1) [OF laws] same_at_mono [OF same]] by (auto simp: list_refs_def)
  have "arr h' a = arr h a \<and> (\<forall>c\<in>set (arr h a). value_of h' c = value_of h c \<and> refs h' c = refs h c)" if "Items l = Some a" for a
  proof (intro conjI ballI)
    show "arr h' a = arr h a" using same that by (intro arr_same) (simp add: list_refs_def same_at_def)
    show "value_of h' c = value_of h c" "refs h' c = refs h c" if c: "c \<in> set (arr h a)" for c
      using framedD [OF framed same_at_mono [OF same]] c \<open>Items l = Some a\<close> by (force simp: list_refs_def)+
  qed
  then show "list_value lvalue arr value_of h' l = list_value lvalue arr value_of h l \<and> list_refs lrefs arr refs h' l = list_refs lrefs arr refs h l"
    by (cases "Items l") (simp_all add: list_value_def list_refs_def meta)
qed

text \<open>The items, once the rest of the target is written: the array at the old limit has copies of the elements.\<close>

lemma items_copied:
  assumes out: "out < lim g" "getl g out = l" and a: "a < lim g" "a \<noteq> out"
    and refs: "\<And>c. c \<in> set (arr g a) \<Longrightarrow> refs g c \<subseteq> {..<lim g} - {out}"
    and run: "h' = (let (b, h) = new put_arr (replicate (length (arr g a)) zero) g; h = putl out ((getl h out)\<lparr>Items := Some b\<rparr>) h
      in fold (\<lambda>k. into (elem a k) (elem b k)) [0..<length (arr h a)] h)"
  shows "extends (putl out (l\<lparr>Items := Some (lim g)\<rparr>) g) h' \<and> lim g < lim h' \<and>
    map (value_of h') (arr h' (lim g)) = map (value_of g) (arr g a) \<and>
    (\<forall>c\<in>set (arr h' (lim g)). refs h' c \<subseteq> {lim g..<lim h'})"
proof -
  define g2 where "g2 = put_arr (lim g) (replicate (length (arr g a)) zero) (g\<lparr>lim := Suc (lim g)\<rparr>)"
  define l2 where "l2 = l\<lparr>Items := Some (lim g)\<rparr>"
  define g3 where "g3 = putl out l2 g2"
  have ext2: "extends g g2"
    unfolding g2_def by (rule new_extends) (simp_all add: put_arr)
  have lim3: "lim g3 = Suc (lim g)" by (simp add: g3_def g2_def lists.wr_lim put_arr)
  have cells: "cell g3 c = cell g c" if "c < lim g" "c \<noteq> out" for c
    using that extendsD(3) [OF ext2] by (simp add: g3_def lists.wr_cell)
  have "getl g2 out = l"
    using extendsD(3) [OF ext2, of out] out by (subst lists.rd_same [of _ out g]) simp_all
  moreover have arr_a: "arr g3 a = arr g a" using cells a by (intro arr_same) simp
  ultimately have h': "h' = fold (\<lambda>k. into (elem a k) (elem (lim g) k)) [0..<length (arr g3 a)] g3"
    by (simp add: run new_def g2_def [symmetric] l2_def [symmetric] g3_def [symmetric])
  have "arr g3 (lim g) = arr g2 (lim g)"
    unfolding g3_def using out by (intro arr_same lists.wr_cell) simp
  then have arr_b: "length (arr g3 (lim g)) = length (arr g3 a)" by (simp add: g2_def put_arr arr_a)
  have kept: "value_of g3 c = value_of g c" "refs g3 c = refs g c" if "c \<in> set (arr g a)" for c
  proof -
    have "same_at (refs g c) g g3" using cells refs [OF that] by (fastforce simp: same_at_def)
    then show "value_of g3 c = value_of g c" "refs g3 c = refs g c" using framedD [OF framed] by simp_all
  qed
  have "refs g3 c \<subseteq> {..<lim g3} - {lim g}" if "c \<in> set (arr g3 a)" for c
    using refs [of c] kept(2) [of c] that by (fastforce simp: arr_a lim3)
  then have loop: "lim g3 \<le> lim h'" "same_at ({..<lim g3} - {lim g}) g3 h'"
      "map (value_of h') (arr h' (lim g)) = map (value_of g3) (arr g3 a)" "\<And>c. c \<in> set (arr h' (lim g)) \<Longrightarrow> refs h' c \<subseteq> {lim g3..<lim h'}"
    using array_copied [OF _ _ _ arr_b _ h'] a by (simp_all add: lim3)
  have "cell h' c = cell (putl out l2 g) c" if "c < lim g" for c
  proof -
    have "cell h' c = cell g3 c" using loop(2) that by (simp add: same_at_def lim3)
    also have "\<dots> = cell (putl out l2 g) c"
      using that cells [OF that] extendsD(3) [OF ext2 that] lists.wr_same [of g2 out g l2]
      by (cases "c = out") (simp_all add: lists.wr_cell g3_def)
    finally show ?thesis .
  qed
  then have "extends (putl out l2 g) h'"
    using loop(1) by (simp add: extends_def same_at_def lists.wr_lim lim3)
  then show ?thesis
    using loop kept(1) by (fastforce simp: l2_def lim3 arr_a)
qed

lemma list_copied:
  assumes place: "i \<noteq> out" "i < lim h" "out < lim h"
    and refs: "list_refs lrefs arr refs h (getl h i) \<subseteq> {..<lim h} - {out}" and run: "h' = list_into i out h"
  shows "extends (putl out (getl h' out) h) h' \<and>
    list_value lvalue arr value_of h' (getl h' out) = list_value lvalue arr value_of h (getl h i) \<and>
    list_refs lrefs arr refs h' (getl h' out) \<subseteq> {lim h..<lim h'}"
proof -
  define l where "l = getl h i"
  obtain m g where meta_run: "copy_meta (ListMetaOf l) (putl out l h) = (m, g)"
    by (cases "copy_meta (ListMetaOf l) (putl out l h)")
  have meta_refs: "lrefs h (ListMetaOf l) \<subseteq> {..<lim h} - {out}" using refs by (auto simp: list_refs_def l_def)
  note meta = lists.metadata_copied [OF laws TrueI place(3) meta_refs meta_run]
  define l1 where "l1 = l\<lparr>ListMetaOf := m\<rparr>"
  define g1 where "g1 = putl out l1 g"
  note ext1 = meta(1) [of l1, folded g1_def]
  note lim1 = lists.written_lim [OF ext1]
  have read1: "getl g1 i = l" "getl g1 out = l1"
    using lists.written_other [OF ext1 place(1,2)] lists.written_read(1) [OF ext1 TrueI place(3)] by (simp_all add: l_def)
  have first: "getl (putl out l h) out = l" "getl (putl out l h) i = l"
    using lists.rd_wr [OF TrueI] lists.written_other [OF extends_refl place(1,2)] by (simp_all add: l_def)
  have m: "lvalue g1 m = lvalue h (ListMetaOf l)" "lrefs g1 m \<subseteq> {lim h..<lim g1}"
    using meta(2,3) [of l1] by (simp_all add: g1_def lists.wr_lim)
  have run_meta: "h' = (case Items l of None \<Rightarrow> g1
      | Some a \<Rightarrow> let (b, h) = new put_arr (replicate (length (arr g1 a)) zero) g1; h = putl out ((getl h out)\<lparr>Items := Some b\<rparr>) h
           in fold (\<lambda>k. into (elem a k) (elem b k)) [0..<length (arr h a)] h)"
    unfolding run using meta_run meta(5) read1(1)
    by (cases "Items l") (simp_all add: list_into Let_def l_def [symmetric] first lists.wr_wr l1_def [symmetric] g1_def [symmetric])
  show ?thesis
  proof (cases "Items l")
    case None
    then show ?thesis
      using ext1 m by (simp add: run_meta read1 list_value_def list_refs_def l_def [symmetric] l1_def)
  next
    case (Some a)
    have sub: "insert a (\<Union>c\<in>set (arr h a). refs h c) \<subseteq> {..<lim h} - {out}"
      using refs by (simp add: list_refs_def l_def [symmetric] Some)
    have arr_a: "arr g1 a = arr h a"
      using lists.written_cell [OF ext1, of a] sub by (auto intro: arr_same)
    have kept: "value_of g1 c = value_of h c" "refs g1 c = refs h c" if "c \<in> set (arr h a)" for c
      using framedD [OF framed lists.written_same [OF ext1, of "refs h c"]] sub that by blast+
    have items: "extends (putl out (l1\<lparr>Items := Some (lim g1)\<rparr>) g1) h'" "lim g1 < lim h'"
        "map (value_of h') (arr h' (lim g1)) = map (value_of g1) (arr g1 a)"
        "\<forall>c\<in>set (arr h' (lim g1)). refs h' c \<subseteq> {lim g1..<lim h'}"
      using items_copied [of out g1 l1 a h'] place(3) lim1 read1(2) sub kept(2) run_meta Some
      by (fastforce simp: arr_a)+
    note ext = lists.written_wr [OF ext1 items(1)]
    have read: "getl h' out = l1\<lparr>Items := Some (lim g1)\<rparr>" by (rule lists.written_read(1) [OF ext TrueI place(3)])
    have "same_at (lrefs g1 m) g1 h'"
      using m(2) place(3) by (intro lists.written_same [OF items(1)]) auto
    then have "lvalue h' m = lvalue h (ListMetaOf l)" "lrefs h' m \<subseteq> {lim h..<lim g1}"
      using framedD [OF copy_lawsD(1) [OF laws]] m by auto
    then show ?thesis
      using ext items(2-4) kept(1) lim1
      by (fastforce simp: read l_def [symmetric] list_value_def list_refs_def l1_def Some arr_a)
  qed
qed

end

sublocale list_copier \<subseteq> list: copier getl putl "\<lambda>a. a" "\<lambda>h a. True" list_into "list_value lvalue arr value_of" "list_refs lrefs arr refs"
  by unfold_locales (rule list_framed, rule list_copied)

context apimachinery
begin

lemma cache_array: "array_copier read_cache put_cache cache_base cache_inside (Cache_DeepCopyInto om) (cache_value ovalue) (cache_refs orefs)
    cacheArrays put_cacheArray CacheElem"
  by unfold_locales (simp_all add: put_cacheArray_def cell_def)

lemma driver_array: "array_copier read_driver put_driver driver_base driver_inside (DriverInstance_DeepCopyInto om) (driver_value ovalue) (driver_refs orefs)
    driverArrays put_driverArray DriverElem"
  by unfold_locales (simp_all add: put_driverArray_def cell_def)

end

sublocale apimachinery \<subseteq> cacheList: list_copier read_cache put_cache cache_base cache_inside "Cache_DeepCopyInto om"
  "cache_value ovalue" "cache_refs orefs" cacheArrays put_cacheArray CacheElem cacheLists put_cacheList
  "CacheList_DeepCopyInto om lm" "MetaCopy lm" lvalue lrefs "CacheStruct_zero (MetaZero om)"
  using cache_array list_meta
  by (simp add: list_copier_def list_copier_axioms_def cacheList_place.places_axioms CacheList_DeepCopyInto_def)

sublocale apimachinery \<subseteq> driverList: list_copier read_driver put_driver driver_base driver_inside "DriverInstance_DeepCopyInto om"
  "driver_value ovalue" "driver_refs orefs" driverArrays put_driverArray DriverElem driverLists put_driverList
  "DriverInstanceList_DeepCopyInto om lm" "MetaCopy lm" lvalue lrefs "DriverStruct_zero (MetaZero om)"
  using driver_array list_meta
  by (simp add: list_copier_def list_copier_axioms_def driverList_place.places_axioms DriverInstanceList_DeepCopyInto_def)

context apimachinery
begin

lemma copies:
  "deep_copies (Cache_DeepCopy om) (\<lambda>h a. cache_value ovalue h (caches h a)) (\<lambda>h a. cache_refs orefs h (caches h a))"
  "deep_copies (DriverInstance_DeepCopy om) (\<lambda>h a. driver_value ovalue h (drivers h a)) (\<lambda>h a. driver_refs orefs h (drivers h a))"
  "deep_copies (CacheList_DeepCopy om lm) (\<lambda>h a. list_value lvalue cacheArrays (cache_value ovalue) h (cacheLists h a))
     (\<lambda>h a. list_refs lrefs cacheArrays (cache_refs orefs) h (cacheLists h a))"
  "deep_copies (DriverInstanceList_DeepCopy om lm) (\<lambda>h a. list_value lvalue driverArrays (driver_value ovalue) h (driverLists h a))
     (\<lambda>h a. list_refs lrefs driverArrays (driver_refs orefs) h (driverLists h a))"
proof -
  show "deep_copies (Cache_DeepCopy om) (\<lambda>h a. cache_value ovalue h (caches h a)) (\<lambda>h a. cache_refs orefs h (caches h a))"
    by (rule cache.clone [of CachePtr, simplified]) (simp add: Cache_DeepCopy_def)
  show "deep_copies (DriverInstance_DeepCopy om) (\<lambda>h a. driver_value ovalue h (drivers h a)) (\<lambda>h a. driver_refs orefs h (drivers h a))"
    by (rule driver.clone [of DriverPtr, simplified]) (simp add: DriverInstance_DeepCopy_def)
  show "deep_copies (CacheList_DeepCopy om lm) (\<lambda>h a. list_value lvalue cacheArrays (cache_value ovalue) h (cacheLists h a))
     (\<lambda>h a. list_refs lrefs cacheArrays (cache_refs orefs) h (cacheLists h a))"
    by (rule cacheList.list.clone [of "\<lambda>a. a"]) (simp_all add: CacheList_DeepCopy_def)
  show "deep_copies (DriverInstanceList_DeepCopy om lm) (\<lambda>h a. list_value lvalue driverArrays (driver_value ovalue) h (driverLists h a))
     (\<lambda>h a. list_refs lrefs driverArrays (driver_refs orefs) h (driverLists h a))"
    by (rule driverList.list.clone [of "\<lambda>a. a"]) (simp_all add: DriverInstanceList_DeepCopy_def)
qed

end

lemma plain_copies:
  "deep_copies DriverInstanceSpec_DeepCopy (\<lambda>h a. spec_value h (driverSpecs h a)) (\<lambda>h a. spec_refs (driverSpecs h a))"
  "deep_copies CacheSpec_DeepCopy (\<lambda>h. cacheSpecs h) (\<lambda>h a. {})"
  "deep_copies CacheStatus_DeepCopy (\<lambda>h. cacheStatuses h) (\<lambda>h a. {})"
  "deep_copies DriverConf_DeepCopy (\<lambda>h. driverConfs h) (\<lambda>h a. {})"
  "deep_copies DriverInstanceStatus_DeepCopy (\<lambda>h. driverStatuses h) (\<lambda>h a. {})"
proof -
  show "deep_copies DriverInstanceSpec_DeepCopy (\<lambda>h a. spec_value h (driverSpecs h a)) (\<lambda>h a. spec_refs (driverSpecs h a))"
    by (rule spec_copy.clone [of SpecPtr, simplified]) (simp add: DriverInstanceSpec_DeepCopy_def)
  show "deep_copies CacheSpec_DeepCopy (\<lambda>h. cacheSpecs h) (\<lambda>h a. {})"
    by (rule copier.clone [OF cacheSpec_place.assigned, where ptr = "\<lambda>a. a" and z = "CacheSpec_zero"]) (simp_all add: CacheSpec_DeepCopy_def CacheSpec_DeepCopyInto_def split: option.split)
  show "deep_copies CacheStatus_DeepCopy (\<lambda>h. cacheStatuses h) (\<lambda>h a. {})"
    by (rule copier.clone [OF cacheStatus_place.assigned, where ptr = "\<lambda>a. a" and z = "CacheStatus_zero"]) (simp_all add: CacheStatus_DeepCopy_def CacheStatus_DeepCopyInto_def split: option.split)
  show "deep_copies DriverConf_DeepCopy (\<lambda>h. driverConfs h) (\<lambda>h a. {})"
    by (rule copier.clone [OF driverConf_place.assigned, where ptr = "\<lambda>a. a" and z = "DriverConf_zero"]) (simp_all add: DriverConf_DeepCopy_def DriverConf_DeepCopyInto_def split: option.split)
  show "deep_copies DriverInstanceStatus_DeepCopy (\<lambda>h. driverStatuses h) (\<lambda>h a. {})"
    by (rule copier.clone [OF driverStatus_place.assigned, where ptr = "\<lambda>a. a" and z = "()"])
      (simp_all add: DriverInstanceStatus_DeepCopy_def DriverInstanceStatus_DeepCopyInto_def split: option.split)
qed

section \<open>Properties\<close>

text \<open>
  An instance of the metadata: an object has a name and a map of labels, whose copy is a loop over the entries, and a list has a resource version.
\<close>

definition ref_copy where
  "ref_copy m h = (case snd m of None \<Rightarrow> (m, h)
     | Some a \<Rightarrow> let (b, h) = new put_map DAList.empty h in ((fst m, Some b), copy_entries b (DAList.impl_of (maps h a)) h))"

definition ref_object_meta :: "(string \<times> nat option, (string \<times> nat option, string, unit) memory) meta_ops" where
  "ref_object_meta = \<lparr>MetaZero = ([], None), MetaCopy = ref_copy\<rparr>"

definition ref_list_meta :: "(string, (string \<times> nat option, string, unit) memory) meta_ops" where
  "ref_list_meta = \<lparr>MetaZero = [], MetaCopy = Pair\<rparr>"

definition ref_value where "ref_value h m = (fst m, map_value h (snd m))"
definition ref_refs where "ref_refs h m = set_option (snd m)"

lemma ref_object_laws: "copy_laws (MetaCopy ref_object_meta) ref_value ref_refs"
  unfolding copy_laws_def framed_def
proof (intro conjI allI impI)
  fix h h' :: "(string \<times> nat option, string, unit) memory" and m m' :: "string \<times> nat option"
  assume "same_at (ref_refs h m) h h'"
  then show "ref_value h' m = ref_value h m" "ref_refs h' m = ref_refs h m"
    by (simp_all add: ref_value_def ref_refs_def map_value_same)
next
  fix h h' :: "(string \<times> nat option, string, unit) memory" and m m' :: "string \<times> nat option"
  assume run: "MetaCopy ref_object_meta m h = (m', h')" and old: "ref_refs h m \<subseteq> {..<lim h}"
  show "extends h h'" "ref_value h' m' = ref_value h m" "ref_refs h' m' \<subseteq> {lim h..<lim h'}"
  proof -
    have "extends h h' \<and> ref_value h' m' = ref_value h m \<and> ref_refs h' m' \<subseteq> {lim h..<lim h'}"
    proof (cases "snd m")
      case None
      then show ?thesis using run by (auto simp: ref_object_meta_def ref_copy_def ref_refs_def)
    next
      case (Some a)
      define g where "g = put_map (lim h) DAList.empty (h\<lparr>lim := Suc (lim h)\<rparr>)"
      have "a \<noteq> lim h" using old Some by (auto simp: ref_refs_def)
      then have g: "maps g a = maps h a" "maps g (lim h) = DAList.empty" by (simp_all add: g_def put_map_def)
      have eq: "m' = (fst m, Some (lim h))"
          "h' = put_map (lim h) (fold (\<lambda>(k, v). DAList.update k v) (DAList.impl_of (maps h a)) DAList.empty) g"
        using run Some by (simp_all add: ref_object_meta_def ref_copy_def new_def copy_entries_eq g_def [symmetric] g)
      have "extends h h'" by (auto simp: eq g_def extends_def same_at_def)
      moreover have "ref_value h' m' = ref_value h m"
        by (simp add: ref_value_def map_value_def eq(1) Some) (simp add: eq(2) put_map_def lookup_copied)
      moreover have "lim h' = Suc (lim h)" by (simp add: eq g_def)
      ultimately show ?thesis by (simp add: ref_refs_def eq(1))
    qed
    then show "extends h h'" "ref_value h' m' = ref_value h m" "ref_refs h' m' \<subseteq> {lim h..<lim h'}" by blast+
  qed
qed

lemma ref_list_laws: "copy_laws (MetaCopy ref_list_meta) (\<lambda>h m. m) (\<lambda>h m. {})"
  by (auto simp: copy_laws_def framed_def ref_list_meta_def)

interpretation ref_meta: apimachinery ref_object_meta ref_value ref_refs ref_list_meta "\<lambda>h m. m" "\<lambda>h m. {}"
  by unfold_locales (rule ref_object_laws, rule ref_list_laws)

text \<open>\<^verbatim>\<open>DeepCopyObject\<close> never returns an interface value that holds a \<^verbatim>\<open>nil\<close> pointer.\<close>

lemma DeepCopyObject_nil:
  "fst (Cache_DeepCopyObject om p h) \<noteq> Some (CacheObject None)"
  "fst (CacheList_DeepCopyObject om lm p h) \<noteq> Some (CacheListObject None)"
  "fst (DriverInstance_DeepCopyObject om p h) \<noteq> Some (DriverInstanceObject None)"
  "fst (DriverInstanceList_DeepCopyObject om lm p h) \<noteq> Some (DriverInstanceListObject None)"
  by (auto simp: Cache_DeepCopyObject_def CacheList_DeepCopyObject_def DriverInstance_DeepCopyObject_def
      DriverInstanceList_DeepCopyObject_def split: prod.splits)

text \<open>
  C20: Copies share nothing with the original. For every type of the API and every memory, \<^verbatim>\<open>DeepCopy\<close> of a pointer returns a new
  pointer to an object with the same value, with maps and slices equal and \<^verbatim>\<open>nil\<close> exactly where they are in the original, and leaves the memory there was unchanged.
  Everything the copy refers to is new, so whatever is written afterwards to the original, to its maps and
  to its slices, the copy keeps the value, which is what a patch computed against it relies on. \<^verbatim>\<open>nil\<close> is copied to \<^verbatim>\<open>nil\<close>.
\<close>

theorem DeepCopy_isolates:
  fixes om :: "('o, ('o, 'l, 'x) memory) meta_ops" and lm :: "('l, ('o, 'l, 'x) memory) meta_ops"
  assumes "copy_laws (MetaCopy om) ov rs" and "copy_laws (MetaCopy lm) lv lrs"
  shows "deep_copies (Cache_DeepCopy om) (\<lambda>h a. cache_value ov h (caches h a)) (\<lambda>h a. cache_refs rs h (caches h a)) \<and>
    deep_copies (DriverInstance_DeepCopy om) (\<lambda>h a. driver_value ov h (drivers h a)) (\<lambda>h a. driver_refs rs h (drivers h a)) \<and>
    deep_copies (CacheList_DeepCopy om lm) (\<lambda>h a. list_value lv cacheArrays (cache_value ov) h (cacheLists h a))
      (\<lambda>h a. list_refs lrs cacheArrays (cache_refs rs) h (cacheLists h a)) \<and>
    deep_copies (DriverInstanceList_DeepCopy om lm) (\<lambda>h a. list_value lv driverArrays (driver_value ov) h (driverLists h a))
      (\<lambda>h a. list_refs lrs driverArrays (driver_refs rs) h (driverLists h a)) \<and>
    deep_copies DriverInstanceSpec_DeepCopy (\<lambda>h a. spec_value h (driverSpecs h a)) (\<lambda>h a. spec_refs (driverSpecs h a)) \<and>
    deep_copies CacheSpec_DeepCopy (\<lambda>h. cacheSpecs h) (\<lambda>h a. {}) \<and>
    deep_copies CacheStatus_DeepCopy (\<lambda>h. cacheStatuses h) (\<lambda>h a. {}) \<and>
    deep_copies DriverConf_DeepCopy (\<lambda>h. driverConfs h) (\<lambda>h a. {}) \<and>
    deep_copies DriverInstanceStatus_DeepCopy (\<lambda>h. driverStatuses h) (\<lambda>h a. {})"
  using apimachinery.copies [OF apimachinery.intro [OF assms]] plain_copies by blast

text \<open>
  A driver instance with labels in the map at address 1. After the copy that map is emptied, and the copy still has the labels.
\<close>

definition ref_memory :: "(string \<times> nat option, string, unit) memory" where
  "ref_memory = \<lparr>lim = 2, maps = (\<lambda>a. DAList.update ''app'' ''db'' DAList.empty), caches = (\<lambda>a. CacheStruct_zero ([], None)),
     cacheArrays = (\<lambda>a. []), cacheLists = (\<lambda>a. ListStruct_zero []), cacheSpecs = (\<lambda>a. CacheSpec_zero),
     cacheStatuses = (\<lambda>a. CacheStatus_zero),
     drivers = (\<lambda>a. (DriverStruct_zero (''one'', None))\<lparr>DriverSpecOf := SpecStruct_zero\<lparr>SLabels := Some 1\<rparr>\<rparr>),
     driverArrays = (\<lambda>a. []), driverLists = (\<lambda>a. ListStruct_zero []), driverSpecs = (\<lambda>a. SpecStruct_zero),
     driverConfs = (\<lambda>a. DriverConf_zero), driverStatuses = (\<lambda>a. ()), others = (\<lambda>a. ())\<rparr>"

lemma DeepCopy_isolates_witness:
  "\<exists>b h'. DriverInstance_DeepCopy ref_object_meta (Some 0) ref_memory = (Some b, h') \<and> 2 \<le> b \<and>
     SLabels (DriverSpecOf (driver_value ref_value (put_map 1 DAList.empty h') (drivers (put_map 1 DAList.empty h') b))) = Some [''app'' \<mapsto> ''db'']"
proof -
  have old: "insert 0 (driver_refs ref_refs ref_memory (drivers ref_memory 0)) \<subseteq> {..<lim ref_memory}"
    by (simp add: driver_refs_def ref_refs_def spec_refs_def ref_memory_def DriverStruct_zero_def SpecStruct_zero_def)
  have labels: "SLabels (DriverSpecOf (driver_value ref_value ref_memory (drivers ref_memory 0))) = Some [''app'' \<mapsto> ''db'']"
    by (simp add: driver_value_def spec_value_def map_value_def ref_memory_def SpecStruct_zero_def DAList.lookup_update fun_eq_iff)
  have "deep_copies (DriverInstance_DeepCopy ref_object_meta) (\<lambda>h a. driver_value ref_value h (drivers h a)) (\<lambda>h a. driver_refs ref_refs h (drivers h a))"
    using DeepCopy_isolates [OF ref_object_laws ref_list_laws] by blast
  then obtain b h' where copy: "DriverInstance_DeepCopy ref_object_meta (Some 0) ref_memory = (Some b, h')"
      "insert b (driver_refs ref_refs h' (drivers h' b)) \<subseteq> {lim ref_memory..<lim h'}"
      "\<And>h2. same_at {lim ref_memory..<lim h'} h' h2 \<Longrightarrow>
         driver_value ref_value h2 (drivers h2 b) = driver_value ref_value ref_memory (drivers ref_memory 0)"
    using old unfolding deep_copies_def by blast
  have "same_at {lim ref_memory..<lim h'} h' (put_map 1 DAList.empty h')"
    by (auto simp: same_at_def ref_memory_def)
  then show ?thesis using copy labels by (intro exI [of _ b] exI [of _ h']) (simp add: ref_memory_def)
qed

end
