(* ===== verification/Spec2Isabelle.thy ===== *)
theory Spec2Isabelle
  imports Operator_Main Driver_Main Volume_Service Deep_Copy
begin

text \<open>
  The Open CAS CSI driver and its operator, a verification library.

  The repository holds a CSI driver that puts the block caches of Open CAS between a Kubernetes volume and the
  volume of another provisioner that stores its data, and an operator that deploys the driver and manages the caches of the
  nodes. The parts and what they do to each other:

  \<^item> The controller service (\<^verbatim>\<open>pkg/csi-driver/controller.go\<close>) keeps, for each volume, a claim on the backend class in a protected
    namespace, and for each volume published to a node an intermediate pod there that holds the claim as a block device.
  \<^item> The node service (\<^verbatim>\<open>node.go\<close>) links the device of the backend under a fixed name, adds it as a core to a cache of the node and mounts the
    cached device.
  \<^item> Both use the Kubernetes helpers (\<^verbatim>\<open>pkg/k8sutils\<close>), which label what they create as protected; the webhook (\<^verbatim>\<open>pkg/webhook\<close>), which is asked about deletions
    only, refuses those of objects that carry the label. The node service and the operator use the Open CAS manager (\<^verbatim>\<open>pkg/opencas\<close>), which runs \<^verbatim>\<open>casadm\<close> in jobs on the node
    and reads the list it prints, and the node service the local commands of \<^verbatim>\<open>pkg/utils\<close>.
  \<^item> The operator (\<^verbatim>\<open>pkg/csi-operator\<close>) has one reconciler that brings the caches of a node to the state of its \<^verbatim>\<open>Cache\<close> resource and tells the
    node service by a label of the node which cache to use, and one that creates and releases the objects of a driver deployment.

  \<^bold>\<open>How the code is modelled.\<close> A Go function that calls the outside is a function of a world to an outcome (a value or a run-time panic) and a new world
  (\<open>Go_Prelude\<close>). The world (\<open>Environment\<close>) is the two package variables of \<^verbatim>\<open>k8sutils\<close> and the state \<open>'x\<close> of everything outside the process; the operations on \<open>'x\<close>
  (clientset, operating system, and for the operator the client of controller-runtime) are records of functions that every definition takes as
  an argument. Nothing is fixed about them: what a property needs of them, the documented behaviour of the API server, of \<^verbatim>\<open>casadm\<close> and of the mount table, is a
  named hypothesis: \<open>pvc_laws\<close>, \<open>pod_laws\<close>, \<open>sc_get_law\<close> and \<open>pv_get_law\<close> of the API server, with \<open>pods_apart\<close> and \<open>watch_keeps_labels\<close> for what goes on in the
  cluster while a pod starts (claims may be bound then, and deletions may finish), \<open>casadm_lists\<close>, \<open>lists_readable\<close> and \<open>cache_node\<close> of a node, \<open>mount_laws\<close>,
  \<open>mount_table_law\<close>, \<open>links_law\<close> and \<open>known_volumes_law\<close> of the mounts, the device links and the volumes the node service finds, \<open>object_laws\<close> and
  \<open>instance_laws\<close> of the operator's client. And \<open>Reference_Cluster\<close> and \<open>Operator_Cluster\<close> are an executable
  cluster that satisfies them and on which the properties are run. Errors are values; slices, maps and pointers that may be \<^verbatim>\<open>nil\<close> are
  options; an index out of range, a write to a \<^verbatim>\<open>nil\<close> map and a \<^verbatim>\<open>nil\<close> dereference are panics. \<^verbatim>\<open>int64\<close> sizes are integers, since the code only compares
  and copies them; the cache line size is an 8-bit word, the log level and the replicas are words.

  \<^bold>\<open>Theories.\<close> Each component theory follows the order of its source, has the names of the source, and ends with its properties.

  \<^item> \<open>Go_Prelude\<close>, \<open>Go_Strings\<close>, \<open>Csv_Reader\<close>: outcomes, sequencing, Go maps and errors; the functions of \<^verbatim>\<open>strings\<close>, \<^verbatim>\<open>strconv\<close> and \<^verbatim>\<open>fmt\<close> the code uses; \<^verbatim>\<open>encoding/csv\<close>.
    The collections \<open>returns_simps\<close>, \<open>no_panic_intros\<close> and \<open>keeps_intros\<close> carry the proofs about handlers.
  \<^item> \<open>Kube_Types\<close>, \<open>Environment\<close>, \<open>Store_Laws\<close>: API objects, the outside, and the laws of an object store with the locale \<open>protected_store\<close> of look-up and removal.
  \<^item> \<open>Utils\<close>: \<^verbatim>\<open>pkg/utils/utils.go\<close>. \<open>Casadm\<close>: \<^verbatim>\<open>pkg/opencas/casadm.go\<close>. \<open>K8s_Utils\<close>: \<^verbatim>\<open>pkg/k8sutils/k8sutils.go\<close>, two instances of \<open>protected_store\<close>.
  \<^item> \<open>Cache_List\<close>, \<open>Open_Cas\<close>: \<^verbatim>\<open>pkg/opencas/api.go\<close>; the parser of the list is shown to invert the printer, the operations to have the effect the node lists
    (locale \<open>core_manager\<close>).
  \<^item> \<open>Csi_Types\<close>, \<open>Controller_Server\<close>, \<open>Node_Server\<close>: the two services; the checks of every handler are the locale \<open>guarded_handler\<close>.
  \<^item> \<open>Volume_Service\<close>: an abstract machine of the volumes, a step relation for sequences of calls and of changes the cluster makes to the claims
    (binding, finished deletions), and the refinement between them (locale \<open>simulation\<close>).
  \<^item> \<open>Driver_Main\<close>: \<^verbatim>\<open>csi-driver.go\<close>, \<^verbatim>\<open>identity.go\<close>, \<^verbatim>\<open>server.go\<close>, \<^verbatim>\<open>main.go\<close>. \<open>Webhook_Server\<close>: the admission handler of \<^verbatim>\<open>pkg/webhook/main.go\<close>.
  \<^item> \<open>Operator_Types\<close>, \<open>Cache_Reconciler\<close>, \<open>Driver_Helpers\<close>, \<open>Driver_Reconciler\<close>: \<^verbatim>\<open>cache_controller.go\<close> with the \<^verbatim>\<open>Cache\<close> resource (locale \<open>cache_manager\<close>), \<^verbatim>\<open>helpers.go\<close>,
    and \<^verbatim>\<open>driverinstance_controller.go\<close> (locale \<open>object_sweep\<close>, instantiated for deploying and for releasing).
  \<^item> \<open>Deep_Copy\<close>: \<^verbatim>\<open>zz_generated.deepcopy.go\<close> over an explicit memory with addresses, where sharing is visible (locales \<open>places\<close>, \<open>copier\<close>, \<open>array_copier\<close>, \<open>list_copier\<close>). It
    shows that in the other theories, where objects are values, the copy a patch is computed against is rightly the object as it was.
  \<^item> \<open>Operator_Main\<close>: \<^verbatim>\<open>pkg/csi-operator/main.go\<close>, the registration of the controllers, \<^verbatim>\<open>Main\<close> of the webhook, and that the reconcilers return.

  \<^bold>\<open>What is shown.\<close> For the services: what a successful call has done and left alone, which requests are accepted and how the others are answered, idempotence,
  and for whole sequences of calls the refinement of the volume machine. For the manager: the meaning of its operations, valid job names, exact line sizes. For the
  operator: convergence, stability and deletion of caches, that no reconciliation stops a cache in use or changes anything of it but its mode, completeness of
  deployment and release, and the order of the objects with what a failure leaves. Across components, in this theory: what the driver creates cannot be deleted until it releases it, not even by its own request when a pod does not come up,
  and the cache the operator
  names is the one the node service uses. Where the code does not do what its comments say, the property states what it does.

  \<^bold>\<open>Bounds.\<close> No definition has fuel. The loops over watch channels are recursions over the list of signals the channel delivers until it is closed, which
  the API server does after a time of its own, the five attempts of \<^verbatim>\<open>GetPodByLabel\<close>
  are a recursion with the number as argument, and the loops of the parsers end because the input shrinks, which their termination proofs show.
  The key mutexes make a request one step for its volume or node, so a run of a handler is one function; interleaving appears between
  requests, as the sequences of \<open>Volume_Service\<close>.

  \<^bold>\<open>Not modelled.\<close> Logging; flag parsing; the transport (gRPC after a service is registered, HTTP, TLS); decoding of JSON, a parameter;
  the registration of the API group (\<^verbatim>\<open>groupversion_info.go\<close>); the test suites, which only start a test
  environment; the one-line programs under \<^verbatim>\<open>cmd\<close>, which pass the result of a \<^verbatim>\<open>Main\<close> on to \<^verbatim>\<open>os.Exit\<close>; concurrent writers to the same object other than the cluster binding a claim or finishing a deletion.
\<close>

lemma returns_Pair: "returns (Pair (Ret a)) w b w' \<longleftrightarrow> b = a \<and> w' = w"
  by (auto simp: returns_def)

text \<open>
  A plugin for a node only has no controller service. It is still registered, as an interface value that holds a
  \<^verbatim>\<open>nil\<close> pointer is not \<^verbatim>\<open>nil\<close>; it says that it offers nothing, and a request to create a volume that passes the checks
  ends the process.
\<close>

lemma node_only_plugin:
  assumes "config_ok env cfg" "\<not> wants_controller cfg"
    and "returns (NewCSIDriver env key cfg) w ((Some d, None), key') w1"
    and "returns (Run env listen d) w1 (Serving proto addr services) w2"
  shows "ControllerService None \<in> set services"
    and "\<exists>msg. ControllerGetCapabilities (controllerServer d) w2 = (Ret (Inl (Status Unimplemented msg)), w2)"
    and "CreateVolume_rejects req = None \<Longrightarrow> CreateVolume env (controllerServer d) req w2 = (Panic NilDereference, w2)"
proof -
  have "controllerServer d = None"
    using assms(1-3) by (auto simp: config_ok_def wants_controller_def NewCSIDriver_def returns_simps returns_Pair Let_def split: if_splits)
  then show "ControllerService None \<in> set services"
    "\<exists>msg. ControllerGetCapabilities (controllerServer d) w2 = (Ret (Inl (Status Unimplemented msg)), w2)"
    "CreateVolume_rejects req = None \<Longrightarrow> CreateVolume env (controllerServer d) req w2 = (Panic NilDereference, w2)"
    using assms(4) CreateVolume_accepted [of req env None]
    by (auto simp: Run_def serve_def returns_simps registered_def ControllerGetCapabilities_def fail_def Let_def split: if_splits)
qed

section \<open>Properties that span components\<close>

text \<open>What is deleted in the end: the helper gives an object back to the webhook before it asks for its removal.\<close>

lemma strip_then_delete:
  assumes laws: "store_laws meta stored get create update del obs" and set_meta: "\<And>m obj. meta (set_meta m obj) = m"
    and run: "returns (strip_and_delete meta set_meta get update del Label ns n) w None w'"
  shows "obs (outside w) (ns, n) = None \<or>
    (\<exists>x ob. obs x (ns, n) = Some ob \<and> admits (Labels (meta ob)) \<and> del ns n x = (None, outside w'))"
  using run
proof (cases rule: strip_and_delete_cases)
  case (absent ob e x)
  then show ?thesis using get_lawD(4) [OF laws absent(1)] by simp
next
  case (plain ob x x2)
  then show ?thesis using get_lawD(1,2) [OF laws plain(1)] by (intro disjI2 exI [of _ x]) (auto simp: admits_def)
next
  case (stripped ob x ob2 x2 x3)
  have "Name (meta ob) = n" using get_lawD(2) [OF laws stripped(1)] by simp
  then have "obs x2 (ns, n) = Some ob2" "Labels (meta ob2) = mdel (Labels (meta ob)) Label"
    using update_lawD(2) [OF laws stripped(3)] set_meta delete_lawD(3) [OF laws stripped(4)] by auto
  then show ?thesis using stripped(4,5) by (intro disjI2 exI [of _ x2]) (auto simp: admits_def)
qed simp_all

text \<open>
  C9: What the driver creates can only be deleted once the driver has let go of it. The webhook answers a readable review of a
  deletion, the only requests it is registered for, by the protection label alone. The claims and the pods the driver creates carry that label, so it refuses to delete them.
  When one of the two helpers that remove a claim or a pod has succeeded, the object was gone already, or the request to delete it was
  sent when the label was off, so that the webhook let it pass. \<^verbatim>\<open>CreateIntermediatePod\<close> is different: when the pod it
  has created does not come up, it asks for its deletion at once, and whatever is stored under the name at that moment still carries
  the label, so that the webhook refuses this request. When the pod comes up, or cannot be watched, nothing is asked after the watch.
\<close>

theorem protected_until_released:
  assumes "pvc_laws env obs" "pod_laws env pods" "watch_keeps_labels env pods"
    and "returns (DeleteSubproviderPvc env n) w None w'" "ns = protectedNamespace w"
    and "returns (DeleteIntermediatePod env pn pns) v None v'"
    and "returns (CreateIntermediatePod env podConfig) u (Some p, e) u'"
    and "decode body = Inr ar" "Request ar = Some req" "unmarshal (OldObjectRaw req) = Inr ob" "MdName (ObjMetadata ob) \<noteq> []"
  shows "(\<exists>resp. Validate decode unmarshal body = HttpJson (ar\<lparr>Response := Some resp\<rparr>) \<and>
      RespUID resp = ReqUID req \<and> (Allowed resp \<longleftrightarrow> admits (MdLabels (ObjMetadata ob)))) \<and>
    \<not> admits (Labels (PvcMeta (subproviderPvc config ns))) \<and> \<not> admits (Labels (PodMeta (intermediatePod podConfig))) \<and>
    (obs (outside w) (ns, n) = None \<or>
      (\<exists>x pvc. obs x (ns, n) = Some pvc \<and> admits (Labels (PvcMeta pvc)) \<and>
         PVCs_Delete (kube env) ns n x = (None, outside w'))) \<and>
    (pods (outside v) (pns, pn) = None \<or>
      (\<exists>x pod. pods x (pns, pn) = Some pod \<and> admits (Labels (PodMeta pod)) \<and>
         Pods_Delete (kube env) pns pn x = (None, outside v'))) \<and>
    (\<exists>x y signals err.
       Pods_Create (kube env) (PodNamespace podConfig) (intermediatePod podConfig) (outside u) = ((p, None), x) \<and>
       Pods_Watch (kube env) (PodNamespace podConfig) (PodMeta p) x = ((signals, err), y) \<and>
       (\<forall>pod. pods y (PodNamespace podConfig, PodName podConfig) = Some pod \<longrightarrow> \<not> admits (Labels (PodMeta pod))) \<and>
       (if err = None \<and> last_phase (Phase p) signals \<noteq> PodRunning
        then \<exists>e'. Pods_Delete (kube env) (PodNamespace podConfig) (PodName podConfig) y = (e', outside u')
        else outside u' = y))"
proof (intro conjI)
  show "\<exists>resp. Validate decode unmarshal body = HttpJson (ar\<lparr>Response := Some resp\<rparr>) \<and>
      RespUID resp = ReqUID req \<and> (Allowed resp \<longleftrightarrow> admits (MdLabels (ObjMetadata ob)))"
    by (rule exI, intro conjI, rule Validate_reply [of decode body ar req unmarshal ob])
      (simp_all add: assms(8-11))
  show "\<not> admits (Labels (PvcMeta (subproviderPvc config ns)))" "\<not> admits (Labels (PodMeta (intermediatePod podConfig)))"
    by (simp_all add: admits_def subproviderPvc_def intermediatePod_def)
  show "obs (outside w) (ns, n) = None \<or>
      (\<exists>x pvc. obs x (ns, n) = Some pvc \<and> admits (Labels (PvcMeta pvc)) \<and>
         PVCs_Delete (kube env) ns n x = (None, outside w'))"
    using assms(1,4,5) unfolding pvc_laws_def DeleteSubproviderPvc_strip
    by (intro strip_then_delete) (auto simp: returns_simps)
  show "pods (outside v) (pns, pn) = None \<or>
      (\<exists>x pod. pods x (pns, pn) = Some pod \<and> admits (Labels (PodMeta pod)) \<and>
         Pods_Delete (kube env) pns pn x = (None, outside v'))"
    using assms(2,6) unfolding pod_laws_def DeleteIntermediatePod_strip
    by (intro strip_then_delete) auto
  show "\<exists>x y signals err.
       Pods_Create (kube env) (PodNamespace podConfig) (intermediatePod podConfig) (outside u) = ((p, None), x) \<and>
       Pods_Watch (kube env) (PodNamespace podConfig) (PodMeta p) x = ((signals, err), y) \<and>
       (\<forall>pod. pods y (PodNamespace podConfig, PodName podConfig) = Some pod \<longrightarrow> \<not> admits (Labels (PodMeta pod))) \<and>
       (if err = None \<and> last_phase (Phase p) signals \<noteq> PodRunning
        then \<exists>e'. Pods_Delete (kube env) (PodNamespace podConfig) (PodName podConfig) y = (e', outside u')
        else outside u' = y)"
    by (rule CreateIntermediatePod_requests [OF assms(2,3,7)], intro exI conjI) (assumption | simp add: admits_def)+
qed

text \<open>A cluster in which the pod of a publication stays pending until its watch ends.\<close>

definition pending_env :: "mem env" where
  "pending_env = demo_env\<lparr>kube := (kube demo_env)\<lparr>Pods_Watch := (\<lambda>ns m x. (([], None), x))\<rparr>\<rparr>"

definition pending_pod :: PodConfig where
  "pending_pod = \<lparr>PodName = ''pod1'', Pvc = None, CasadmImage = [], NodeId = ''node1'', PodNamespace = ''opencas-csi-protected''\<rparr>"

lemma pending_laws: "pvc_laws pending_env mem_claims" "pod_laws pending_env mem_pods" "watch_keeps_labels pending_env mem_pods"
  using demo_laws(1,2) by (simp_all add: pending_env_def pvc_laws_def pod_laws_def watch_keeps_labels_def)

theorem protected_until_released_witness:
  "mem_claims (outside demo_created) (''opencas-csi-protected'', ''opencas-csi-pvc-1'') \<noteq> None \<and>
   \<not> admits (Labels (PvcMeta (subproviderPvc (CreateVolume_claim demo_create) ''opencas-csi-protected''))) \<and>
   (\<exists>x pvc. mem_claims x (''opencas-csi-protected'', ''opencas-csi-pvc-1'') = Some pvc \<and> admits (Labels (PvcMeta pvc))) \<and>
   (\<exists>p y u'. returns (CreateIntermediatePod pending_env pending_pod) demo_created (Some p, None) u' \<and> Phase p \<noteq> PodRunning \<and>
      mem_pods y (''opencas-csi-protected'', ''pod1'') \<noteq> None \<and>
      (\<exists>e'. Pods_Delete (kube pending_env) ''opencas-csi-protected'' ''pod1'' y = (e', outside u')) \<and>
      (\<forall>pod. mem_pods y (''opencas-csi-protected'', ''pod1'') = Some pod \<longrightarrow> \<not> admits (Labels (PodMeta pod))))"
proof -
  let ?review = "\<lparr>Request = Some \<lparr>ReqUID = ''u'', OldObjectRaw = []\<rparr>, Response = None\<rparr>"
  let ?ob = "\<lparr>Kind = ''Pod'', ObjMetadata = \<lparr>MdName = ''p'', MdNamespace = [], MdLabels = Some [(Label, [])]\<rparr>\<rparr>"
  have ns: "''opencas-csi-protected'' = protectedNamespace demo_created" by code_simp
  have del: "returns (DeleteSubproviderPvc pending_env ''opencas-csi-pvc-1'') demo_created None
      (snd (DeleteSubproviderPvc pending_env ''opencas-csi-pvc-1'' demo_created))"
    by (rule returns_snd) code_simp
  have pod: "returns (DeleteIntermediatePod pending_env ''none'' ''opencas-csi-protected'') demo_created None
      (snd (DeleteIntermediatePod pending_env ''none'' ''opencas-csi-protected'' demo_created))"
    by (rule returns_snd) code_simp
  let ?made = "Pods_Create (kube pending_env) ''opencas-csi-protected'' (intermediatePod pending_pod) (outside demo_created)"
  let ?p = "fst (fst ?made)" and ?u = "snd (CreateIntermediatePod pending_env pending_pod demo_created)"
  have made: "returns (CreateIntermediatePod pending_env pending_pod) demo_created (Some ?p, None) ?u"
    by (rule returns_snd) code_simp
  have idle: "Phase ?p \<noteq> PodRunning" "mem_pods (snd ?made) (''opencas-csi-protected'', ''pod1'') \<noteq> None" by code_simp+
  have name: "PodNamespace pending_pod = ''opencas-csi-protected''" "PodName pending_pod = ''pod1''"
    by (simp_all add: pending_pod_def)
  have watch: "Pods_Watch (kube pending_env) ns m x = (([], None), x)" for ns m x by (simp add: pending_env_def)
  have "map_option (\<lambda>p. DeletionTimestamp (PvcMeta p))
      (mem_claims (outside demo_created) (''opencas-csi-protected'', ''opencas-csi-pvc-1'')) = Some None" by code_simp
  then have there: "mem_claims (outside demo_created) (''opencas-csi-protected'', ''opencas-csi-pvc-1'') \<noteq> None" by auto
  note released = protected_until_released [OF pending_laws del ns pod made, of "\<lambda>_. Inr ?review" "[]" ?review
        "\<lparr>ReqUID = ''u'', OldObjectRaw = []\<rparr>" "\<lambda>_. Inr ?ob" ?ob "CreateVolume_claim demo_create", unfolded name]
  note refused = released [simplified, THEN conjunct2, THEN conjunct1]
  have released_claim: "\<exists>x pvc. mem_claims x (''opencas-csi-protected'', ''opencas-csi-pvc-1'') = Some pvc \<and> admits (Labels (PvcMeta pvc))"
    using there released [simplified, THEN conjunct2, THEN conjunct2, THEN conjunct2, THEN conjunct1] by auto
  obtain x y signals err where run: "?made = ((?p, None), x)"
      "Pods_Watch (kube pending_env) ''opencas-csi-protected'' (PodMeta ?p) x = ((signals, err), y)" and
    labelled: "\<forall>pod. mem_pods y (''opencas-csi-protected'', ''pod1'') = Some pod \<longrightarrow> \<not> admits (Labels (PodMeta pod))" and
    asked: "if err = None \<and> last_phase (Phase ?p) signals \<noteq> PodRunning
       then \<exists>e'. Pods_Delete (kube pending_env) ''opencas-csi-protected'' ''pod1'' y = (e', outside ?u) else outside ?u = y"
    using released [simplified, THEN conjunct2, THEN conjunct2, THEN conjunct2, THEN conjunct2, THEN conjunct2] by blast
  have "x = snd ?made" using arg_cong [OF run(1), of snd] by simp
  then have "y = snd ?made" "err = None" "signals = []" using run(2) watch by simp_all
  then have "\<exists>p y u'. returns (CreateIntermediatePod pending_env pending_pod) demo_created (Some p, None) u' \<and> Phase p \<noteq> PodRunning \<and>
      mem_pods y (''opencas-csi-protected'', ''pod1'') \<noteq> None \<and>
      (\<exists>e'. Pods_Delete (kube pending_env) ''opencas-csi-protected'' ''pod1'' y = (e', outside u')) \<and>
      (\<forall>pod. mem_pods y (''opencas-csi-protected'', ''pod1'') = Some pod \<longrightarrow> \<not> admits (Labels (PodMeta pod)))"
    using made idle labelled asked by (intro exI [of _ ?p] exI [of _ y] exI [of _ ?u]) simp
  then show ?thesis using there refused released_claim by (intro conjI)
qed

text \<open>A patch stores the labels it sends.\<close>

definition node_patch_stores :: "'x cache_client \<Rightarrow> bool" where
  "node_patch_stores cl \<longleftrightarrow>
     (\<forall>n base x n' x'. CNodes_Patch cl n base x = ((n', None), x') \<longrightarrow> Labels (NodeMeta n') = Labels (NodeMeta n))"

lemma SetOperatingCacheLabel_stores:
  assumes "node_patch_stores cl" and "returns (SetOperatingCacheLabel cl n v) w (n', None) w'"
  shows "mget (Labels (NodeMeta n')) OperatingCacheLabelKey = Some v"
proof -
  from assms(2) obtain m x where put: "mput (Labels (NodeMeta n)) OperatingCacheLabelKey v = Ret m"
    and patch: "CNodes_Patch cl (n\<lparr>NodeMeta := (NodeMeta n)\<lparr>Labels := m\<rparr>\<rparr>) n (outside w) = ((n', None), x)"
    by (auto simp: SetOperatingCacheLabel_def returns_simps)
  have "Labels (NodeMeta n') = m"
    using assms(1) [unfolded node_patch_stores_def, THEN spec, THEN spec, THEN spec, THEN spec, THEN spec, THEN mp, OF patch]
    by simp
  then show ?thesis using mget_mput [OF put] by simp
qed

text \<open>
  C10: The operator and the node service agree on the operating cache. When the operator has labelled a node with a cache, and the
  node service later reads that label and finds the cache in the list of the node, then it adds new cores to that cache, whatever other
  caches the list has. While the operator has emptied the label, the node service adds no core and answers \<^verbatim>\<open>Unavailable\<close>.
\<close>

theorem operating_cache_agreement:
  assumes "node_patch_stores cl" "returns (SetOperatingCacheLabel cl n val) w (n', None) w1"
    and "returns (ListCaches env cas) v (instances, None) v1"
    and "Nodes_Get (kube env) nodeId (outside v1) = ((node, None), x)" "Labels (NodeMeta node) = Labels (NodeMeta n')"
    and "c \<in> set instances" "distinct (map CacheId instances)" "- (2 ^ 63) \<le> CacheId c" "CacheId c < 2 ^ 63"
  shows "(val = fmt_int (CacheId c) \<longrightarrow> returns (NodeStageVolume_cache env cas nodeId pod) v (Inr c) (v1\<lparr>outside := x\<rparr>)) \<and>
    (val = [] \<longrightarrow> (\<exists>msg. returns (NodeStageVolume_cache env cas nodeId pod) v (Inl (Status Unavailable msg)) (v1\<lparr>outside := x\<rparr>)))"
proof -
  have label: "mget (Labels (NodeMeta node)) OperatingCacheLabelKey = Some val"
    using SetOperatingCacheLabel_stores [OF assms(1,2)] assms(5) by simp
  have insts: "GetCacheInstances env cas v = (Ret (instances, None), v1)"
    using assms(3) by (simp add: GetCacheInstances_def returns_def bnd_Ret)
  have "i = c" if "i \<in> set instances" "CacheId i = CacheId c" for i
    using that assms(6,7) by (simp add: distinct_map inj_on_def)
  then have "set (filter (\<lambda>i. CacheId i = CacheId c) instances) = {c}" using assms(6) by auto
  then have "last (y # ys) = c" if "filter (\<lambda>i. CacheId i = CacheId c) instances = y # ys" for y ys
    using that last_in_set [of "y # ys"] by (metis list.distinct(1) singletonD)
  then have "cache_by_label instances (fmt_int (CacheId c)) = Some c"
    using assms(6,8,9) by (auto simp: cache_by_label_def Atoi_fmt_int fold_last_match filter_empty_conv split: list.splits)
  moreover have "fmt_int (CacheId c) \<noteq> []"
    by (simp add: fmt_int_def)
  moreover have "instances \<noteq> []" using assms(6) by auto
  ultimately show ?thesis
    using assms(4) insts label
    by (auto simp: NodeStageVolume_cache_def returns_def Let_def bnd_Ret bnd_call)
qed

theorem operating_cache_agreement_witness:
  "\<exists>v w'. returns (NodeStageVolume_cache operator_env op_cas ''node1'' Pod_zero) v (Inr (new_cache 2)) w' \<and>
     mem_caches (outside v) = [busy_cache, new_cache 2]"
proof -
  let ?w = "op_world [busy_cache, new_cache 2]"
  let ?n = "op_node\<lparr>NodeMeta := (NodeMeta op_node)\<lparr>Labels := Some [(OperatingCacheLabelKey, fmt_int 2)]\<rparr>\<rparr>"
  let ?v = "?w\<lparr>outside := (outside ?w)\<lparr>MemNodes := [(''node1'', ?n)]\<rparr>\<rparr>"
  let ?cl = "operator_client op_resource"
  have stores: "node_patch_stores ?cl" by (simp add: node_patch_stores_def operator_client_def)
  have set: "returns (SetOperatingCacheLabel ?cl op_node (fmt_int (CacheId (new_cache 2)))) ?w (?n, None) ?v"
    by (simp add: returns_def op_set_label [OF op_node_labels(1)] op_node_labels Let_def new_cache_def)
  have caches: "mem_caches (outside ?v) = [busy_cache, new_cache 2]" by (simp add: mem_caches_def op_caches_ok)
  have lists: "returns (ListCaches operator_env op_cas) ?v ([busy_cache, new_cache 2], None) (op_listed ?v)"
    using op_list [of ?v op_cas] caches by (intro returnsI) simp
  have node: "Nodes_Get (kube operator_env) ''node1'' (outside (op_listed ?v)) = ((?n, None), outside (op_listed ?v))"
    by (simp add: operator_env_def mem_env_def mem_kube_def op_exec_def)
  have ids: "new_cache 2 \<in> set [busy_cache, new_cache 2]" "distinct (map CacheId [busy_cache, new_cache 2])"
    "- (2 ^ 63) \<le> CacheId (new_cache 2)" "CacheId (new_cache 2) < 2 ^ 63"
    by (simp_all add: new_cache_def busy_cache_fields)
  show ?thesis
    using operating_cache_agreement [OF stores set lists node refl ids, of Pod_zero] caches by blast
qed

end
